(* ===== verification/Prelude.thy ===== *)
theory Prelude
  imports Main "HOL-Library.Word" "HOL-Library.Multiset"
begin

section \<open>Prelude: Go results, programs over a world, and shared lemmas\<close>

text \<open>
  What every component of the development shares: Go's \<open>error\<close> values with the wrapping of
  \<open>github.com/pkg/errors\<close>, the three ways a Go call ends (a result, a non-nil error, a panic),
  programs as functions that thread an opaque world \<open>'w\<close>, the loop over a slice, the rules
  for their weakest preconditions and for invariants of the world, \<open>int64\<close> as 64-bit words, and
  generic lemmas on lists and strings.
\<close>

named_theorems wp_rules "weakest preconditions of the program combinators"
named_theorems panic_rules "programs that cannot panic"
named_theorems keeps_rules "invariants kept by the program combinators"

subsection \<open>Go errors\<close>

text \<open>
  \<open>Errorf\<close> is an error made by \<open>errors.New\<close> or \<open>errors.Errorf\<close>; \<open>AwsErr code text\<close> a value
  that implements \<open>awserr.Error\<close>; \<open>OtherErr\<close> any other error value (I/O, decoding); and
  \<open>Wrapped\<close> the result of \<open>errors.Wrap\<close> on a non-nil error.
\<close>

datatype goerr =
    Errorf string
  | AwsErr string string
  | OtherErr string
  | Wrapped goerr string

text \<open>\<open>errors.Wrap(err, msg)\<close>; \<open>None\<close> is Go's nil error. Wrapping nil gives nil.\<close>

definition Wrap :: "goerr option \<Rightarrow> string \<Rightarrow> goerr option" where
  "Wrap err msg = (case err of None \<Rightarrow> None | Some e \<Rightarrow> Some (Wrapped e msg))"

text \<open>The \<open>Error()\<close> method.\<close>

fun Error_text :: "goerr \<Rightarrow> string" where
  "Error_text (Errorf s) = s"
| "Error_text (AwsErr code s) = s"
| "Error_text (OtherErr s) = s"
| "Error_text (Wrapped e msg) = msg @ '': '' @ Error_text e"

text \<open>
  The type assertion \<open>aerr, ok := err.(awserr.Error)\<close> and \<open>aerr.Code()\<close>: only an error that is
  itself an AWS error has a code, a wrapped one has none.
\<close>

fun aws_code :: "goerr \<Rightarrow> string option" where
  "aws_code (AwsErr code s) = Some code"
| "aws_code _ = None"

lemma Wrap_simps [simp]:
  "Wrap None msg = None"
  "Wrap (Some e) msg = Some (Wrapped e msg)"
  by (simp_all add: Wrap_def)

lemma aws_code_Wrapped [simp]: "aws_code (Wrapped e msg) \<noteq> Some c"
  by simp

subsection \<open>Outcomes and programs\<close>

datatype 'a outcome = Ret 'a | Fail goerr | Panic

type_synonym ('w, 'a) prog = "'w \<Rightarrow> 'w \<times> 'a outcome"

definition ret :: "'a \<Rightarrow> ('w, 'a) prog" where
  "ret x = (\<lambda>w. (w, Ret x))"

definition fails :: "goerr \<Rightarrow> ('w, 'a) prog" where
  "fails e = (\<lambda>w. (w, Fail e))"

text \<open>A dereference of a pointer that may be nil.\<close>

definition deref :: "'a option \<Rightarrow> ('w, 'a) prog" where
  "deref p = (case p of None \<Rightarrow> (\<lambda>w. (w, Panic)) | Some x \<Rightarrow> ret x)"

text \<open>\<open>x, err := p; if err != nil { return err }; f(x)\<close>\<close>

definition bnd :: "('w, 'a) prog \<Rightarrow> ('a \<Rightarrow> ('w, 'b) prog) \<Rightarrow> ('w, 'b) prog" where
  "bnd p f = (\<lambda>w. case p w of
     (w', Ret x) \<Rightarrow> f x w'
   | (w', Fail e) \<Rightarrow> (w', Fail e)
   | (w', Panic) \<Rightarrow> (w', Panic))"

text \<open>\<open>p\<close>, with its error handed to \<open>h\<close> (the body of \<open>if err != nil\<close>).\<close>

definition on_err :: "('w, 'a) prog \<Rightarrow> (goerr \<Rightarrow> ('w, 'a) prog) \<Rightarrow> ('w, 'a) prog" where
  "on_err p h = (\<lambda>w. case p w of
     (w', Ret x) \<Rightarrow> (w', Ret x)
   | (w', Fail e) \<Rightarrow> h e w'
   | (w', Panic) \<Rightarrow> (w', Panic))"

text \<open>\<open>return errors.Wrap(err, msg)\<close> on error.\<close>

definition wrapping :: "string \<Rightarrow> ('w, 'a) prog \<Rightarrow> ('w, 'a) prog" where
  "wrapping msg p = on_err p (\<lambda>e. fails (Wrapped e msg))"

text \<open>Calls of the services return an error pointer, or an error or a value.\<close>

definition call :: "('w \<Rightarrow> 'w \<times> (goerr + 'a)) \<Rightarrow> ('w, 'a) prog" where
  "call c = (\<lambda>w. case c w of
     (w', Inl e) \<Rightarrow> (w', Fail e)
   | (w', Inr x) \<Rightarrow> (w', Ret x))"

definition call0 :: "('w \<Rightarrow> 'w \<times> goerr option) \<Rightarrow> ('w, unit) prog" where
  "call0 c = (\<lambda>w. case c w of
     (w', Some e) \<Rightarrow> (w', Fail e)
   | (w', None) \<Rightarrow> (w', Ret ()))"

text \<open>A pure Go function with an error result, and a read of the world that cannot fail.\<close>

definition of_sum :: "goerr + 'a \<Rightarrow> ('w, 'a) prog" where
  "of_sum r = (case r of Inl e \<Rightarrow> fails e | Inr x \<Rightarrow> ret x)"

definition reads :: "('w \<Rightarrow> 'w \<times> 'a) \<Rightarrow> ('w, 'a) prog" where
  "reads c = (\<lambda>w. case c w of (w', x) \<Rightarrow> (w', Ret x))"

text \<open>
  \<open>for _, x := range xs { body }\<close>: a body that ends with an error leaves the function that
  holds the loop (\<open>return err\<close>); one that logs and continues returns normally.
\<close>

fun each :: "('x \<Rightarrow> ('w, unit) prog) \<Rightarrow> 'x list \<Rightarrow> ('w, unit) prog" where
  "each f [] = ret ()"
| "each f (x # xs) = bnd (f x) (\<lambda>_. each f xs)"

text \<open>\<open>log the error; continue\<close>\<close>

definition logged :: "('w, unit) prog \<Rightarrow> ('w, unit) prog" where
  "logged p = on_err p (\<lambda>_. ret ())"

lemma bnd_cong [fundef_cong]:
  assumes "p w = p' w'" and "w = w'"
    and "\<And>w1 x. p' w' = (w1, Ret x) \<Longrightarrow> f x w1 = f' x w1"
  shows "bnd p f w = bnd p' f' w'"
  using assms by (auto simp: bnd_def split: prod.splits outcome.splits)

lemma bnd_ret [simp]: "bnd (ret x) f = f x"
  by (simp add: bnd_def ret_def)

lemma bnd_fails [simp]: "bnd (fails e) f = fails e"
  by (simp add: bnd_def fails_def)

lemma bnd_assoc: "bnd (bnd p f) g = bnd p (\<lambda>x. bnd (f x) g)"
  by (rule ext) (simp add: bnd_def split: prod.splits outcome.splits)

lemma on_err_ret [simp]: "on_err (ret x) h = ret x"
  by (simp add: on_err_def ret_def)

lemma on_err_fails [simp]: "on_err (fails e) h = h e"
  by (simp add: on_err_def fails_def)

lemma each_append: "each f (xs @ ys) = bnd (each f xs) (\<lambda>_. each f ys)"
  by (induction xs) (simp_all add: bnd_assoc)

subsection \<open>Weakest preconditions\<close>

text \<open>
  A program is a total function, so its weakest precondition is exact: \<open>wp p Q w\<close> says that
  the run of \<open>p\<close> from \<open>w\<close> ends in a world and an outcome that satisfy \<open>Q\<close>, whatever the outcome.
\<close>

definition wp :: "('w, 'a) prog \<Rightarrow> ('w \<Rightarrow> 'a outcome \<Rightarrow> bool) \<Rightarrow> 'w \<Rightarrow> bool" where
  "wp p Q w = (case p w of (w', r) \<Rightarrow> Q w' r)"

lemma wp_run: "wp p Q w \<Longrightarrow> p w = (w', r) \<Longrightarrow> Q w' r"
  by (simp add: wp_def)

lemma wp_mono: "wp p Q w \<Longrightarrow> (\<And>w' r. Q w' r \<Longrightarrow> Q' w' r) \<Longrightarrow> wp p Q' w"
  by (auto simp: wp_def split: prod.splits)

lemma wp_conj: "wp p Q w \<Longrightarrow> wp p Q' w \<Longrightarrow> wp p (\<lambda>w' r. Q w' r \<and> Q' w' r) w"
  by (auto simp: wp_def split: prod.splits)

lemma wp_ret [wp_rules]: "wp (ret x) Q w \<longleftrightarrow> Q w (Ret x)"
  by (simp add: wp_def ret_def)

lemma wp_fails [wp_rules]: "wp (fails e) Q w \<longleftrightarrow> Q w (Fail e)"
  by (simp add: wp_def fails_def)

lemma wp_deref [wp_rules]:
  "wp (deref p) Q w \<longleftrightarrow> (case p of None \<Rightarrow> Q w Panic | Some x \<Rightarrow> Q w (Ret x))"
  by (simp add: wp_def deref_def ret_def split: option.splits)

lemma wp_bnd [wp_rules]:
  "wp (bnd p f) Q w \<longleftrightarrow> wp p (\<lambda>w' r. case r of
     Ret x \<Rightarrow> wp (f x) Q w' | Fail e \<Rightarrow> Q w' (Fail e) | Panic \<Rightarrow> Q w' Panic) w"
  by (simp add: wp_def bnd_def split: prod.splits outcome.splits)

lemma wp_on_err [wp_rules]:
  "wp (on_err p h) Q w \<longleftrightarrow> wp p (\<lambda>w' r. case r of
     Ret x \<Rightarrow> Q w' (Ret x) | Fail e \<Rightarrow> wp (h e) Q w' | Panic \<Rightarrow> Q w' Panic) w"
  by (simp add: wp_def on_err_def split: prod.splits outcome.splits)

lemma wp_wrapping [wp_rules]:
  "wp (wrapping msg p) Q w \<longleftrightarrow> wp p (\<lambda>w' r. case r of
     Ret x \<Rightarrow> Q w' (Ret x) | Fail e \<Rightarrow> Q w' (Fail (Wrapped e msg)) | Panic \<Rightarrow> Q w' Panic) w"
  by (simp add: wrapping_def wp_on_err wp_fails cong: outcome.case_cong)

lemma wp_logged [wp_rules]:
  "wp (logged p) Q w \<longleftrightarrow> wp p (\<lambda>w' r. case r of
     Ret x \<Rightarrow> Q w' (Ret x) | Fail e \<Rightarrow> Q w' (Ret ()) | Panic \<Rightarrow> Q w' Panic) w"
  by (simp add: logged_def wp_on_err wp_ret cong: outcome.case_cong)

lemma wp_of_sum [wp_rules]:
  "wp (of_sum s) Q w \<longleftrightarrow> (case s of Inl e \<Rightarrow> Q w (Fail e) | Inr x \<Rightarrow> Q w (Ret x))"
  by (simp add: wp_def of_sum_def fails_def ret_def split: sum.splits)

text \<open>
  The loop rule: an invariant that every iteration keeps and that leaves the loop with the
  iteration's own error or panic.
\<close>

lemma wp_each:
  assumes "I w"
    and body: "\<And>x w. x \<in> set xs \<Longrightarrow> I w \<Longrightarrow> wp (f x) (\<lambda>w' r. case r of
        Ret _ \<Rightarrow> I w' | Fail e \<Rightarrow> Q w' (Fail e) | Panic \<Rightarrow> Q w' Panic) w"
    and fin: "\<And>w. I w \<Longrightarrow> Q w (Ret ())"
  shows "wp (each f xs) Q w"
  using assms(1) body
proof (induction xs arbitrary: w)
  case Nil
  then show ?case by (simp add: wp_ret fin)
next
  case (Cons x xs)
  from Cons.prems(2) [of x w] Cons.prems(1)
  have "wp (f x) (\<lambda>w' r. case r of
      Ret _ \<Rightarrow> I w' | Fail e \<Rightarrow> Q w' (Fail e) | Panic \<Rightarrow> Q w' Panic) w"
    by simp
  then have "wp (f x) (\<lambda>w' r. case r of
      Ret _ \<Rightarrow> wp (each f xs) Q w' | Fail e \<Rightarrow> Q w' (Fail e) | Panic \<Rightarrow> Q w' Panic) w"
  proof (rule wp_mono)
    fix w' r
    assume r: "case r of Ret _ \<Rightarrow> I w' | Fail e \<Rightarrow> Q w' (Fail e) | Panic \<Rightarrow> Q w' Panic"
    have "I w' \<Longrightarrow> wp (each f xs) Q w'"
      by (rule Cons.IH) (simp_all add: Cons.prems(2))
    with r show "case r of Ret x \<Rightarrow> wp (each f xs) Q w' | Fail e \<Rightarrow> Q w' (Fail e) | Panic \<Rightarrow> Q w' Panic"
      by (simp split: outcome.splits)
  qed
  then show ?case by (simp add: wp_bnd)
qed

subsection \<open>Invariants of the world\<close>

text \<open>\<open>keeps I p\<close>: whatever its outcome, \<open>p\<close> takes a world in \<open>I\<close> to a world in \<open>I\<close>.\<close>

definition keeps :: "('w \<Rightarrow> bool) \<Rightarrow> ('w, 'a) prog \<Rightarrow> bool" where
  "keeps I p \<longleftrightarrow> (\<forall>w. I w \<longrightarrow> I (fst (p w)))"

lemma keepsD: "keeps I p \<Longrightarrow> I w \<Longrightarrow> p w = (w', r) \<Longrightarrow> I w'"
  by (metis fst_conv keeps_def)

lemma keepsI: "(\<And>w w' r. I w \<Longrightarrow> p w = (w', r) \<Longrightarrow> I w') \<Longrightarrow> keeps I p"
  by (metis keeps_def prod.collapse)

lemma keeps_wp: "keeps I p \<longleftrightarrow> (\<forall>w. I w \<longrightarrow> wp p (\<lambda>w' r. I w') w)"
  by (simp add: keeps_def wp_def case_prod_beta)

lemma keeps_ret [keeps_rules]: "keeps I (ret x)"
  by (simp add: keeps_def ret_def)

lemma keeps_fails [keeps_rules]: "keeps I (fails e)"
  by (simp add: keeps_def fails_def)

lemma keeps_deref [keeps_rules]: "keeps I (deref p)"
  by (simp add: keeps_def deref_def ret_def split: option.splits)

lemma keeps_of_sum [keeps_rules]: "keeps I (of_sum s)"
  by (simp add: keeps_def of_sum_def ret_def fails_def split: sum.splits)

lemma keeps_bnd [keeps_rules]:
  assumes "keeps I p" and "\<And>x. keeps I (f x)"
  shows "keeps I (bnd p f)"
  using assms by (fastforce simp: keeps_def bnd_def split: prod.splits outcome.splits)

lemma keeps_on_err [keeps_rules]:
  assumes "keeps I p" and "\<And>e. keeps I (h e)"
  shows "keeps I (on_err p h)"
  using assms by (fastforce simp: keeps_def on_err_def split: prod.splits outcome.splits)

lemma keeps_wrapping [keeps_rules]: "keeps I p \<Longrightarrow> keeps I (wrapping msg p)"
  by (simp add: wrapping_def keeps_on_err keeps_fails)

lemma keeps_logged [keeps_rules]: "keeps I p \<Longrightarrow> keeps I (logged p)"
  by (simp add: logged_def keeps_on_err keeps_ret)

lemma keeps_call:
  "(\<And>w w' r. I w \<Longrightarrow> c w = (w', r) \<Longrightarrow> I w') \<Longrightarrow> keeps I (call c)"
  by (auto simp: keeps_def call_def split: prod.splits sum.splits)

lemma keeps_call0:
  "(\<And>w w' r. I w \<Longrightarrow> c w = (w', r) \<Longrightarrow> I w') \<Longrightarrow> keeps I (call0 c)"
  by (auto simp: keeps_def call0_def split: prod.splits option.splits)

lemma keeps_reads:
  "(\<And>w w' r. I w \<Longrightarrow> c w = (w', r) \<Longrightarrow> I w') \<Longrightarrow> keeps I (reads c)"
  by (auto simp: keeps_def reads_def split: prod.splits)

lemma keeps_if [keeps_rules]:
  "(b \<Longrightarrow> keeps I p) \<Longrightarrow> (\<not> b \<Longrightarrow> keeps I q) \<Longrightarrow> keeps I (if b then p else q)"
  by simp

lemma keeps_each [keeps_rules]:
  assumes "\<And>x. x \<in> set xs \<Longrightarrow> keeps I (f x)"
  shows "keeps I (each f xs)"
  using assms by (induction xs) (auto intro!: keeps_rules)

text \<open>Sequencing when the value of the first program is known to satisfy \<open>P\<close>.\<close>

lemma keeps_bnd_of_sum:
  assumes "\<And>x. s = Inr x \<Longrightarrow> keeps I (f x)"
  shows "keeps I (bnd (of_sum s) f)"
  using assms by (cases s) (simp_all add: of_sum_def keeps_fails)

lemma keeps_bnd_deref:
  assumes "\<And>x. p = Some x \<Longrightarrow> keeps I (f x)"
  shows "keeps I (bnd (deref p) f)"
  using assms by (cases p) (simp_all add: deref_def keeps_def bnd_def ret_def)

lemma keeps_bnd_post:
  assumes "keeps I p" and "\<And>w w' x. I w \<Longrightarrow> p w = (w', Ret x) \<Longrightarrow> P x" and "\<And>x. P x \<Longrightarrow> keeps I (f x)"
  shows "keeps I (bnd p f)"
proof (rule keepsI)
  fix w w' r
  assume I: "I w" and run: "bnd p f w = (w', r)"
  obtain w1 r1 where p: "p w = (w1, r1)" by fastforce
  with I assms(1) have I1: "I w1" by (metis keepsD)
  show "I w'"
  proof (cases r1)
    case (Ret x)
    with assms(2,3) I p have "keeps I (f x)" by blast
    with I1 run p Ret show ?thesis by (auto simp: bnd_def dest: keepsD)
  qed (use run p I1 in \<open>auto simp: bnd_def\<close>)
qed

lemma wrapping_Ret: "wrapping m p w = (w', Ret x) \<Longrightarrow> p w = (w', Ret x)"
  by (auto simp: wrapping_def on_err_def fails_def split: prod.splits outcome.splits)

lemma call_Ret: "call c w = (w', Ret x) \<Longrightarrow> c w = (w', Inr x)"
  by (auto simp: call_def split: prod.splits sum.splits)

subsection \<open>Freedom from panics\<close>

definition panic_free :: "('w, 'a) prog \<Rightarrow> bool" where
  "panic_free p \<longleftrightarrow> (\<forall>w. snd (p w) \<noteq> Panic)"

lemma panic_freeD: "panic_free p \<Longrightarrow> p w = (w', r) \<Longrightarrow> r \<noteq> Panic"
  by (metis panic_free_def snd_conv)

lemma panic_free_basic [panic_rules]:
  "panic_free (ret x)" "panic_free (fails e)" "panic_free (of_sum s)"
  "panic_free (call c)" "panic_free (call0 c0)" "panic_free (reads cr)" "panic_free (deref (Some y))"
  by (auto simp: panic_free_def ret_def fails_def of_sum_def call_def call0_def reads_def deref_def
      split: prod.split sum.split option.split)

lemma panic_free_bnd [panic_rules]:
  "panic_free p \<Longrightarrow> (\<And>x. panic_free (f x)) \<Longrightarrow> panic_free (bnd p f)"
  by (auto simp: panic_free_def bnd_def split: prod.split outcome.split) (metis snd_conv)

lemma panic_free_on_err [panic_rules]:
  "panic_free p \<Longrightarrow> (\<And>e. panic_free (h e)) \<Longrightarrow> panic_free (on_err p h)"
  by (auto simp: panic_free_def on_err_def split: prod.split outcome.split) (metis snd_conv)

lemma panic_free_wrapping [panic_rules]: "panic_free p \<Longrightarrow> panic_free (wrapping msg p)"
  by (simp add: wrapping_def panic_free_on_err panic_free_basic)

lemma panic_free_logged [panic_rules]: "panic_free p \<Longrightarrow> panic_free (logged p)"
  by (simp add: logged_def panic_free_on_err panic_free_basic)

lemma panic_free_if [panic_rules]:
  "(b \<Longrightarrow> panic_free p) \<Longrightarrow> (\<not> b \<Longrightarrow> panic_free q) \<Longrightarrow> panic_free (if b then p else q)"
  by simp

lemma panic_free_each [panic_rules]: "(\<And>x. x \<in> set xs \<Longrightarrow> panic_free (f x)) \<Longrightarrow> panic_free (each f xs)"
  by (induction xs) (auto intro!: panic_rules)

text \<open>A logged program that cannot panic always returns.\<close>

lemma logged_returns:
  assumes "panic_free p"
  shows "snd (logged p w) = Ret ()"
  using assms
  by (auto simp: panic_free_def logged_def on_err_def ret_def split: prod.split outcome.split)
     (metis snd_conv)

lemma each_returns:
  assumes "\<And>x w. x \<in> set xs \<Longrightarrow> snd (f x w) = Ret ()"
  shows "snd (each f xs w) = Ret ()"
  using assms
proof (induction xs arbitrary: w)
  case Nil
  then show ?case by (simp add: ret_def)
next
  case (Cons x xs)
  obtain w' r where "f x w = (w', r)" by fastforce
  moreover from this Cons.prems [of x w] have "r = Ret ()" by simp
  ultimately show ?case using Cons by (simp add: bnd_def)
qed

subsection \<open>Machine integers\<close>

text \<open>Go's \<open>int\<close> and \<open>int64\<close> on the Lambda platform: 64 bits, two's complement, wrapping.\<close>

type_synonym int64 = "64 word"

definition in_int64 :: "int \<Rightarrow> bool" where
  "in_int64 i \<longleftrightarrow> - (2 ^ 63) \<le> i \<and> i < 2 ^ 63"

lemma in_int64_sint [simp]: "in_int64 (sint (i :: int64))"
  using sint_greater_eq [of i] sint_lt [of i] by (simp add: in_int64_def)

lemma sint_word_of_int64: "in_int64 i \<Longrightarrow> sint (word_of_int i :: int64) = i"
  by (simp add: in_int64_def sint_sbintrunc' signed_take_bit_int_eq_self)

lemma word_of_int_sint64 [simp]: "word_of_int (sint (i :: int64)) = i"
  by simp

lemma sint_eq64_iff [simp]: "sint (a :: int64) = sint b \<longleftrightarrow> a = b"
  by (metis word_of_int_sint64)

text \<open>\<open>strconv.ParseInt(s, 10, 64)\<close> on a number attribute; the value out of range is an error.\<close>

definition ParseInt64 :: "int \<Rightarrow> goerr + int64" where
  "ParseInt64 i = (if in_int64 i then Inr (word_of_int i) else Inl (OtherErr ''value out of range''))"

lemma ParseInt64_sint [simp]: "ParseInt64 (sint i) = Inr i"
  by (simp add: ParseInt64_def)

text \<open>\<open>strconv.FormatInt(i, 10)\<close>\<close>

definition digit :: "nat \<Rightarrow> char" where
  "digit d = char_of (48 + d)"

fun nat_text :: "nat \<Rightarrow> string" where
  "nat_text n = (if n < 10 then [digit n] else nat_text (n div 10) @ [digit (n mod 10)])"

declare nat_text.simps [simp del]

definition int_text :: "int \<Rightarrow> string" where
  "int_text i = (if i < 0 then CHR ''-'' # nat_text (nat (- i)) else nat_text (nat i))"

subsection \<open>Sums\<close>

definition sbind :: "'e + 'a \<Rightarrow> ('a \<Rightarrow> 'e + 'b) \<Rightarrow> 'e + 'b" where
  "sbind m f = (case m of Inl e \<Rightarrow> Inl e | Inr x \<Rightarrow> f x)"

lemma sbind_simps [simp]:
  "sbind (Inl e) f = Inl e"
  "sbind (Inr x) f = f x"
  by (simp_all add: sbind_def)

lemma sbind_Inr_iff: "sbind m f = Inr y \<longleftrightarrow> (\<exists>x. m = Inr x \<and> f x = Inr y)"
  by (cases m) simp_all

subsection \<open>Running closed programs\<close>

text \<open>The equations with which the simplifier runs a program on a concrete world.\<close>

lemmas prog_run =
  bnd_def ret_def fails_def on_err_def wrapping_def call_def call0_def reads_def of_sum_def logged_def
  deref_def ParseInt64_def in_int64_def

end
