(* ===== verification/Go_Sort.thy ===== *)
theory Go_Sort
  imports Prelude
begin

section \<open>\<open>sort.Slice\<close> on short slices\<close>

text \<open>
  Go's \<open>sort.Slice\<close> on at most twelve elements, the only case the scheduler reaches (its query
  returns ten items at most): one pass with gap six, then insertion sort. The scheduler calls it
  with \<open>>=\<close>, which is no strict order as the documentation of \<open>sort\<close> asks for; the locale
  \<open>total_less\<close> states what this function is (total and transitive), and its lemmas that the result
  is sorted and a permutation all the same.
\<close>

fun sift :: "('a \<Rightarrow> 'a \<Rightarrow> bool) \<Rightarrow> 'a \<Rightarrow> 'a list \<Rightarrow> 'a list" where
  "sift lt x [] = [x]"
| "sift lt x (y # ys) = (if lt x y then y # sift lt x ys else x # y # ys)"

text \<open>
  \<open>for i := 1; i < n; i++ { for j := i; j > 0 && less(j, j-1); j-- { swap(j, j-1) } }\<close>: the
  sorted prefix is kept reversed, so that the element moves from its head.
\<close>

definition insertionSort :: "('a \<Rightarrow> 'a \<Rightarrow> bool) \<Rightarrow> 'a list \<Rightarrow> 'a list" where
  "insertionSort lt xs = rev (foldl (\<lambda>rp x. sift lt x rp) [] xs)"

text \<open>\<open>for i := 6; i < n; i++ { if less(i, i-6) { swap(i, i-6) } }\<close>\<close>

definition shell_step :: "('a \<Rightarrow> 'a \<Rightarrow> bool) \<Rightarrow> 'a list \<Rightarrow> nat \<Rightarrow> 'a list" where
  "shell_step lt xs i =
     (if lt (xs ! i) (xs ! (i - 6)) then xs[i := xs ! (i - 6), i - 6 := xs ! i] else xs)"

definition sort_Slice :: "('a \<Rightarrow> 'a \<Rightarrow> bool) \<Rightarrow> 'a list \<Rightarrow> 'a list" where
  "sort_Slice lt xs = insertionSort lt (foldl (shell_step lt) xs [6..<length xs])"

lemma mset_sift: "mset (sift lt x ys) = add_mset x (mset ys)"
  by (induction ys) auto

lemma mset_foldl_sift: "mset (foldl (\<lambda>rp x. sift lt x rp) rp xs) = mset rp + mset xs"
  by (induction xs arbitrary: rp) (simp_all add: mset_sift)

lemma mset_insertionSort [simp]: "mset (insertionSort lt xs) = mset xs"
  by (simp add: insertionSort_def mset_foldl_sift)

lemma length_shell_step [simp]: "length (shell_step lt xs i) = length xs"
  by (simp add: shell_step_def)

lemma mset_shell_step: "i < length xs \<Longrightarrow> mset (shell_step lt xs i) = mset xs"
  by (auto simp: shell_step_def intro: mset_swap)

lemma mset_shell: "\<forall>i \<in> set is. i < length xs \<Longrightarrow> mset (foldl (shell_step lt) xs is) = mset xs"
  by (induction "is" arbitrary: xs) (simp_all add: mset_shell_step)

lemma mset_sort_Slice [simp]: "mset (sort_Slice lt xs) = mset xs"
  by (simp add: sort_Slice_def mset_shell)

lemma set_sort_Slice [simp]: "set (sort_Slice lt xs) = set xs"
  by (metis mset_sort_Slice set_mset_mset)

lemma length_sort_Slice [simp]: "length (sort_Slice lt xs) = length xs"
  by (metis mset_sort_Slice size_mset)

locale total_less =
  fixes lt :: "'a \<Rightarrow> 'a \<Rightarrow> bool"
  assumes total: "lt x y \<or> lt y x"
    and trans: "lt x y \<Longrightarrow> lt y z \<Longrightarrow> lt x z"
begin

lemma sift_sorted:
  "sorted_wrt (\<lambda>a b. lt b a) ys \<Longrightarrow> sorted_wrt (\<lambda>a b. lt b a) (sift lt x ys)"
proof (induction ys)
  case Nil
  then show ?case by simp
next
  case (Cons y ys)
  have in_sift: "set (sift lt x ys) = insert x (set ys)"
    by (metis mset_sift set_mset_add_mset_insert set_mset_mset)
  show ?case
  proof (cases "lt x y")
    case True
    with Cons in_sift show ?thesis by auto
  next
    case False
    with total have "lt y x" by blast
    with Cons.prems False show ?thesis by (auto intro: trans)
  qed
qed

lemma insertionSort_sorted: "sorted_wrt lt (insertionSort lt xs)"
proof -
  have "sorted_wrt (\<lambda>a b. lt b a) (foldl (\<lambda>rp x. sift lt x rp) rp xs)"
    if "sorted_wrt (\<lambda>a b. lt b a) rp" for rp
    using that by (induction xs arbitrary: rp) (simp_all add: sift_sorted)
  from this [of "[]"] show ?thesis
    by (simp add: insertionSort_def sorted_wrt_rev)
qed

lemma sort_Slice_sorted: "sorted_wrt lt (sort_Slice lt xs)"
  by (simp add: sort_Slice_def insertionSort_sorted)

lemma sort_Slice_head:
  assumes "xs \<noteq> []" and "x \<in> set xs"
  shows "lt (hd (sort_Slice lt xs)) x"
proof -
  have "sort_Slice lt xs \<noteq> []"
    using assms(1) by (metis length_sort_Slice length_0_conv)
  then obtain y ys where ys: "sort_Slice lt xs = y # ys" by (cases "sort_Slice lt xs") auto
  moreover have "x \<in> set (y # ys)" using assms(2) set_sort_Slice [of lt xs] ys by auto
  moreover have "\<forall>z \<in> set ys. lt y z" using sort_Slice_sorted [of xs] ys by simp
  ultimately show ?thesis using total [of y y] by auto
qed

end

end
