(* ===== verification/Services.thy ===== *)
theory Services
  imports Prelude
begin

section \<open>The backend interface: DynamoDB, SQS, the clock and the random source\<close>

text \<open>
  The program talks to the world through \<open>line.Services\<close> (a DynamoDB client, an SQS client) and
  through \<open>time.Now\<close> and \<open>rand.Read\<close>. None of that code is in the repository, so it is a
  parameter: a record of functions over an opaque world \<open>'w\<close>. This theory fixes the types of the
  requests the program builds (items, condition, update and key expressions, written as syntax
  trees instead of expression strings) and the configuration \<open>line.Conf\<close>. Logging has no effect
  the program depends on and is left out.
\<close>

subsection \<open>Attribute values and items\<close>

text \<open>
  \<open>dynamodb.AttributeValue\<close>: a string, a number, a null, a map with its (distinct) keys, or any
  non-empty value of a type the program never writes (boolean, binary, list, set). A number is
  kept as the integer it denotes: every number of the tables is an integer.
\<close>

datatype attr =
    AS string
  | AN int
  | ANULL
  | AM "(string \<times> attr) list"
  | AOther

type_synonym item = "string \<rightharpoonup> attr"

text \<open>
  Go's lookup of an attribute in a marshalled map (\<open>poolattr["pool"]\<close>). The key is always
  present where the program does it; a nil attribute would be sent as an absent value.
\<close>

definition aget :: "item \<Rightarrow> string \<Rightarrow> attr" where
  "aget it a = (case it a of None \<Rightarrow> ANULL | Some v \<Rightarrow> v)"

lemma aget_Some [simp]: "it a = Some v \<Longrightarrow> aget it a = v"
  by (simp add: aget_def)

subsection \<open>Expressions\<close>

text \<open>
  \<open>attribute_exists(a)\<close>, \<open>attribute_not_exists(a)\<close>, \<open>a >= v\<close>; \<open>SET a = v\<close>, \<open>SET a = a - v\<close>,
  \<open>SET a = a + v\<close>; and the key conditions \<open>hash = v AND range >= v'\<close>, \<open>... range < v'\<close>,
  \<open>... begins_with(range, v')\<close>.
\<close>

datatype cond =
    Attribute_exists string
  | Attribute_not_exists string
  | Attr_ge string attr

datatype upd =
    Set_to string attr
  | Set_minus string attr
  | Set_plus string attr

datatype range_cond =
    Range_ge string attr
  | Range_lt string attr
  | Range_begins_with string attr

record query =
  q_TableName :: string
  q_IndexName :: "string option"
  q_Limit :: "nat option"
  q_hash :: "string \<times> attr"
  q_range :: range_cond

text \<open>The error codes the program tests for.\<close>

definition ErrCodeConditionalCheckFailedException :: string where
  "ErrCodeConditionalCheckFailedException = ''ConditionalCheckFailedException''"

definition ErrCodeQueueDoesNotExist :: string where
  "ErrCodeQueueDoesNotExist = ''AWS.SimpleQueueService.NonExistentQueue''"

subsection \<open>Message bodies\<close>

text \<open>
  The bodies of queue messages and of HTTP requests and responses are JSON texts. A body is the
  document the text denotes, or \<open>None\<close> for a text that \<open>encoding/json\<close> rejects. A number that
  is no decimal integer literal (a fraction, an exponent) is \<open>JFrac\<close>. \<open>JSON_Text\<close> holds the texts.
\<close>

datatype json =
    JNull
  | JBool bool
  | JNum int
  | JFrac
  | JStr string
  | JArr "json list"
  | JObj "(string \<times> json) list"

type_synonym body = "json option"

subsection \<open>The services\<close>

text \<open>
  \<open>sqs.Message\<close> as the program reads it: \<open>ReceiptHandle\<close> and \<open>Body\<close>.
\<close>

record message =
  msg_ReceiptHandle :: string
  msg_Body :: body

text \<open>
  Each call takes the world and returns the new world with its result. \<open>db_ScanPage\<close> fetches one
  page of a scan from a start key; the SDK's \<open>ScanPages\<close> iterates it. \<open>sqs_ReceiveMessage\<close>
  takes the queue url, the optional visibility timeout and wait time, and the maximal number of
  messages. The key of \<open>GetItem\<close>, \<open>UpdateItem\<close> and \<open>DeleteItem\<close> is an item that holds the
  key attributes.
\<close>

record 'w services =
  db_PutItem :: "string \<Rightarrow> item \<Rightarrow> cond option \<Rightarrow> 'w \<Rightarrow> 'w \<times> goerr option"
  db_GetItem :: "string \<Rightarrow> item \<Rightarrow> 'w \<Rightarrow> 'w \<times> (goerr + item option)"
  db_UpdateItem :: "string \<Rightarrow> item \<Rightarrow> upd \<Rightarrow> cond option \<Rightarrow> 'w \<Rightarrow> 'w \<times> goerr option"
  db_DeleteItem :: "string \<Rightarrow> item \<Rightarrow> cond option \<Rightarrow> 'w \<Rightarrow> 'w \<times> goerr option"
  db_Query :: "query \<Rightarrow> 'w \<Rightarrow> 'w \<times> (goerr + item list)"
  db_ScanPage :: "string \<Rightarrow> item option \<Rightarrow> 'w \<Rightarrow> 'w \<times> (goerr + item list \<times> item option)"
  sqs_CreateQueue :: "string \<Rightarrow> 'w \<Rightarrow> 'w \<times> (goerr + string)"
  sqs_DeleteQueue :: "string \<Rightarrow> 'w \<Rightarrow> 'w \<times> goerr option"
  sqs_SendMessage :: "string \<Rightarrow> body \<Rightarrow> 'w \<Rightarrow> 'w \<times> goerr option"
  sqs_ReceiveMessage ::
    "string \<Rightarrow> int64 option \<Rightarrow> int64 option \<Rightarrow> int64 \<Rightarrow> 'w \<Rightarrow> 'w \<times> (goerr + message list)"
  sqs_DeleteMessage :: "string \<Rightarrow> string \<Rightarrow> 'w \<Rightarrow> 'w \<times> goerr option"
  time_Now_Unix :: "'w \<Rightarrow> 'w \<times> int64"
  rand_Read :: "nat \<Rightarrow> 'w \<Rightarrow> 'w \<times> (goerr + string)"

subsection \<open>The configuration\<close>

record Conf =
  Deployment :: string
  AWSAccountID :: string
  AWSAccessKeyID :: string
  AWSSecretAccessKey :: string
  AWSRegion :: string
  StripBaseMappings :: int64
  PoolTTL :: int64
  WorkerTTL :: int64
  ReplicaTTL :: int64
  AllocTTL :: int64
  MaxRetry :: int64
  ScheduleDLQueueURL :: string
  PoolsTableName :: string
  ReplicasTableName :: string
  ReplicasTTLIdxName :: string
  WorkersTTLIdxName :: string
  WorkersTableName :: string
  WorkersCapIdxName :: string
  AllocsTableName :: string
  AllocsTTLIdxName :: string

subsection \<open>Random identifiers\<close>

text \<open>\<open>hex.EncodeToString\<close>: two lower-case hexadecimal digits for each byte.\<close>

definition hex_digit :: "nat \<Rightarrow> char" where
  "hex_digit d = ''0123456789abcdef'' ! d"

fun hex_EncodeToString :: "string \<Rightarrow> string" where
  "hex_EncodeToString [] = []"
| "hex_EncodeToString (c # cs) =
     hex_digit (of_char c div 16) # hex_digit (of_char c mod 16) # hex_EncodeToString cs"

lemma length_hex: "length (hex_EncodeToString bs) = 2 * length bs"
  by (induction bs) auto

lemma hex_digit_inj: "m < 16 \<Longrightarrow> n < 16 \<Longrightarrow> hex_digit m = hex_digit n \<Longrightarrow> m = n"
proof -
  assume "m < 16" "n < 16" "hex_digit m = hex_digit n"
  moreover have "distinct ''0123456789abcdef''" by simp
  ultimately show "m = n"
    unfolding hex_digit_def by (subst (asm) nth_eq_iff_index_eq) simp_all
qed

lemma of_char_halves:
  assumes "(of_char c :: nat) div 16 = of_char d div 16" and "(of_char c :: nat) mod 16 = of_char d mod 16"
  shows "c = d"
proof -
  have "(of_char c :: nat) = of_char d"
    using assms by (metis div_mod_decomp)
  then show ?thesis by (simp add: of_char_eq_iff)
qed

lemma hex_inj: "hex_EncodeToString as = hex_EncodeToString bs \<Longrightarrow> as = bs"
proof (induction as arbitrary: bs)
  case Nil
  then show ?case by (cases bs) simp_all
next
  case (Cons a as)
  then obtain b bs' where bs: "bs = b # bs'"
    by (cases bs) simp_all
  have "(of_char a :: nat) div 16 < 16" "(of_char b :: nat) div 16 < 16"
    using nat_of_char_less_256 [of a] nat_of_char_less_256 [of b] by linarith+
  with Cons.prems bs have "a = b"
    by (auto intro!: of_char_halves dest!: hex_digit_inj [rotated 2])
  with Cons bs show ?case by simp
qed

end
