(* ===== verification/Entities.thy ===== *)
theory Entities
  imports Services
begin

section \<open>The stored entities and their marshalling\<close>

text \<open>
  The structs of \<open>pool.go\<close>, \<open>worker.go\<close>, \<open>replica.go\<close>, \<open>alloc.go\<close> and \<open>eval.go\<close>, and the items
  that \<open>dynamodbattribute.MarshalMap\<close> and \<open>UnmarshalMap\<close> make of them by their struct tags. An
  embedded key struct is the parent of a record. The locale \<open>entity_codec\<close> states what the stores
  rely on, that unmarshalling a marshalled entity gives it back; it is interpreted for all five
  structs.
\<close>

subsection \<open>Structs\<close>

record Eval =
  Dataset :: string
  Size :: int64
  Retry :: int64

record PoolPK =
  pool_PoolID :: string

record Pool = PoolPK +
  pool_QueueURL :: string
  pool_TTL :: int64

record WorkerPK =
  wrk_PoolID :: string
  wrk_WorkerID :: string

record Worker = WorkerPK +
  wrk_Capacity :: int64
  wrk_QueueURL :: string
  wrk_TTL :: int64

record ReplicaPK =
  rpl_PoolID :: string
  rpl_ReplicaID :: string

record Replica = ReplicaPK +
  rpl_TTL :: int64

record AllocPK =
  alloc_PoolID :: string
  alloc_AllocID :: string

record Alloc = AllocPK +
  alloc_TTL :: int64
  alloc_WorkerID :: string
  alloc_Eval :: "Eval option"

subsection \<open>Scalar attributes\<close>

text \<open>
  The encoder writes an empty string as a null attribute. The decoder sets the zero value for a
  null, leaves it for an attribute that carries nothing (an empty map), reads the decimal text of
  a number into a string field, and reports any other mismatch of type or range.
\<close>

definition enc_string :: "string \<Rightarrow> attr" where
  "enc_string s = (if s = [] then ANULL else AS s)"

definition enc_int64 :: "int64 \<Rightarrow> attr" where
  "enc_int64 i = AN (sint i)"

definition UnmarshalTypeError :: goerr where
  "UnmarshalTypeError = AwsErr ''UnmarshalTypeError'' ''UnmarshalTypeError''"

fun dec_string :: "attr \<Rightarrow> goerr + string" where
  "dec_string (AS s) = Inr s"
| "dec_string (AN i) = Inr (int_text i)"
| "dec_string ANULL = Inr []"
| "dec_string (AM m) = (if m = [] then Inr [] else Inl UnmarshalTypeError)"
| "dec_string AOther = Inl UnmarshalTypeError"

fun dec_int64 :: "attr \<Rightarrow> goerr + int64" where
  "dec_int64 (AN i) = ParseInt64 i"
| "dec_int64 ANULL = Inr 0"
| "dec_int64 (AS s) = Inl UnmarshalTypeError"
| "dec_int64 (AM m) = (if m = [] then Inr 0 else Inl UnmarshalTypeError)"
| "dec_int64 AOther = Inl UnmarshalTypeError"

text \<open>A field whose attribute the item lacks keeps the zero value of its type.\<close>

definition dec_field :: "(attr \<Rightarrow> goerr + 'a) \<Rightarrow> 'a \<Rightarrow> item \<Rightarrow> string \<Rightarrow> goerr + 'a" where
  "dec_field dec zero it a = (case it a of None \<Rightarrow> Inr zero | Some v \<Rightarrow> dec v)"

abbreviation string_field :: "item \<Rightarrow> string \<Rightarrow> goerr + string" where
  "string_field \<equiv> dec_field dec_string []"

abbreviation int64_field :: "item \<Rightarrow> string \<Rightarrow> goerr + int64" where
  "int64_field \<equiv> dec_field dec_int64 0"

lemma dec_string_enc [simp]: "dec_string (enc_string s) = Inr s"
  by (simp add: enc_string_def)

lemma dec_int64_enc [simp]: "dec_int64 (enc_int64 i) = Inr i"
  by (simp add: enc_int64_def)

lemma enc_string_inj [simp]: "enc_string s = enc_string t \<longleftrightarrow> s = t"
  by (metis dec_string_enc sum.inject(2))

subsection \<open>Structs as items\<close>

definition marshal_Eval :: "Eval \<Rightarrow> (string \<times> attr) list" where
  "marshal_Eval e =
     [(''set'', enc_string (Dataset e)), (''size'', enc_int64 (Size e)), (''try'', enc_int64 (Retry e))]"

definition unmarshal_Eval :: "item \<Rightarrow> goerr + Eval" where
  "unmarshal_Eval it =
     sbind (string_field it ''set'') (\<lambda>d.
     sbind (int64_field it ''size'') (\<lambda>s.
     sbind (int64_field it ''try'') (\<lambda>r.
     Inr \<lparr>Dataset = d, Size = s, Retry = r\<rparr>)))"

definition eval_item :: "Eval \<Rightarrow> item" where
  "eval_item e = map_of (marshal_Eval e)"

text \<open>The pointer field \<open>Eval *Eval\<close>: nil is a null attribute.\<close>

definition enc_Eval_ptr :: "Eval option \<Rightarrow> attr" where
  "enc_Eval_ptr p = (case p of None \<Rightarrow> ANULL | Some e \<Rightarrow> AM (marshal_Eval e))"

fun dec_Eval_ptr :: "attr \<Rightarrow> goerr + Eval option" where
  "dec_Eval_ptr ANULL = Inr None"
| "dec_Eval_ptr (AM m) = sbind (unmarshal_Eval (map_of m)) (\<lambda>e. Inr (Some e))"
| "dec_Eval_ptr (AS s) = Inl UnmarshalTypeError"
| "dec_Eval_ptr (AN i) = Inl UnmarshalTypeError"
| "dec_Eval_ptr AOther = Inl UnmarshalTypeError"

definition marshal_PoolPK :: "PoolPK \<Rightarrow> item" where
  "marshal_PoolPK pk = [''pool'' \<mapsto> enc_string (pool_PoolID pk)]"

definition marshal_Pool :: "Pool \<Rightarrow> item" where
  "marshal_Pool p = [''pool'' \<mapsto> enc_string (pool_PoolID p), ''que'' \<mapsto> enc_string (pool_QueueURL p),
     ''ttl'' \<mapsto> enc_int64 (pool_TTL p)]"

definition unmarshal_Pool :: "item \<Rightarrow> goerr + Pool" where
  "unmarshal_Pool it =
     sbind (string_field it ''pool'') (\<lambda>p.
     sbind (string_field it ''que'') (\<lambda>q.
     sbind (int64_field it ''ttl'') (\<lambda>t.
     Inr \<lparr>pool_PoolID = p, pool_QueueURL = q, pool_TTL = t\<rparr>)))"

definition marshal_WorkerPK :: "WorkerPK \<Rightarrow> item" where
  "marshal_WorkerPK pk =
     [''pool'' \<mapsto> enc_string (wrk_PoolID pk), ''wrk'' \<mapsto> enc_string (wrk_WorkerID pk)]"

definition marshal_Worker :: "Worker \<Rightarrow> item" where
  "marshal_Worker wk =
     [''pool'' \<mapsto> enc_string (wrk_PoolID wk), ''wrk'' \<mapsto> enc_string (wrk_WorkerID wk),
      ''cap'' \<mapsto> enc_int64 (wrk_Capacity wk), ''que'' \<mapsto> enc_string (wrk_QueueURL wk),
      ''ttl'' \<mapsto> enc_int64 (wrk_TTL wk)]"

definition unmarshal_Worker :: "item \<Rightarrow> goerr + Worker" where
  "unmarshal_Worker it =
     sbind (string_field it ''pool'') (\<lambda>p.
     sbind (string_field it ''wrk'') (\<lambda>k.
     sbind (int64_field it ''cap'') (\<lambda>c.
     sbind (string_field it ''que'') (\<lambda>q.
     sbind (int64_field it ''ttl'') (\<lambda>t.
     Inr \<lparr>wrk_PoolID = p, wrk_WorkerID = k, wrk_Capacity = c, wrk_QueueURL = q, wrk_TTL = t\<rparr>)))))"

definition marshal_ReplicaPK :: "ReplicaPK \<Rightarrow> item" where
  "marshal_ReplicaPK pk =
     [''pool'' \<mapsto> enc_string (rpl_PoolID pk), ''rpl'' \<mapsto> enc_string (rpl_ReplicaID pk)]"

definition marshal_Replica :: "Replica \<Rightarrow> item" where
  "marshal_Replica r =
     [''pool'' \<mapsto> enc_string (rpl_PoolID r), ''rpl'' \<mapsto> enc_string (rpl_ReplicaID r),
      ''ttl'' \<mapsto> enc_int64 (rpl_TTL r)]"

definition unmarshal_Replica :: "item \<Rightarrow> goerr + Replica" where
  "unmarshal_Replica it =
     sbind (string_field it ''pool'') (\<lambda>p.
     sbind (string_field it ''rpl'') (\<lambda>r.
     sbind (int64_field it ''ttl'') (\<lambda>t.
     Inr \<lparr>rpl_PoolID = p, rpl_ReplicaID = r, rpl_TTL = t\<rparr>)))"

definition marshal_AllocPK :: "AllocPK \<Rightarrow> item" where
  "marshal_AllocPK pk =
     [''pool'' \<mapsto> enc_string (alloc_PoolID pk), ''alloc'' \<mapsto> enc_string (alloc_AllocID pk)]"

definition marshal_Alloc :: "Alloc \<Rightarrow> item" where
  "marshal_Alloc a =
     [''pool'' \<mapsto> enc_string (alloc_PoolID a), ''alloc'' \<mapsto> enc_string (alloc_AllocID a),
      ''ttl'' \<mapsto> enc_int64 (alloc_TTL a), ''wrk'' \<mapsto> enc_string (alloc_WorkerID a),
      ''eval'' \<mapsto> enc_Eval_ptr (alloc_Eval a)]"

definition unmarshal_Alloc :: "item \<Rightarrow> goerr + Alloc" where
  "unmarshal_Alloc it =
     sbind (string_field it ''pool'') (\<lambda>p.
     sbind (string_field it ''alloc'') (\<lambda>a.
     sbind (int64_field it ''ttl'') (\<lambda>t.
     sbind (string_field it ''wrk'') (\<lambda>k.
     sbind (dec_field dec_Eval_ptr None it ''eval'') (\<lambda>e.
     Inr \<lparr>alloc_PoolID = p, alloc_AllocID = a, alloc_TTL = t, alloc_WorkerID = k, alloc_Eval = e\<rparr>)))))"

text \<open>The embedded key structs (\<open>worker.WorkerPK\<close>, \<open>replica.ReplicaPK\<close>, \<open>alloc.AllocPK\<close>).\<close>

definition Worker_PK :: "Worker \<Rightarrow> WorkerPK" where
  "Worker_PK wk = \<lparr>wrk_PoolID = wrk_PoolID wk, wrk_WorkerID = wrk_WorkerID wk\<rparr>"

definition Replica_PK :: "Replica \<Rightarrow> ReplicaPK" where
  "Replica_PK r = \<lparr>rpl_PoolID = rpl_PoolID r, rpl_ReplicaID = rpl_ReplicaID r\<rparr>"

definition Alloc_PK :: "Alloc \<Rightarrow> AllocPK" where
  "Alloc_PK a = \<lparr>alloc_PoolID = alloc_PoolID a, alloc_AllocID = alloc_AllocID a\<rparr>"

subsection \<open>The codec interface\<close>

text \<open>
  \<open>items_of dec its\<close> is the loop \<open>for item in out.Items: if err := UnmarshalMap(item, x) { log;
  continue }\<close> that \<open>FindReplicas\<close>, \<open>Schedule\<close> and the release passes share: the entities of the
  items that unmarshal, in order.
\<close>

fun items_of :: "(item \<Rightarrow> goerr + 'a) \<Rightarrow> item list \<Rightarrow> 'a list" where
  "items_of dec [] = []"
| "items_of dec (it # its) = (case dec it of Inl _ \<Rightarrow> items_of dec its | Inr x \<Rightarrow> x # items_of dec its)"

locale entity_codec =
  fixes enc :: "'a \<Rightarrow> item"
    and dec :: "item \<Rightarrow> goerr + 'a"
  assumes dec_enc: "dec (enc x) = Inr x"
begin

lemma enc_inj: "enc x = enc y \<Longrightarrow> x = y"
  by (metis dec_enc sum.inject(2))

lemma items_of_enc: "items_of dec (map enc xs) = xs"
  by (induction xs) (simp_all add: dec_enc)

lemma items_of_append_enc: "items_of dec (its @ map enc xs) = items_of dec its @ xs"
  by (induction its) (simp_all add: items_of_enc split: sum.split)

end

lemmas marshal_defs =
  marshal_Eval_def eval_item_def enc_Eval_ptr_def marshal_PoolPK_def marshal_Pool_def marshal_WorkerPK_def
  marshal_Worker_def marshal_ReplicaPK_def marshal_Replica_def marshal_AllocPK_def marshal_Alloc_def

lemmas unmarshal_defs =
  dec_field_def unmarshal_Eval_def unmarshal_Pool_def unmarshal_Worker_def unmarshal_Replica_def
  unmarshal_Alloc_def

lemma key_attr_simps [simp]:
  "marshal_PoolPK pk ''pool'' = Some (enc_string (pool_PoolID pk))"
  "marshal_Pool p ''pool'' = Some (enc_string (pool_PoolID p))"
  "marshal_WorkerPK wpk ''pool'' = Some (enc_string (wrk_PoolID wpk))"
  "marshal_WorkerPK wpk ''wrk'' = Some (enc_string (wrk_WorkerID wpk))"
  "marshal_Worker wk ''pool'' = Some (enc_string (wrk_PoolID wk))"
  "marshal_Worker wk ''wrk'' = Some (enc_string (wrk_WorkerID wk))"
  "marshal_ReplicaPK rpk ''pool'' = Some (enc_string (rpl_PoolID rpk))"
  "marshal_ReplicaPK rpk ''rpl'' = Some (enc_string (rpl_ReplicaID rpk))"
  "marshal_Replica r ''pool'' = Some (enc_string (rpl_PoolID r))"
  "marshal_Replica r ''rpl'' = Some (enc_string (rpl_ReplicaID r))"
  "marshal_AllocPK apk ''pool'' = Some (enc_string (alloc_PoolID apk))"
  "marshal_AllocPK apk ''alloc'' = Some (enc_string (alloc_AllocID apk))"
  "marshal_Alloc a ''pool'' = Some (enc_string (alloc_PoolID a))"
  "marshal_Alloc a ''alloc'' = Some (enc_string (alloc_AllocID a))"
  by (simp_all add: marshal_defs)

lemma unmarshal_eval_item: "unmarshal_Eval (eval_item e) = Inr e"
  by (simp add: unmarshal_defs marshal_defs)

lemma dec_enc_Eval_ptr [simp]: "dec_Eval_ptr (enc_Eval_ptr p) = Inr p"
  using unmarshal_eval_item by (auto simp: enc_Eval_ptr_def eval_item_def split: option.split)

interpretation eval_codec: entity_codec eval_item unmarshal_Eval
  by unfold_locales (rule unmarshal_eval_item)

interpretation pool_codec: entity_codec marshal_Pool unmarshal_Pool
  by unfold_locales (simp add: unmarshal_defs marshal_Pool_def)

interpretation worker_codec: entity_codec marshal_Worker unmarshal_Worker
  by unfold_locales (simp add: unmarshal_defs marshal_Worker_def)

interpretation replica_codec: entity_codec marshal_Replica unmarshal_Replica
  by unfold_locales (simp add: unmarshal_defs marshal_Replica_def)

interpretation alloc_codec: entity_codec marshal_Alloc unmarshal_Alloc
  by unfold_locales (simp add: unmarshal_defs marshal_Alloc_def)

text \<open>
  What a projection keeps: an item that agrees with a marshalled alloc on the attributes of the
  \<open>ttl\<close> index (\<open>pool\<close>, \<open>alloc\<close>, \<open>ttl\<close>, \<open>wrk\<close>, \<open>eval\<close>) unmarshals to that alloc; one that holds
  the key attributes only unmarshals to a worker or a replica with the right key.
\<close>

lemma unmarshal_keys_Worker:
  assumes "it ''pool'' = Some (enc_string p)" and "it ''wrk'' = Some (enc_string k)"
    and "unmarshal_Worker it = Inr wk"
  shows "wrk_PoolID wk = p" and "wrk_WorkerID wk = k"
  using assms by (auto simp: unmarshal_defs sbind_Inr_iff split: option.splits)

lemma items_of_from: "x \<in> set (items_of dec its) \<Longrightarrow> \<exists>it \<in> set its. dec it = Inr x"
  by (induction its) (auto split: sum.splits)

lemmas unmarshal_marshal =
  eval_codec.dec_enc pool_codec.dec_enc worker_codec.dec_enc replica_codec.dec_enc alloc_codec.dec_enc

end
