(* ===== verification/Backend.thy ===== *)
theory Backend
  imports Entities
begin

section \<open>What the program relies on: the laws of the backend\<close>

text \<open>
  The documented behaviour of DynamoDB and SQS that the code relies on, as locales over the
  \<open>services\<close> parameter. A world is observed through \<open>view\<close>, which shows the tables (items by
  primary key), the queues (multisets of bodies) and the message each receipt handle stands for. A write is atomic: it is applied or it is
  not, a conditional check failure means the condition was false and nothing was written, and any
  other error leaves open whether the write was applied. Other actors may change the tables and
  queues between two calls: \<open>rely\<close> says how. In \<open>backend\<close> reads may return anything.
  \<open>item_backend\<close> adds that a read of one item shows what is stored (\<open>ConsistentRead\<close>, which the code
  does not ask for), \<open>fresh_backend\<close> that queries do too, which DynamoDB promises for no global index.
  \<open>seq_backend\<close>, \<open>seq_item_backend\<close> and \<open>seq_fresh_backend\<close> are the same three when nobody else acts.

  The key schema and the index projections are those of \<open>infra/dynamodb.tf\<close>.
\<close>

subsection \<open>The observed store\<close>

type_synonym key = "attr option list"

record store =
  tables :: "string \<Rightarrow> key \<Rightarrow> item option"
  queues :: "string \<Rightarrow> body multiset option"
  handles :: "string \<Rightarrow> body option"

text \<open>The \<open>hash_key\<close> and \<open>range_key\<close> of each table.\<close>

definition key_attrs :: "Conf \<Rightarrow> string \<Rightarrow> string list" where
  "key_attrs conf t =
     (if t = PoolsTableName conf then [''pool'']
      else if t = ReplicasTableName conf then [''pool'', ''rpl'']
      else if t = WorkersTableName conf then [''pool'', ''wrk'']
      else [''pool'', ''alloc''])"

definition key_of :: "Conf \<Rightarrow> string \<Rightarrow> item \<Rightarrow> key" where
  "key_of conf t it = map it (key_attrs conf t)"

text \<open>The attributes an index projects; a query on the base table returns all.\<close>

definition projected :: "Conf \<Rightarrow> string \<Rightarrow> string option \<Rightarrow> item \<Rightarrow> item" where
  "projected conf t idx it = (case idx of
     None \<Rightarrow> it
   | Some i \<Rightarrow>
      (if t = ReplicasTableName conf then it |` {''pool'', ''rpl'', ''ttl''}
       else if t = WorkersTableName conf then
         (if i = WorkersCapIdxName conf then it |` {''pool'', ''wrk'', ''cap'', ''ttl''}
          else it |` {''pool'', ''wrk'', ''ttl''})
       else it |` {''pool'', ''alloc'', ''ttl'', ''wrk'', ''eval''}))"

definition tables_distinct :: "Conf \<Rightarrow> bool" where
  "tables_distinct conf \<longleftrightarrow>
     distinct [PoolsTableName conf, ReplicasTableName conf, WorkersTableName conf, AllocsTableName conf]"

subsection \<open>Expressions evaluated on items\<close>

fun cond_holds :: "cond \<Rightarrow> item option \<Rightarrow> bool" where
  "cond_holds (Attribute_exists a) None = False"
| "cond_holds (Attribute_exists a) (Some it) = (it a \<noteq> None)"
| "cond_holds (Attribute_not_exists a) None = True"
| "cond_holds (Attribute_not_exists a) (Some it) = (it a = None)"
| "cond_holds (Attr_ge a v) None = False"
| "cond_holds (Attr_ge a v) (Some it) =
     (case (it a, v) of (Some (AN c), AN n) \<Rightarrow> n \<le> c | _ \<Rightarrow> False)"

definition cond_ok :: "cond option \<Rightarrow> item option \<Rightarrow> bool" where
  "cond_ok c cur = (case c of None \<Rightarrow> True | Some c' \<Rightarrow> cond_holds c' cur)"

lemma cond_holds_iff:
  "cond_holds (Attribute_exists a) cur \<longleftrightarrow> (\<exists>it x. cur = Some it \<and> it a = Some x)"
  "cond_holds (Attribute_not_exists a) cur \<longleftrightarrow> (\<forall>it. cur = Some it \<longrightarrow> it a = None)"
  "cond_holds (Attr_ge a v) cur \<longleftrightarrow>
     (\<exists>it c n. cur = Some it \<and> it a = Some (AN c) \<and> v = AN n \<and> n \<le> c)"
  by (cases cur; cases v; auto split: option.splits attr.splits)+

text \<open>
  An update of a missing item starts from its key. Arithmetic on an attribute that is missing or
  no number is a validation error: \<open>None\<close>.
\<close>

definition num_upd :: "(int \<Rightarrow> int \<Rightarrow> int) \<Rightarrow> item \<Rightarrow> string \<Rightarrow> attr \<Rightarrow> item option" where
  "num_upd f it a v = (case (it a, v) of
     (Some (AN c), AN n) \<Rightarrow> Some (it(a \<mapsto> AN (f c n))) | _ \<Rightarrow> None)"

fun apply_upd :: "upd \<Rightarrow> item \<Rightarrow> item option" where
  "apply_upd (Set_to a v) it = Some (it(a \<mapsto> v))"
| "apply_upd (Set_minus a v) it = num_upd (-) it a v"
| "apply_upd (Set_plus a v) it = num_upd (+) it a v"

fun range_holds :: "range_cond \<Rightarrow> item \<Rightarrow> bool" where
  "range_holds (Range_ge a v) it =
     (case (it a, v) of (Some (AN c), AN n) \<Rightarrow> n \<le> c | _ \<Rightarrow> False)"
| "range_holds (Range_lt a v) it =
     (case (it a, v) of (Some (AN c), AN n) \<Rightarrow> c < n | _ \<Rightarrow> False)"
| "range_holds (Range_begins_with a v) it =
     (case (it a, v) of (Some (AS s), AS p) \<Rightarrow> take (length p) s = p | _ \<Rightarrow> False)"

definition query_matches :: "query \<Rightarrow> item \<Rightarrow> bool" where
  "query_matches q it \<longleftrightarrow> it (fst (q_hash q)) = Some (snd (q_hash q)) \<and> range_holds (q_range q) it"

subsection \<open>The effects of the writes\<close>

definition set_item :: "string \<Rightarrow> key \<Rightarrow> item option \<Rightarrow> store \<Rightarrow> store" where
  "set_item t k x v = v\<lparr>tables := (tables v)(t := (tables v t)(k := x))\<rparr>"

definition set_queue :: "string \<Rightarrow> body multiset option \<Rightarrow> store \<Rightarrow> store" where
  "set_queue url x v = v\<lparr>queues := (queues v)(url := x)\<rparr>"

definition put_eff :: "Conf \<Rightarrow> string \<Rightarrow> item \<Rightarrow> store \<Rightarrow> store option" where
  "put_eff conf t it v = Some (set_item t (key_of conf t it) (Some it) v)"

definition upd_eff :: "Conf \<Rightarrow> string \<Rightarrow> item \<Rightarrow> upd \<Rightarrow> store \<Rightarrow> store option" where
  "upd_eff conf t k u v =
     (let key = key_of conf t k;
          base = (case tables v t key of None \<Rightarrow> k | Some it \<Rightarrow> it)
      in map_option (\<lambda>it'. set_item t key (Some it') v) (apply_upd u base))"

definition del_eff :: "Conf \<Rightarrow> string \<Rightarrow> item \<Rightarrow> store \<Rightarrow> store option" where
  "del_eff conf t k v = Some (set_item t (key_of conf t k) None v)"

text \<open>
  The result \<open>r\<close> of a write with condition \<open>c\<close> on the item at \<open>k\<close> and effect \<open>eff\<close>, between the
  stores \<open>v\<close> and \<open>v'\<close>.
\<close>

definition write_post ::
  "string \<Rightarrow> key \<Rightarrow> cond option \<Rightarrow> (store \<Rightarrow> store option) \<Rightarrow> store \<Rightarrow> store \<Rightarrow> goerr option \<Rightarrow> bool" where
  "write_post t k c eff v v' r = (case r of
     None \<Rightarrow> cond_ok c (tables v t k) \<and> eff v = Some v'
   | Some e \<Rightarrow>
      (if aws_code e = Some ErrCodeConditionalCheckFailedException
       then \<not> cond_ok c (tables v t k) \<and> v' = v
       else v' = v \<or> cond_ok c (tables v t k) \<and> eff v = Some v'))"

definition send_eff :: "string \<Rightarrow> body \<Rightarrow> store \<Rightarrow> store option" where
  "send_eff url b v = map_option (\<lambda>m. set_queue url (Some (add_mset b m)) v) (queues v url)"

definition send_post :: "string \<Rightarrow> body \<Rightarrow> store \<Rightarrow> store \<Rightarrow> goerr option \<Rightarrow> bool" where
  "send_post url b v v' r = (case r of
     None \<Rightarrow> send_eff url b v = Some v'
   | Some e \<Rightarrow>
      (if aws_code e = Some ErrCodeQueueDoesNotExist then queues v url = None \<and> v' = v
       else v' = v \<or> send_eff url b v = Some v'))"

definition create_queue :: "string \<Rightarrow> store \<Rightarrow> store" where
  "create_queue url v = (case queues v url of None \<Rightarrow> set_queue url (Some {#}) v | Some _ \<Rightarrow> v)"

definition remove_message :: "string \<Rightarrow> string \<Rightarrow> store \<Rightarrow> store" where
  "remove_message url h v = (case handles v h of
     None \<Rightarrow> v
   | Some b \<Rightarrow> set_queue url (map_option (\<lambda>m. m - {#b#}) (queues v url)) v)"

lemmas store_defs = set_item_def set_queue_def
lemmas eff_defs = put_eff_def upd_eff_def del_eff_def send_eff_def create_queue_def remove_message_def

lemma tables_set_item [simp]:
  "tables (set_item t k x v) = (tables v)(t := (tables v t)(k := x))"
  "queues (set_item t k x v) = queues v"
  "handles (set_item t k x v) = handles v"
  by (simp_all add: set_item_def)

lemma queues_set_queue [simp]:
  "queues (set_queue url x v) = (queues v)(url := x)"
  "tables (set_queue url x v) = tables v"
  "handles (set_queue url x v) = handles v"
  by (simp_all add: set_queue_def)

lemma tables_queue_effs [simp]:
  "tables (create_queue url v) = tables v"
  "tables (remove_message url h v) = tables v"
  by (simp_all add: create_queue_def remove_message_def split: option.split)

lemma tables_send_eff: "send_eff url b v = Some v' \<Longrightarrow> tables v' = tables v"
  by (auto simp: send_eff_def)

text \<open>The effect of a write, applied or refused: what an invariant of the store has to survive.\<close>

lemma write_postD:
  "write_post t k c eff v v' r \<Longrightarrow> v' = v \<or> cond_ok c (tables v t k) \<and> eff v = Some v'"
  by (auto simp: write_post_def split: option.splits if_splits)

lemma send_postD: "send_post url b v v' r \<Longrightarrow> v' = v \<or> send_eff url b v = Some v'"
  by (auto simp: send_post_def split: option.splits if_splits)

subsection \<open>The laws\<close>

locale backend =
  fixes svc :: "'w services"
    and conf :: Conf
    and view :: "'w \<Rightarrow> store"
    and rely :: "store \<Rightarrow> store \<Rightarrow> bool"
  assumes conf_tables: "tables_distinct conf"
    and rely_refl: "rely v v"
    and stored_by_key: "tables (view w) t k = Some it \<Longrightarrow> key_of conf t it = k"
    and put: "db_PutItem svc t it c w = (w', r) \<Longrightarrow>
      \<exists>v. rely (view w) v \<and> write_post t (key_of conf t it) c (put_eff conf t it) v (view w') r"
    and update: "db_UpdateItem svc t ki u c w = (w', r) \<Longrightarrow>
      \<exists>v. rely (view w) v \<and> write_post t (key_of conf t ki) c (upd_eff conf t ki u) v (view w') r"
    and delete: "db_DeleteItem svc t ki c w = (w', r) \<Longrightarrow>
      \<exists>v. rely (view w) v \<and> write_post t (key_of conf t ki) c (del_eff conf t ki) v (view w') r"
    and get: "db_GetItem svc t ki w = (w', r') \<Longrightarrow> rely (view w) (view w')"
    and query: "db_Query svc q w = (w', rq) \<Longrightarrow> rely (view w) (view w')"
    and scan: "db_ScanPage svc t start w = (w', rs) \<Longrightarrow> rely (view w) (view w')"
    and create: "sqs_CreateQueue svc qn w = (w', rc) \<Longrightarrow>
      \<exists>v. rely (view w) v \<and> (case rc of
        Inr url \<Rightarrow> view w' = create_queue url v
      | Inl e \<Rightarrow> \<exists>url. view w' = v \<or> view w' = create_queue url v)"
    and remove: "sqs_DeleteQueue svc url w = (w', r) \<Longrightarrow>
      \<exists>v. rely (view w) v \<and> (case r of
        None \<Rightarrow> queues v url \<noteq> None \<and> view w' = set_queue url None v
      | Some e \<Rightarrow> view w' = v \<or> view w' = set_queue url None v)"
    and send: "sqs_SendMessage svc url b w = (w', r) \<Longrightarrow>
      \<exists>v. rely (view w) v \<and> send_post url b v (view w') r"
    and receive: "sqs_ReceiveMessage svc url vis wait nm w = (w', rm) \<Longrightarrow>
      \<exists>v hs. rely (view w) v \<and> view w' = v\<lparr>handles := hs\<rparr>"
    and ack: "sqs_DeleteMessage svc url h w = (w', r) \<Longrightarrow>
      \<exists>v. rely (view w) v \<and> (case r of
        None \<Rightarrow> view w' = remove_message url h v
      | Some e \<Rightarrow> view w' = v \<or> view w' = remove_message url h v)"
    and now: "time_Now_Unix svc w = (w', i) \<Longrightarrow> rely (view w) (view w')"
    and rand: "rand_Read svc nb w = (w', rr) \<Longrightarrow> rely (view w) (view w')"

text \<open>A read of an item shows what is stored at the time of the read.\<close>

locale item_backend = backend +
  assumes get_fresh: "db_GetItem svc t ki w = (w', Inr x) \<Longrightarrow> x = tables (view w') t (key_of conf t ki)"

text \<open>A query shows what is stored, each item once.\<close>

locale fresh_backend = item_backend +
  assumes query_fresh: "db_Query svc q w = (w', Inr its) \<Longrightarrow> it \<in> set its \<Longrightarrow>
      \<exists>k it0. tables (view w') (q_TableName q) k = Some it0 \<and> query_matches q it0 \<and>
        it = projected conf (q_TableName q) (q_IndexName q) it0"
    and query_distinct: "db_Query svc q w = (w', Inr its) \<Longrightarrow> distinct (map (key_of conf (q_TableName q)) its)"
    and query_limit: "db_Query svc q w = (w', Inr its) \<Longrightarrow> q_Limit q = Some lim \<Longrightarrow> length its \<le> lim"
    and receive_fresh: "sqs_ReceiveMessage svc url vis wait nm w = (w', Inr ms) \<Longrightarrow> msg \<in> set ms \<Longrightarrow>
      \<exists>qm. queues (view w') url = Some qm \<and> msg_Body msg \<in># qm \<and>
        handles (view w') (msg_ReceiptHandle msg) = Some (msg_Body msg)"

text \<open>Nobody else acts: every call starts from the store the call before it left.\<close>

locale seq_backend = backend svc conf view "(=)"
  for svc :: "'w services" and conf view

locale seq_item_backend = item_backend svc conf view "(=)"
  for svc :: "'w services" and conf view

locale seq_fresh_backend = fresh_backend svc conf view "(=)"
  for svc :: "'w services" and conf view

sublocale seq_item_backend \<subseteq> seq_backend
  by unfold_locales

sublocale seq_fresh_backend \<subseteq> seq_item_backend
  by unfold_locales

context fresh_backend
begin

lemma fresh_conf_tables: "tables_distinct conf"
  by (rule conf_tables)

end

context seq_backend
begin

lemma is_backend: "backend svc conf view (=)"
  by (rule backend_axioms)

end

context seq_item_backend
begin

lemma is_seq: "seq_backend svc conf view"
  by (rule seq_backend_axioms)

end

context seq_fresh_backend
begin

lemma is_fresh: "fresh_backend svc conf view (=)"
  by (rule fresh_backend_axioms)

lemma is_item: "seq_item_backend svc conf view"
  by (rule seq_item_backend_axioms)

end

subsection \<open>Rules for the calls\<close>

text \<open>
  An invariant of the store that the other actors keep and that the write's effect keeps is kept
  by the call, whether it succeeds or not.
\<close>

definition stable :: "(store \<Rightarrow> bool) \<Rightarrow> (store \<Rightarrow> store \<Rightarrow> bool) \<Rightarrow> bool" where
  "stable J R \<longleftrightarrow> (\<forall>v v'. J v \<longrightarrow> R v v' \<longrightarrow> J v')"

lemma stableD: "stable J R \<Longrightarrow> J v \<Longrightarrow> R v v' \<Longrightarrow> J v'"
  by (auto simp: stable_def)

lemma stable_eq [simp]: "stable J (=)"
  by (simp add: stable_def)

context backend
begin

abbreviation (input) holds :: "(store \<Rightarrow> bool) \<Rightarrow> 'w \<Rightarrow> bool" where
  "holds J \<equiv> \<lambda>w. J (view w)"

lemma keeps_put:
  assumes "stable J rely"
    and "\<And>v v'. J v \<Longrightarrow> cond_ok c (tables v t (key_of conf t it)) \<Longrightarrow> put_eff conf t it v = Some v' \<Longrightarrow> J v'"
  shows "keeps (holds J) (call0 (db_PutItem svc t it c))"
  using put assms by (intro keeps_call0) (metis stableD write_postD)

lemma keeps_update:
  assumes "stable J rely"
    and "\<And>v v'. J v \<Longrightarrow> cond_ok c (tables v t (key_of conf t k)) \<Longrightarrow> upd_eff conf t k u v = Some v' \<Longrightarrow> J v'"
  shows "keeps (holds J) (call0 (db_UpdateItem svc t k u c))"
  using update assms by (intro keeps_call0) (metis stableD write_postD)

lemma keeps_delete:
  assumes "stable J rely"
    and "\<And>v v'. J v \<Longrightarrow> cond_ok c (tables v t (key_of conf t k)) \<Longrightarrow> del_eff conf t k v = Some v' \<Longrightarrow> J v'"
  shows "keeps (holds J) (call0 (db_DeleteItem svc t k c))"
  using delete assms by (intro keeps_call0) (metis stableD write_postD)

lemma keeps_send:
  assumes "stable J rely"
    and "\<And>v v'. J v \<Longrightarrow> send_eff url b v = Some v' \<Longrightarrow> J v'"
  shows "keeps (holds J) (call0 (sqs_SendMessage svc url b))"
  using send assms by (intro keeps_call0) (metis stableD send_postD)

lemma keeps_create:
  assumes "stable J rely" and "\<And>v url. J v \<Longrightarrow> J (create_queue url v)"
  shows "keeps (holds J) (call (sqs_CreateQueue svc n))"
proof (rule keeps_call)
  fix w w' r
  assume "J (view w)" "sqs_CreateQueue svc n w = (w', r)"
  with create obtain v where "rely (view w) v" and v: "case r of
      Inr url \<Rightarrow> view w' = create_queue url v
    | Inl e \<Rightarrow> \<exists>url. view w' = v \<or> view w' = create_queue url v"
    by blast
  with \<open>J (view w)\<close> assms have "J v" by (blast dest: stableD)
  with v assms show "J (view w')" by (auto split: sum.splits)
qed

lemma keeps_remove:
  assumes "stable J rely" and "\<And>v. J v \<Longrightarrow> J (set_queue url None v)"
  shows "keeps (holds J) (call0 (sqs_DeleteQueue svc url))"
proof (rule keeps_call0)
  fix w w' r
  assume "J (view w)" "sqs_DeleteQueue svc url w = (w', r)"
  with remove obtain v where "rely (view w) v" and v: "case r of
      None \<Rightarrow> queues v url \<noteq> None \<and> view w' = set_queue url None v
    | Some e \<Rightarrow> view w' = v \<or> view w' = set_queue url None v"
    by blast
  with \<open>J (view w)\<close> assms have "J v" by (blast dest: stableD)
  with v assms show "J (view w')" by (auto split: option.splits)
qed

lemma keeps_ack:
  assumes "stable J rely" and "\<And>v. J v \<Longrightarrow> J (remove_message url h v)"
  shows "keeps (holds J) (call0 (sqs_DeleteMessage svc url h))"
proof (rule keeps_call0)
  fix w w' r
  assume "J (view w)" "sqs_DeleteMessage svc url h w = (w', r)"
  with ack obtain v where "rely (view w) v" and v: "case r of
      None \<Rightarrow> view w' = remove_message url h v
    | Some e \<Rightarrow> view w' = v \<or> view w' = remove_message url h v"
    by blast
  with \<open>J (view w)\<close> assms have "J v" by (blast dest: stableD)
  with v assms show "J (view w')" by (auto split: option.splits)
qed

lemma keeps_receive:
  assumes "stable J rely" and "\<And>v hs. J v \<Longrightarrow> J (v\<lparr>handles := hs\<rparr>)"
  shows "keeps (holds J) (call (sqs_ReceiveMessage svc url vis wait n))"
  using assms by (intro keeps_call) (metis receive stableD)

lemma keeps_reads_of_view:
  assumes "stable J rely"
  shows "keeps (holds J) (call (db_GetItem svc t k))"
    and "keeps (holds J) (call (db_Query svc q))"
    and "keeps (holds J) (call (db_ScanPage svc t s))"
    and "keeps (holds J) (reads (time_Now_Unix svc))"
    and "keeps (holds J) (call (rand_Read svc m))"
  using assms
  by (auto intro!: keeps_call keeps_reads dest: get query scan now rand stableD)

text \<open>The weakest preconditions of the writes, by their results.\<close>

lemma wp_call0I:
  assumes "\<And>w'. c w = (w', None) \<Longrightarrow> Q w' (Ret ())"
    and "\<And>w' e. c w = (w', Some e) \<Longrightarrow> Q w' (Fail e)"
  shows "wp (call0 c) Q w"
  using assms by (auto simp: wp_def call0_def split: prod.splits option.splits)

lemma wp_callI:
  assumes "\<And>w' x. c w = (w', Inr x) \<Longrightarrow> Q w' (Ret x)"
    and "\<And>w' e. c w = (w', Inl e) \<Longrightarrow> Q w' (Fail e)"
  shows "wp (call c) Q w"
  using assms by (auto simp: wp_def call_def split: prod.splits sum.splits)

lemma wp_readsI:
  assumes "\<And>w' x. c w = (w', x) \<Longrightarrow> Q w' (Ret x)"
  shows "wp (reads c) Q w"
  using assms by (auto simp: wp_def reads_def split: prod.splits)

end

end
