(* ===== verification/Scan.thy ===== *)
theory Scan
  imports Backend
begin

section \<open>Scanning a table page by page\<close>

text \<open>
  \<open>ScanPages\<close> of the AWS SDK, as the two periodic handlers use it: fetch a page, hand it to the
  callback, go on from the last evaluated key until there is none. The callbacks of the program
  always return true. Whether the iteration ends depends on the service, so the loop is a partial
  function; the locale \<open>finite_scan\<close> states the service's promise (every page moves forward in the
  key space, measured by \<open>rank\<close>) and proves that the iteration ends.
\<close>

text \<open>
  The callback's accumulator collects what a page leaves behind outside the world. The result is
  the world, the accumulator, and how the scan ended.
\<close>

partial_function (option) ScanPages ::
  "'w services \<Rightarrow> string \<Rightarrow> (item list \<Rightarrow> 'a \<Rightarrow> 'w \<Rightarrow> 'w \<times> 'a) \<Rightarrow> item option \<Rightarrow> 'a \<Rightarrow> 'w \<Rightarrow>
     ('w \<times> 'a \<times> goerr option) option" where
  "ScanPages svc t cb start acc w = (case db_ScanPage svc t start w of
     (w1, Inl e) \<Rightarrow> Some (w1, acc, Some e)
   | (w1, Inr (its, next)) \<Rightarrow>
      (case cb its acc w1 of (w2, acc') \<Rightarrow>
        (case next of None \<Rightarrow> Some (w2, acc', None) | Some k \<Rightarrow> ScanPages svc t cb (Some k) acc' w2)))"

locale finite_scan =
  fixes svc :: "'w services" and rank :: "item \<Rightarrow> nat"
  assumes forward: "db_ScanPage svc t (Some k) w = (w', Inr (its, Some k')) \<Longrightarrow> rank k' < rank k"
begin

lemma ScanPages_from_key: "ScanPages svc t cb (Some k) acc w \<noteq> None"
proof (induction "rank k" arbitrary: k acc w rule: less_induct)
  case less
  show ?case
    by (subst ScanPages.simps) (auto simp del: not_None_eq split: prod.split sum.split option.split dest: forward intro!: less)
qed

lemma ScanPages_ends: "ScanPages svc t cb start acc w \<noteq> None"
  by (subst ScanPages.simps) (auto simp del: not_None_eq split: prod.split sum.split option.split intro!: ScanPages_from_key)

end

text \<open>
  An invariant of world and accumulator that fetching a page and the callback keep holds when the
  scan ends, whether it ended with an error or not.
\<close>

lemma ScanPages_invariant:
  assumes ret: "ScanPages svc t cb start acc w = Some (w', acc', r)"
    and init: "I w acc"
    and fetch: "\<And>start w w' acc x. I w acc \<Longrightarrow> db_ScanPage svc t start w = (w', x) \<Longrightarrow> I w' acc"
    and page: "\<And>its acc w w' acc'. I w acc \<Longrightarrow> cb its acc w = (w', acc') \<Longrightarrow> I w' acc'"
  shows "I w' acc'"
proof -
  let ?P = "\<lambda>svc0 t0 cb0 start acc w res. svc0 = svc \<and> t0 = t \<and> cb0 = cb \<and> I w acc \<longrightarrow> I (fst res) (fst (snd res))"
  have "?P svc t cb start acc w (w', acc', r)"
  proof (rule ScanPages.raw_induct [where P = ?P, OF _ ret])
    fix f svc0 t0 cb0 start acc w res
    assume IH: "\<And>svc0 t0 cb0 start acc w res. f svc0 t0 cb0 start acc w = Some res \<Longrightarrow> ?P svc0 t0 cb0 start acc w res"
      and eq: "(case db_ScanPage svc0 t0 start w of
         (w1, Inl e) \<Rightarrow> Some (w1, acc, Some e)
       | (w1, Inr (its, next)) \<Rightarrow>
          (case cb0 its acc w1 of (w2, acc') \<Rightarrow>
            (case next of None \<Rightarrow> Some (w2, acc', None) | Some k \<Rightarrow> f svc0 t0 cb0 (Some k) acc' w2))) = Some res"
    show "?P svc0 t0 cb0 start acc w res"
    proof
      assume h: "svc0 = svc \<and> t0 = t \<and> cb0 = cb \<and> I w acc"
      obtain w1 x where page1: "db_ScanPage svc t start w = (w1, x)" by fastforce
      with h fetch have I1: "I w1 acc" by blast
      show "I (fst res) (fst (snd res))"
      proof (cases x)
        case (Inl e)
        with eq h page1 I1 show ?thesis by auto
      next
        case (Inr p)
        obtain its nxt where p: "p = (its, nxt)" by fastforce
        obtain w2 acc2 where c: "cb its acc w1 = (w2, acc2)" by fastforce
        with I1 page have I2: "I w2 acc2" by blast
        with eq h page1 Inr p c IH [of svc t cb _ acc2 w2 res] show ?thesis
          by (cases nxt) auto
      qed
    qed
  qed
  with init show ?thesis by simp
qed

text \<open>
  The pages of a scan as the service returns them: \<open>pages svc t start w w' its err\<close> when the scan
  from \<open>start\<close> fetches the items \<open>its\<close> and ends in \<open>w'\<close> with the error \<open>err\<close>, if any.
\<close>

inductive pages :: "'w services \<Rightarrow> string \<Rightarrow> item option \<Rightarrow> 'w \<Rightarrow> 'w \<Rightarrow> item list \<Rightarrow> goerr option \<Rightarrow> bool"
  for svc :: "'w services" and t :: string where
  page_error: "db_ScanPage svc t start w = (w1, Inl e) \<Longrightarrow> pages svc t start w w1 [] (Some e)"
| page_last: "db_ScanPage svc t start w = (w1, Inr (its, None)) \<Longrightarrow> pages svc t start w w1 its None"
| page_more: "db_ScanPage svc t start w = (w1, Inr (its, Some k)) \<Longrightarrow> pages svc t (Some k) w1 w2 its' err \<Longrightarrow>
    pages svc t start w w2 (its @ its') err"

inductive_cases pagesE: "pages svc t start w w' its err"

text \<open>A callback that only folds the items: the scan computes the fold over all the pages.\<close>

lemma pages_ScanPages:
  assumes "pages svc t start w w' its err" and "\<And>xs ys a. g (xs @ ys) a = g ys (g xs a)" and "\<And>a. g [] a = a"
  shows "ScanPages svc t (\<lambda>its acc w. (w, g its acc)) start acc w = Some (w', g its acc, err)"
  using assms(1)
proof (induction arbitrary: acc rule: pages.induct)
  case (page_more start w w1 its k w2 its' err)
  then show ?case by (subst ScanPages.simps) (simp add: assms(2))
qed (subst ScanPages.simps, simp add: assms(3))+

lemma ScanPages_pages:
  fixes svc :: "'w services" and g :: "item list \<Rightarrow> 'a \<Rightarrow> 'a"
  assumes "ScanPages svc t (\<lambda>its acc w. (w, g its acc)) start acc w = Some (w', acc', err)"
  shows "\<exists>its. pages svc t start w w' its err"
proof -
  let ?P = "\<lambda>svc0 t0 cb0 start (acc :: 'a) w (res :: 'w \<times> 'a \<times> goerr option). svc0 = svc \<and> t0 = t \<and> cb0 = (\<lambda>its acc (w :: 'w). (w, g its acc)) \<longrightarrow>
     (\<exists>its. pages svc t start w (fst res) its (snd (snd res)))"
  have "?P svc t (\<lambda>its acc w. (w, g its acc)) start acc w (w', acc', err)"
  proof (rule ScanPages.raw_induct [where P = ?P, OF _ assms])
    fix f svc0 t0 cb0 start acc w res
    assume IH: "\<And>svc0 t0 cb0 start acc w res. f svc0 t0 cb0 start acc w = Some res \<Longrightarrow> ?P svc0 t0 cb0 start acc w res"
      and eq: "(case db_ScanPage svc0 t0 start w of
         (w1, Inl e) \<Rightarrow> Some (w1, acc, Some e)
       | (w1, Inr (its, next)) \<Rightarrow>
          (case cb0 its acc w1 of (w2, acc') \<Rightarrow>
            (case next of None \<Rightarrow> Some (w2, acc', None) | Some k \<Rightarrow> f svc0 t0 cb0 (Some k) acc' w2))) = Some res"
    show "?P svc0 t0 cb0 start acc w res"
    proof
      assume h: "svc0 = svc \<and> t0 = t \<and> cb0 = (\<lambda>its acc w. (w, g its acc))"
      obtain w1 x where page1: "db_ScanPage svc t start w = (w1, x)" by fastforce
      show "\<exists>its. pages svc t start w (fst res) its (snd (snd res))"
      proof (cases x)
        case (Inl e)
        with page1 have "pages svc t start w w1 [] (Some e)" by (simp add: page_error)
        with Inl eq h page1 show ?thesis by auto
      next
        case (Inr p)
        obtain its nxt where p: "p = (its, nxt)" by fastforce
        show ?thesis
        proof (cases nxt)
          case None
          with page1 Inr p have "pages svc t start w w1 its None" by (simp add: page_last)
          with None eq h page1 Inr p show ?thesis by auto
        next
          case (Some k)
          with eq h page1 Inr p IH [of svc t cb0 "Some k" "g its acc" w1 res]
          obtain its' where "pages svc t (Some k) w1 (fst res) its' (snd (snd res))" by auto
          with page1 Inr p Some show ?thesis by (blast intro: page_more)
        qed
      qed
    qed
  qed
  then show ?thesis by simp
qed

end
