(* ===== verification/Payloads.thy ===== *)
theory Payloads
  imports Entities "HOL-Library.AList"
begin

section \<open>JSON payloads (\<open>line/client/payloads.go\<close>) and their codec\<close>

text \<open>
  The request, response and message structs with their \<open>json\<close> tags, and what \<open>encoding/json\<close>
  makes of them. A body is a JSON document; \<open>JSON_Text\<close> holds its text. The locale \<open>json_codec\<close> states what client, server and worker
  rely on, that decoding an encoded payload gives it back; it is interpreted for every payload.
\<close>

subsection \<open>Decoding a document into a struct\<close>

text \<open>
  The decoder takes the keys of an object in order, finds the field by its exact name or else by
  its name up to the case of letters, and ignores keys without a field. A null leaves a string or
  an integer as it is and empties a slice; a value of the wrong type or range is an error, which
  is reported after the rest is decoded. The callers drop the struct on error, so stopping at the
  first error gives the same result.
\<close>

definition lower_char :: "char \<Rightarrow> char" where
  "lower_char c = (let n = (of_char c :: nat) in if 65 \<le> n \<and> n \<le> 90 then char_of (n + 32) else c)"

definition EqualFold :: "string \<Rightarrow> string \<Rightarrow> bool" where
  "EqualFold a b \<longleftrightarrow> map lower_char a = map lower_char b"

definition find_field :: "string list \<Rightarrow> string \<Rightarrow> string option" where
  "find_field names k = (if k \<in> set names then Some k else find (\<lambda>n. EqualFold n k) names)"

definition JSONTypeError :: goerr where
  "JSONTypeError = OtherErr ''json: cannot unmarshal value''"

fun json_string :: "json \<Rightarrow> string \<Rightarrow> goerr + string" where
  "json_string (JStr s) old = Inr s"
| "json_string JNull old = Inr old"
| "json_string _ old = Inl JSONTypeError"

fun json_int64 :: "json \<Rightarrow> int64 \<Rightarrow> goerr + int64" where
  "json_int64 (JNum i) old = (if in_int64 i then Inr (word_of_int i) else Inl JSONTypeError)"
| "json_int64 JNull old = Inr old"
| "json_int64 _ old = Inl JSONTypeError"

fun json_strings :: "json list \<Rightarrow> goerr + string list" where
  "json_strings [] = Inr []"
| "json_strings (j # js) = sbind (json_string j []) (\<lambda>s. sbind (json_strings js) (\<lambda>ss. Inr (s # ss)))"

fun json_slice :: "json \<Rightarrow> goerr + string list" where
  "json_slice (JArr js) = json_strings js"
| "json_slice JNull = Inr []"
| "json_slice _ = Inl JSONTypeError"

text \<open>A field of type \<open>map[string]string\<close>, as an association list: the members of an object are added to the map, null empties it.\<close>

fun json_members :: "(string \<times> json) list \<Rightarrow> (string \<times> string) list \<Rightarrow> goerr + (string \<times> string) list" where
  "json_members [] old = Inr old"
| "json_members ((k, j) # kvs) old =
     sbind (json_string j []) (\<lambda>s. json_members kvs (AList.update k s old))"

fun json_map :: "json \<Rightarrow> (string \<times> string) list \<Rightarrow> goerr + (string \<times> string) list" where
  "json_map (JObj kvs) old = json_members kvs old"
| "json_map JNull old = Inr []"
| "json_map _ old = Inl JSONTypeError"

fun decode_fields ::
  "string list \<Rightarrow> (string \<Rightarrow> json \<Rightarrow> 's \<Rightarrow> goerr + 's) \<Rightarrow> (string \<times> json) list \<Rightarrow> 's \<Rightarrow> goerr + 's" where
  "decode_fields names set_f [] x = Inr x"
| "decode_fields names set_f ((k, j) # kvs) x = (case find_field names k of
     None \<Rightarrow> decode_fields names set_f kvs x
   | Some f \<Rightarrow> sbind (set_f f j x) (decode_fields names set_f kvs))"

fun decode_struct ::
  "string list \<Rightarrow> (string \<Rightarrow> json \<Rightarrow> 's \<Rightarrow> goerr + 's) \<Rightarrow> 's \<Rightarrow> json \<Rightarrow> goerr + 's" where
  "decode_struct names set_f zero (JObj kvs) = decode_fields names set_f kvs zero"
| "decode_struct names set_f zero JNull = Inr zero"
| "decode_struct names set_f zero _ = Inl JSONTypeError"

text \<open>\<open>json.Unmarshal\<close> and \<open>Decoder.Decode\<close> on a body.\<close>

definition json_Unmarshal :: "(json \<Rightarrow> goerr + 'a) \<Rightarrow> body \<Rightarrow> goerr + 'a" where
  "json_Unmarshal from_json b =
     (case b of None \<Rightarrow> Inl (OtherErr ''invalid JSON'') | Some j \<Rightarrow> from_json j)"

lemma json_int64_num [simp]: "json_int64 (JNum (sint i)) old = Inr i"
  by simp

lemma json_strings_map [simp]: "json_strings (map JStr xs) = Inr xs"
  by (induction xs) simp_all

definition enc_slice :: "string list \<Rightarrow> json" where
  "enc_slice xs = (if xs = [] then JNull else JArr (map JStr xs))"

lemma json_slice_enc [simp]: "json_slice (enc_slice xs) = Inr xs"
  by (simp add: enc_slice_def)

subsection \<open>The payload structs\<close>

type_synonym CreatePoolInput = unit
type_synonym DisbandPoolOutput = unit
type_synonym SendHeartbeatOutput = unit
type_synonym ScheduleEvalOutput = unit
type_synonym CompleteAllocOutput = unit

record CreatePoolOutput =
  cpo_PoolID :: string

record RegisterWorkerInput =
  rwi_PoolID :: string
  rwi_Capacity :: int64

record RegisterWorkerOutput =
  rwo_PoolID :: string
  rwo_WorkerID :: string
  rwo_QueueURL :: string
  rwo_Capacity :: int64

record DisbandPoolInput =
  dpi_PoolID :: string

record SendHeartbeatInput =
  shi_PoolID :: string
  shi_WorkerID :: string
  shi_Allocs :: "string list"
  shi_Datasets :: "string list"

record ScheduleEvalInput =
  sei_PoolID :: string
  sei_DatasetID :: string
  sei_Size :: int64

record client_Alloc =
  ca_PoolID :: string
  ca_AllocID :: string
  ca_WorkerID :: string

record CompleteAllocInput =
  cai_PoolID :: string
  cai_AllocID :: string

subsection \<open>Encoders and decoders\<close>

definition json_of_empty :: "unit \<Rightarrow> json" where
  "json_of_empty u = JObj []"

definition empty_of_json :: "json \<Rightarrow> goerr + unit" where
  "empty_of_json = decode_struct [] (\<lambda>f j x. Inr x) ()"

definition json_of_Eval :: "Eval \<Rightarrow> json" where
  "json_of_Eval e =
     JObj [(''Dataset'', JStr (Dataset e)), (''Size'', JNum (sint (Size e))), (''Retry'', JNum (sint (Retry e)))]"

definition Eval_of_json :: "json \<Rightarrow> goerr + Eval" where
  "Eval_of_json = decode_struct [''Dataset'', ''Size'', ''Retry'']
     (\<lambda>f j e.
        if f = ''Dataset'' then sbind (json_string j (Dataset e)) (\<lambda>s. Inr (e\<lparr>Dataset := s\<rparr>))
        else if f = ''Size'' then sbind (json_int64 j (Size e)) (\<lambda>i. Inr (e\<lparr>Size := i\<rparr>))
        else sbind (json_int64 j (Retry e)) (\<lambda>i. Inr (e\<lparr>Retry := i\<rparr>)))
     \<lparr>Dataset = [], Size = 0, Retry = 0\<rparr>"

definition json_of_CreatePoolOutput :: "CreatePoolOutput \<Rightarrow> json" where
  "json_of_CreatePoolOutput x = JObj [(''pool_id'', JStr (cpo_PoolID x))]"

definition CreatePoolOutput_of_json :: "json \<Rightarrow> goerr + CreatePoolOutput" where
  "CreatePoolOutput_of_json = decode_struct [''pool_id'']
     (\<lambda>f j x. sbind (json_string j (cpo_PoolID x)) (\<lambda>s. Inr (x\<lparr>cpo_PoolID := s\<rparr>)))
     \<lparr>cpo_PoolID = []\<rparr>"

definition json_of_RegisterWorkerInput :: "RegisterWorkerInput \<Rightarrow> json" where
  "json_of_RegisterWorkerInput x =
     JObj [(''pool_id'', JStr (rwi_PoolID x)), (''capacity'', JNum (sint (rwi_Capacity x)))]"

definition RegisterWorkerInput_of_json :: "json \<Rightarrow> goerr + RegisterWorkerInput" where
  "RegisterWorkerInput_of_json = decode_struct [''pool_id'', ''capacity'']
     (\<lambda>f j x.
        if f = ''pool_id'' then sbind (json_string j (rwi_PoolID x)) (\<lambda>s. Inr (x\<lparr>rwi_PoolID := s\<rparr>))
        else sbind (json_int64 j (rwi_Capacity x)) (\<lambda>i. Inr (x\<lparr>rwi_Capacity := i\<rparr>)))
     \<lparr>rwi_PoolID = [], rwi_Capacity = 0\<rparr>"

definition json_of_RegisterWorkerOutput :: "RegisterWorkerOutput \<Rightarrow> json" where
  "json_of_RegisterWorkerOutput x =
     JObj [(''pool_id'', JStr (rwo_PoolID x)), (''worker_id'', JStr (rwo_WorkerID x)),
       (''queue_url'', JStr (rwo_QueueURL x)), (''capacity'', JNum (sint (rwo_Capacity x)))]"

definition RegisterWorkerOutput_of_json :: "json \<Rightarrow> goerr + RegisterWorkerOutput" where
  "RegisterWorkerOutput_of_json = decode_struct [''pool_id'', ''worker_id'', ''queue_url'', ''capacity'']
     (\<lambda>f j x.
        if f = ''pool_id'' then sbind (json_string j (rwo_PoolID x)) (\<lambda>s. Inr (x\<lparr>rwo_PoolID := s\<rparr>))
        else if f = ''worker_id'' then sbind (json_string j (rwo_WorkerID x)) (\<lambda>s. Inr (x\<lparr>rwo_WorkerID := s\<rparr>))
        else if f = ''queue_url'' then sbind (json_string j (rwo_QueueURL x)) (\<lambda>s. Inr (x\<lparr>rwo_QueueURL := s\<rparr>))
        else sbind (json_int64 j (rwo_Capacity x)) (\<lambda>i. Inr (x\<lparr>rwo_Capacity := i\<rparr>)))
     \<lparr>rwo_PoolID = [], rwo_WorkerID = [], rwo_QueueURL = [], rwo_Capacity = 0\<rparr>"

definition json_of_DisbandPoolInput :: "DisbandPoolInput \<Rightarrow> json" where
  "json_of_DisbandPoolInput x = JObj [(''pool_id'', JStr (dpi_PoolID x))]"

definition DisbandPoolInput_of_json :: "json \<Rightarrow> goerr + DisbandPoolInput" where
  "DisbandPoolInput_of_json = decode_struct [''pool_id'']
     (\<lambda>f j x. sbind (json_string j (dpi_PoolID x)) (\<lambda>s. Inr (x\<lparr>dpi_PoolID := s\<rparr>)))
     \<lparr>dpi_PoolID = []\<rparr>"

definition json_of_SendHeartbeatInput :: "SendHeartbeatInput \<Rightarrow> json" where
  "json_of_SendHeartbeatInput x =
     JObj [(''pool_id'', JStr (shi_PoolID x)), (''worker_id'', JStr (shi_WorkerID x)),
       (''allocs'', enc_slice (shi_Allocs x)), (''datasets'', enc_slice (shi_Datasets x))]"

definition SendHeartbeatInput_of_json :: "json \<Rightarrow> goerr + SendHeartbeatInput" where
  "SendHeartbeatInput_of_json = decode_struct [''pool_id'', ''worker_id'', ''allocs'', ''datasets'']
     (\<lambda>f j x.
        if f = ''pool_id'' then sbind (json_string j (shi_PoolID x)) (\<lambda>s. Inr (x\<lparr>shi_PoolID := s\<rparr>))
        else if f = ''worker_id'' then sbind (json_string j (shi_WorkerID x)) (\<lambda>s. Inr (x\<lparr>shi_WorkerID := s\<rparr>))
        else if f = ''allocs'' then sbind (json_slice j) (\<lambda>ss. Inr (x\<lparr>shi_Allocs := ss\<rparr>))
        else sbind (json_slice j) (\<lambda>ss. Inr (x\<lparr>shi_Datasets := ss\<rparr>)))
     \<lparr>shi_PoolID = [], shi_WorkerID = [], shi_Allocs = [], shi_Datasets = []\<rparr>"

definition json_of_ScheduleEvalInput :: "ScheduleEvalInput \<Rightarrow> json" where
  "json_of_ScheduleEvalInput x =
     JObj [(''pool_id'', JStr (sei_PoolID x)), (''dataset_id'', JStr (sei_DatasetID x)),
       (''size'', JNum (sint (sei_Size x)))]"

definition ScheduleEvalInput_of_json :: "json \<Rightarrow> goerr + ScheduleEvalInput" where
  "ScheduleEvalInput_of_json = decode_struct [''pool_id'', ''dataset_id'', ''size'']
     (\<lambda>f j x.
        if f = ''pool_id'' then sbind (json_string j (sei_PoolID x)) (\<lambda>s. Inr (x\<lparr>sei_PoolID := s\<rparr>))
        else if f = ''dataset_id'' then sbind (json_string j (sei_DatasetID x)) (\<lambda>s. Inr (x\<lparr>sei_DatasetID := s\<rparr>))
        else sbind (json_int64 j (sei_Size x)) (\<lambda>i. Inr (x\<lparr>sei_Size := i\<rparr>)))
     \<lparr>sei_PoolID = [], sei_DatasetID = [], sei_Size = 0\<rparr>"

definition json_of_client_Alloc :: "client_Alloc \<Rightarrow> json" where
  "json_of_client_Alloc x =
     JObj [(''pool_id'', JStr (ca_PoolID x)), (''alloc_id'', JStr (ca_AllocID x)),
       (''worker_id'', JStr (ca_WorkerID x))]"

definition client_Alloc_of_json :: "json \<Rightarrow> goerr + client_Alloc" where
  "client_Alloc_of_json = decode_struct [''pool_id'', ''alloc_id'', ''worker_id'']
     (\<lambda>f j x.
        if f = ''pool_id'' then sbind (json_string j (ca_PoolID x)) (\<lambda>s. Inr (x\<lparr>ca_PoolID := s\<rparr>))
        else if f = ''alloc_id'' then sbind (json_string j (ca_AllocID x)) (\<lambda>s. Inr (x\<lparr>ca_AllocID := s\<rparr>))
        else sbind (json_string j (ca_WorkerID x)) (\<lambda>s. Inr (x\<lparr>ca_WorkerID := s\<rparr>)))
     \<lparr>ca_PoolID = [], ca_AllocID = [], ca_WorkerID = []\<rparr>"

definition json_of_CompleteAllocInput :: "CompleteAllocInput \<Rightarrow> json" where
  "json_of_CompleteAllocInput x =
     JObj [(''pool_id'', JStr (cai_PoolID x)), (''alloc_id'', JStr (cai_AllocID x))]"

definition CompleteAllocInput_of_json :: "json \<Rightarrow> goerr + CompleteAllocInput" where
  "CompleteAllocInput_of_json = decode_struct [''pool_id'', ''alloc_id'']
     (\<lambda>f j x.
        if f = ''pool_id'' then sbind (json_string j (cai_PoolID x)) (\<lambda>s. Inr (x\<lparr>cai_PoolID := s\<rparr>))
        else sbind (json_string j (cai_AllocID x)) (\<lambda>s. Inr (x\<lparr>cai_AllocID := s\<rparr>)))
     \<lparr>cai_PoolID = [], cai_AllocID = []\<rparr>"

subsection \<open>The codec interface\<close>

fun decode_all :: "(json \<Rightarrow> goerr + 'a) \<Rightarrow> body list \<Rightarrow> goerr + 'a list" where
  "decode_all from_json [] = Inr []"
| "decode_all from_json (b # bs) =
     sbind (json_Unmarshal from_json b) (\<lambda>x. sbind (decode_all from_json bs) (\<lambda>xs. Inr (x # xs)))"

locale json_codec =
  fixes to_json :: "'a \<Rightarrow> json"
    and from_json :: "json \<Rightarrow> goerr + 'a"
  assumes from_to: "from_json (to_json x) = Inr x"
begin

lemma to_json_inj: "to_json x = to_json y \<Longrightarrow> x = y"
  by (metis from_to sum.inject(2))

lemma Unmarshal_to: "json_Unmarshal from_json (Some (to_json x)) = Inr x"
  by (simp add: json_Unmarshal_def from_to)

lemma decode_all_to: "decode_all from_json (map (\<lambda>x. Some (to_json x)) xs) = Inr xs"
  by (induction xs) (simp_all add: Unmarshal_to)

end

lemmas to_json_defs =
  json_of_empty_def json_of_Eval_def json_of_CreatePoolOutput_def json_of_RegisterWorkerInput_def
  json_of_RegisterWorkerOutput_def json_of_DisbandPoolInput_def json_of_SendHeartbeatInput_def
  json_of_ScheduleEvalInput_def json_of_client_Alloc_def json_of_CompleteAllocInput_def

lemmas of_json_defs =
  empty_of_json_def Eval_of_json_def CreatePoolOutput_of_json_def RegisterWorkerInput_of_json_def
  RegisterWorkerOutput_of_json_def DisbandPoolInput_of_json_def SendHeartbeatInput_of_json_def
  ScheduleEvalInput_of_json_def client_Alloc_of_json_def CompleteAllocInput_of_json_def

interpretation empty_json: json_codec json_of_empty empty_of_json
  by unfold_locales (simp add: to_json_defs of_json_defs)

interpretation Eval_json: json_codec json_of_Eval Eval_of_json
  by unfold_locales (simp add: to_json_defs of_json_defs find_field_def)

interpretation CreatePoolOutput_json: json_codec json_of_CreatePoolOutput CreatePoolOutput_of_json
  by unfold_locales (simp add: to_json_defs of_json_defs find_field_def)

interpretation RegisterWorkerInput_json: json_codec json_of_RegisterWorkerInput RegisterWorkerInput_of_json
  by unfold_locales (simp add: to_json_defs of_json_defs find_field_def)

interpretation RegisterWorkerOutput_json: json_codec json_of_RegisterWorkerOutput RegisterWorkerOutput_of_json
  by unfold_locales (simp add: to_json_defs of_json_defs find_field_def)

interpretation DisbandPoolInput_json: json_codec json_of_DisbandPoolInput DisbandPoolInput_of_json
  by unfold_locales (simp add: to_json_defs of_json_defs find_field_def)

interpretation SendHeartbeatInput_json: json_codec json_of_SendHeartbeatInput SendHeartbeatInput_of_json
  by unfold_locales (simp add: to_json_defs of_json_defs find_field_def)

interpretation ScheduleEvalInput_json: json_codec json_of_ScheduleEvalInput ScheduleEvalInput_of_json
  by unfold_locales (simp add: to_json_defs of_json_defs find_field_def)

interpretation client_Alloc_json: json_codec json_of_client_Alloc client_Alloc_of_json
  by unfold_locales (simp add: to_json_defs of_json_defs find_field_def)

interpretation CompleteAllocInput_json: json_codec json_of_CompleteAllocInput CompleteAllocInput_of_json
  by unfold_locales (simp add: to_json_defs of_json_defs find_field_def)

lemmas Unmarshal_json =
  empty_json.Unmarshal_to Eval_json.Unmarshal_to CreatePoolOutput_json.Unmarshal_to
  RegisterWorkerInput_json.Unmarshal_to RegisterWorkerOutput_json.Unmarshal_to DisbandPoolInput_json.Unmarshal_to
  SendHeartbeatInput_json.Unmarshal_to ScheduleEvalInput_json.Unmarshal_to client_Alloc_json.Unmarshal_to
  CompleteAllocInput_json.Unmarshal_to

end
