(* ===== verification/Naming.thy ===== *)
theory Naming
  imports Services
begin

section \<open>Names of queues and replicas (\<open>line/mux.go\<close>)\<close>

text \<open>
  The formatting functions that predict queue names and urls and combine dataset and worker into
  a replica id.
\<close>

definition FmtReplicaID :: "string \<Rightarrow> string \<Rightarrow> string" where
  "FmtReplicaID datasetID workerID = datasetID @ '':'' @ workerID"

definition FmtWorkerQueueName :: "Conf \<Rightarrow> string \<Rightarrow> string \<Rightarrow> string" where
  "FmtWorkerQueueName conf poolID workerID = Deployment conf @ ''-'' @ poolID @ ''-'' @ workerID"

definition FmtPoolQueueName :: "Conf \<Rightarrow> string \<Rightarrow> string" where
  "FmtPoolQueueName conf poolID = Deployment conf @ ''-'' @ poolID"

definition queue_url :: "Conf \<Rightarrow> string \<Rightarrow> string" where
  "queue_url conf name =
     ''https://sqs.'' @ AWSRegion conf @ ''.amazonaws.com/'' @ AWSAccountID conf @ ''/'' @ name"

definition FmtPoolQueueURL :: "Conf \<Rightarrow> string \<Rightarrow> string" where
  "FmtPoolQueueURL conf poolID = queue_url conf (FmtPoolQueueName conf poolID)"

definition FmtWorkerQueueURL :: "Conf \<Rightarrow> string \<Rightarrow> string \<Rightarrow> string" where
  "FmtWorkerQueueURL conf poolID workerID = queue_url conf (FmtWorkerQueueName conf poolID workerID)"

lemmas naming_defs =
  FmtReplicaID_def FmtWorkerQueueName_def FmtPoolQueueName_def queue_url_def FmtPoolQueueURL_def
  FmtWorkerQueueURL_def

lemma queue_url_inj [simp]: "queue_url conf a = queue_url conf b \<longleftrightarrow> a = b"
  by (simp add: queue_url_def)

text \<open>
  Splitting at the first separator: with no separator in the left parts, a joined name determines
  its parts.
\<close>

lemma append_sep_inj:
  assumes "c \<notin> set a" and "c \<notin> set b" and "a @ c # x = b @ c # y"
  shows "a = b \<and> x = y"
  using assms
proof (induction a arbitrary: b)
  case Nil
  then show ?case by (cases b) auto
next
  case (Cons d a)
  then obtain b' where "b = d # b'" by (cases b) auto
  with Cons show ?case by auto
qed

lemma hex_chars: "set (hex_EncodeToString bs) \<subseteq> set ''0123456789abcdef''"
proof (induction bs rule: hex_EncodeToString.induct)
  case (2 c cs)
  have d: "hex_digit n \<in> set ''0123456789abcdef''" if "n < 16" for n
    unfolding hex_digit_def using that by (intro nth_mem) simp
  have "of_char c < (256 :: nat)" by simp
  then have "of_char c div 16 < (16 :: nat)" "of_char c mod 16 < (16 :: nat)"
    by (simp_all add: less_mult_imp_div_less)
  with d 2 show ?case by simp
qed simp

lemma dash_notin_hex: "CHR ''-'' \<notin> set (hex_EncodeToString bs)"
  using hex_chars [of bs] by auto

end
