(* ===== verification/Table_Ops.thy ===== *)
theory Table_Ops
  imports Backend
begin

section \<open>Conditional writes on a table\<close>

text \<open>
  The shape that the four stores share: a write under a condition on a key attribute, whose
  conditional check failure is turned into a sentinel error of the store and whose other errors
  are wrapped. The lemmas give the weakest precondition of each such call for an arbitrary table,
  by what is stored under the key; the stores instantiate them.
\<close>

text \<open>
  \<open>aerr, ok := err.(awserr.Error); if !ok || aerr.Code() != ... { return errors.Wrap(err, msg) };
  return sentinel\<close>
\<close>

definition cond_failed_as :: "goerr \<Rightarrow> string \<Rightarrow> goerr \<Rightarrow> ('w, 'a) prog" where
  "cond_failed_as sentinel msg err =
     (if aws_code err \<noteq> Some ErrCodeConditionalCheckFailedException then fails (Wrapped err msg)
      else fails sentinel)"

lemma keeps_cond_failed [keeps_rules]: "keeps I (cond_failed_as s msg e)"
  by (simp add: cond_failed_as_def keeps_fails)

context backend
begin

text \<open>An item stored under the key of \<open>it\<close> agrees with \<open>it\<close> on the key attributes.\<close>

lemma stored_attr:
  assumes "tables (view w) t (key_of conf t it) = Some it0" and "a \<in> set (key_attrs conf t)"
  shows "it0 a = it a"
  using stored_by_key [OF assms(1)] assms(2) by (auto simp: key_of_def)

end

context seq_backend
begin

lemma wp_put_new:
  assumes a: "a \<in> set (key_attrs conf t)" "it a \<noteq> None"
    and "\<And>w'. tables (view w) t (key_of conf t it) = None \<Longrightarrow>
      view w' = set_item t (key_of conf t it) (Some it) (view w) \<Longrightarrow> Q w' (Ret ())"
    and "\<And>w' it0. tables (view w) t (key_of conf t it) = Some it0 \<Longrightarrow>
      view w' = view w \<Longrightarrow> Q w' (Fail sentinel)"
    and "\<And>w' e. view w' = view w \<Longrightarrow> Q w' (Fail (Wrapped e msg))"
    and "\<And>w' e. tables (view w) t (key_of conf t it) = None \<Longrightarrow>
      view w' = set_item t (key_of conf t it) (Some it) (view w) \<Longrightarrow> Q w' (Fail (Wrapped e msg))"
  shows "wp (on_err (call0 (db_PutItem svc t it (Some (Attribute_not_exists a)))) (cond_failed_as sentinel msg)) Q w"
proof -
  let ?cur = "tables (view w) t (key_of conf t it)"
  have cond: "cond_ok (Some (Attribute_not_exists a)) ?cur \<longleftrightarrow> ?cur = None"
    using a stored_attr [of w t it _ a] by (cases ?cur) (auto simp: cond_ok_def)
  show ?thesis
    unfolding wp_on_err using assms cond
    by (intro wp_call0I)
       (auto dest!: put simp: write_post_def put_eff_def cond_failed_as_def wp_fails split: if_splits)
qed

lemma wp_put_guarded:
  assumes cond: "cond_ok c (tables (view w) t (key_of conf t it))"
    and "\<And>w'. view w' = set_item t (key_of conf t it) (Some it) (view w) \<Longrightarrow> Q w' (Ret ())"
    and "\<And>w' e. view w' = view w \<Longrightarrow> Q w' (Fail (Wrapped e msg))"
    and "\<And>w' e. view w' = set_item t (key_of conf t it) (Some it) (view w) \<Longrightarrow> Q w' (Fail (Wrapped e msg))"
  shows "wp (on_err (call0 (db_PutItem svc t it c)) (cond_failed_as sentinel msg)) Q w"
  unfolding wp_on_err using assms
  by (intro wp_call0I)
     (auto dest!: put simp: write_post_def put_eff_def cond_failed_as_def wp_fails split: if_splits)

lemma wp_set_existing:
  assumes b: "b \<in> set (key_attrs conf t)" "k b \<noteq> None"
    and "\<And>w' it0. tables (view w) t (key_of conf t k) = Some it0 \<Longrightarrow>
      view w' = set_item t (key_of conf t k) (Some (it0(a \<mapsto> x))) (view w) \<Longrightarrow> Q w' (Ret ())"
    and "\<And>w'. tables (view w) t (key_of conf t k) = None \<Longrightarrow> view w' = view w \<Longrightarrow> Q w' (Fail sentinel)"
    and "\<And>w' e. view w' = view w \<Longrightarrow> Q w' (Fail (Wrapped e msg))"
    and "\<And>w' e it0. tables (view w) t (key_of conf t k) = Some it0 \<Longrightarrow>
      view w' = set_item t (key_of conf t k) (Some (it0(a \<mapsto> x))) (view w) \<Longrightarrow> Q w' (Fail (Wrapped e msg))"
  shows "wp (on_err (call0 (db_UpdateItem svc t k (Set_to a x) (Some (Attribute_exists b))))
    (cond_failed_as sentinel msg)) Q w"
proof -
  let ?cur = "tables (view w) t (key_of conf t k)"
  have cond: "cond_ok (Some (Attribute_exists b)) ?cur \<longleftrightarrow> ?cur \<noteq> None"
    using b stored_attr [of w t k _ b] by (cases ?cur) (auto simp: cond_ok_def)
  show ?thesis
    unfolding wp_on_err using assms(3-) cond
    by (intro wp_call0I)
       (auto dest!: update simp: write_post_def upd_eff_def Let_def cond_failed_as_def wp_fails split: if_splits)
qed

lemma wp_delete_existing:
  assumes b: "b \<in> set (key_attrs conf t)" "k b \<noteq> None"
    and "\<And>w' it0. tables (view w) t (key_of conf t k) = Some it0 \<Longrightarrow>
      view w' = set_item t (key_of conf t k) None (view w) \<Longrightarrow> Q w' (Ret ())"
    and "\<And>w'. tables (view w) t (key_of conf t k) = None \<Longrightarrow> view w' = view w \<Longrightarrow> Q w' (Fail sentinel)"
    and "\<And>w' e. view w' = view w \<Longrightarrow> Q w' (Fail (Wrapped e msg))"
    and "\<And>w' e. view w' = set_item t (key_of conf t k) None (view w) \<Longrightarrow> Q w' (Fail (Wrapped e msg))"
  shows "wp (on_err (call0 (db_DeleteItem svc t k (Some (Attribute_exists b)))) (cond_failed_as sentinel msg)) Q w"
proof -
  let ?cur = "tables (view w) t (key_of conf t k)"
  have cond: "cond_ok (Some (Attribute_exists b)) ?cur \<longleftrightarrow> ?cur \<noteq> None"
    using b stored_attr [of w t k _ b] by (cases ?cur) (auto simp: cond_ok_def)
  show ?thesis
    unfolding wp_on_err using assms(3-) cond
    by (intro wp_call0I)
       (auto dest!: delete simp: write_post_def del_eff_def cond_failed_as_def wp_fails split: if_splits)
qed

lemma wp_delete_any:
  assumes "\<And>w'. view w' = set_item t (key_of conf t k) None (view w) \<Longrightarrow> Q w' (Ret ())"
    and "\<And>w' e. view w' = view w \<Longrightarrow> Q w' (Fail e)"
    and "\<And>w' e. view w' = set_item t (key_of conf t k) None (view w) \<Longrightarrow> Q w' (Fail e)"
  shows "wp (call0 (db_DeleteItem svc t k None)) Q w"
  using assms
  by (intro wp_call0I)
     (auto dest!: delete simp: write_post_def del_eff_def cond_ok_def split: if_splits)

lemma wp_put_any:
  assumes "\<And>w'. view w' = set_item t (key_of conf t it) (Some it) (view w) \<Longrightarrow> Q w' (Ret ())"
    and "\<And>w' e. view w' = view w \<Longrightarrow> Q w' (Fail e)"
    and "\<And>w' e. view w' = set_item t (key_of conf t it) (Some it) (view w) \<Longrightarrow> Q w' (Fail e)"
  shows "wp (call0 (db_PutItem svc t it None)) Q w"
  using assms
  by (intro wp_call0I)
     (auto dest!: put simp: write_post_def put_eff_def cond_ok_def split: if_splits)

lemma wp_send:
  assumes "\<And>w' m. queues (view w) url = Some m \<Longrightarrow>
      view w' = set_queue url (Some (add_mset b m)) (view w) \<Longrightarrow> Q w' (Ret ())"
    and "\<And>w' e. aws_code e = Some ErrCodeQueueDoesNotExist \<Longrightarrow> queues (view w) url = None \<Longrightarrow>
      view w' = view w \<Longrightarrow> Q w' (Fail e)"
    and "\<And>w' e. aws_code e \<noteq> Some ErrCodeQueueDoesNotExist \<Longrightarrow> view w' = view w \<Longrightarrow> Q w' (Fail e)"
    and "\<And>w' e m. aws_code e \<noteq> Some ErrCodeQueueDoesNotExist \<Longrightarrow> queues (view w) url = Some m \<Longrightarrow>
      view w' = set_queue url (Some (add_mset b m)) (view w) \<Longrightarrow> Q w' (Fail e)"
  shows "wp (call0 (sqs_SendMessage svc url b)) Q w"
  using assms
  by (intro wp_call0I) (auto dest!: send simp: send_post_def send_eff_def split: if_splits)

lemma wp_now:
  assumes "\<And>w' i. view w' = view w \<Longrightarrow> time_Now_Unix svc w = (w', i) \<Longrightarrow> Q w' (Ret i)"
  shows "wp (reads (time_Now_Unix svc)) Q w"
  using assms by (intro wp_readsI) (auto dest: now)

lemma wp_rand:
  assumes "\<And>w' x. view w' = view w \<Longrightarrow> Q w' (Ret x)" and "\<And>w' e. view w' = view w \<Longrightarrow> Q w' (Fail e)"
  shows "wp (call (rand_Read svc n)) Q w"
  using assms by (intro wp_callI) (auto dest: rand)

lemma wp_query:
  assumes "\<And>w' its. view w' = view w \<Longrightarrow> db_Query svc q w = (w', Inr its) \<Longrightarrow> Q w' (Ret its)"
    and "\<And>w' e. view w' = view w \<Longrightarrow> Q w' (Fail e)"
  shows "wp (call (db_Query svc q)) Q w"
  using assms by (intro wp_callI) (auto dest: query)

end

context seq_item_backend
begin

lemma wp_get:
  assumes "\<And>w'. view w' = view w \<Longrightarrow> Q w' (Ret (tables (view w) t (key_of conf t k)))"
    and "\<And>w' e. view w' = view w \<Longrightarrow> Q w' (Fail e)"
  shows "wp (call (db_GetItem svc t k)) Q w"
proof (rule wp_callI)
  fix w' x
  assume c: "db_GetItem svc t k w = (w', Inr x)"
  then have "view w' = view w" by (auto dest: get)
  moreover from c have "x = tables (view w') t (key_of conf t k)" by (rule get_fresh)
  ultimately show "Q w' (Ret x)" using assms(1) by simp
qed (use assms(2) in \<open>auto dest: get\<close>)

end

subsection \<open>The four tables\<close>

text \<open>Distinct names give each table its own key schema.\<close>

lemma key_attrs_tables:
  assumes "tables_distinct conf"
  shows "key_attrs conf (PoolsTableName conf) = [''pool'']"
    and "key_attrs conf (ReplicasTableName conf) = [''pool'', ''rpl'']"
    and "key_attrs conf (WorkersTableName conf) = [''pool'', ''wrk'']"
    and "key_attrs conf (AllocsTableName conf) = [''pool'', ''alloc'']"
  using assms by (auto simp: key_attrs_def tables_distinct_def)

lemma tables_neq:
  assumes "tables_distinct conf"
  shows "PoolsTableName conf \<noteq> ReplicasTableName conf" "PoolsTableName conf \<noteq> WorkersTableName conf"
    "PoolsTableName conf \<noteq> AllocsTableName conf" "ReplicasTableName conf \<noteq> WorkersTableName conf"
    "ReplicasTableName conf \<noteq> AllocsTableName conf" "WorkersTableName conf \<noteq> AllocsTableName conf"
    "ReplicasTableName conf \<noteq> PoolsTableName conf" "WorkersTableName conf \<noteq> PoolsTableName conf"
    "AllocsTableName conf \<noteq> PoolsTableName conf" "WorkersTableName conf \<noteq> ReplicasTableName conf"
    "AllocsTableName conf \<noteq> ReplicasTableName conf" "AllocsTableName conf \<noteq> WorkersTableName conf"
  using assms by (auto simp: tables_distinct_def)

text \<open>The keys of the tables and the items stored under them.\<close>

definition pool_key :: "string \<Rightarrow> key" where
  "pool_key p = [Some (enc_string p)]"

definition sub_key :: "string \<Rightarrow> string \<Rightarrow> key" where
  "sub_key p x = [Some (enc_string p), Some (enc_string x)]"

lemma key_inj [simp]:
  "pool_key p = pool_key p' \<longleftrightarrow> p = p'"
  "sub_key p x = sub_key p' x' \<longleftrightarrow> p = p' \<and> x = x'"
  by (simp_all add: pool_key_def sub_key_def)

lemma key_of_tables:
  assumes "tables_distinct conf"
  shows "key_of conf (PoolsTableName conf) (marshal_PoolPK pk) = pool_key (pool_PoolID pk)"
    and "key_of conf (PoolsTableName conf) (marshal_Pool p) = pool_key (pool_PoolID p)"
    and "key_of conf (WorkersTableName conf) (marshal_WorkerPK wpk) = sub_key (wrk_PoolID wpk) (wrk_WorkerID wpk)"
    and "key_of conf (WorkersTableName conf) (marshal_Worker wk) = sub_key (wrk_PoolID wk) (wrk_WorkerID wk)"
    and "key_of conf (ReplicasTableName conf) (marshal_ReplicaPK rpk) = sub_key (rpl_PoolID rpk) (rpl_ReplicaID rpk)"
    and "key_of conf (ReplicasTableName conf) (marshal_Replica r) = sub_key (rpl_PoolID r) (rpl_ReplicaID r)"
    and "key_of conf (AllocsTableName conf) (marshal_AllocPK apk) = sub_key (alloc_PoolID apk) (alloc_AllocID apk)"
    and "key_of conf (AllocsTableName conf) (marshal_Alloc a) = sub_key (alloc_PoolID a) (alloc_AllocID a)"
  by (simp_all add: key_of_def key_attrs_tables [OF assms] marshal_defs pool_key_def sub_key_def)

abbreviation pool_at :: "Conf \<Rightarrow> store \<Rightarrow> string \<Rightarrow> item option" where
  "pool_at conf v p \<equiv> tables v (PoolsTableName conf) (pool_key p)"

abbreviation worker_at :: "Conf \<Rightarrow> store \<Rightarrow> string \<Rightarrow> string \<Rightarrow> item option" where
  "worker_at conf v p k \<equiv> tables v (WorkersTableName conf) (sub_key p k)"

abbreviation replica_at :: "Conf \<Rightarrow> store \<Rightarrow> string \<Rightarrow> string \<Rightarrow> item option" where
  "replica_at conf v p r \<equiv> tables v (ReplicasTableName conf) (sub_key p r)"

abbreviation alloc_at :: "Conf \<Rightarrow> store \<Rightarrow> string \<Rightarrow> string \<Rightarrow> item option" where
  "alloc_at conf v p a \<equiv> tables v (AllocsTableName conf) (sub_key p a)"

abbreviation set_pool :: "Conf \<Rightarrow> string \<Rightarrow> item option \<Rightarrow> store \<Rightarrow> store" where
  "set_pool conf p x v \<equiv> set_item (PoolsTableName conf) (pool_key p) x v"

abbreviation set_worker :: "Conf \<Rightarrow> string \<Rightarrow> string \<Rightarrow> item option \<Rightarrow> store \<Rightarrow> store" where
  "set_worker conf p k x v \<equiv> set_item (WorkersTableName conf) (sub_key p k) x v"

abbreviation set_replica :: "Conf \<Rightarrow> string \<Rightarrow> string \<Rightarrow> item option \<Rightarrow> store \<Rightarrow> store" where
  "set_replica conf p r x v \<equiv> set_item (ReplicasTableName conf) (sub_key p r) x v"

abbreviation set_alloc :: "Conf \<Rightarrow> string \<Rightarrow> string \<Rightarrow> item option \<Rightarrow> store \<Rightarrow> store" where
  "set_alloc conf p a x v \<equiv> set_item (AllocsTableName conf) (sub_key p a) x v"

context backend
begin

lemmas table_keys = key_attrs_tables [OF conf_tables]
lemmas key_of_entity = key_of_tables [OF conf_tables]
lemmas table_names = tables_neq [OF conf_tables]

end

end
