(* ===== verification/Pools.thy ===== *)
theory Pools
  imports Table_Ops
begin

section \<open>Pools (\<open>line/pool.go\<close>)\<close>

text \<open>
  The pool table: conditional insertion, the update of the ttl that marks a pool as disbanded,
  and the two reads. \<open>GetPool\<close> gives a non-nil pool or an error; \<open>GetActivePool\<close> has a third
  result, a nil pool with a nil error, because it wraps an error that is nil. Marshalling these
  structs cannot fail, so the branches for its errors have no counterpart.
\<close>

definition ErrPoolExists :: goerr where
  "ErrPoolExists = Errorf ''pool already exists''"

definition ErrPoolNotExists :: goerr where
  "ErrPoolNotExists = Errorf ''pool doesn't exist''"

definition PutNewPool :: "Conf \<Rightarrow> 'w services \<Rightarrow> Pool \<Rightarrow> ('w, unit) prog" where
  "PutNewPool conf svc pool =
     on_err (call0 (db_PutItem svc (PoolsTableName conf) (marshal_Pool pool)
               (Some (Attribute_not_exists ''pool''))))
       (cond_failed_as ErrPoolExists ''failed to put item'')"

definition UpdatePoolTTL :: "Conf \<Rightarrow> 'w services \<Rightarrow> int64 \<Rightarrow> PoolPK \<Rightarrow> ('w, unit) prog" where
  "UpdatePoolTTL conf svc ttl pk =
     on_err (call0 (db_UpdateItem svc (PoolsTableName conf) (marshal_PoolPK pk)
               (Set_to ''ttl'' (enc_int64 ttl)) (Some (Attribute_exists ''pool''))))
       (cond_failed_as ErrPoolNotExists ''failed to update item'')"

definition GetPool :: "Conf \<Rightarrow> 'w services \<Rightarrow> PoolPK \<Rightarrow> ('w, Pool) prog" where
  "GetPool conf svc pk =
     bnd (wrapping ''failed to get item''
            (call (db_GetItem svc (PoolsTableName conf) (marshal_PoolPK pk)))) (\<lambda>out.
     case out of
       None \<Rightarrow> fails ErrPoolNotExists
     | Some it \<Rightarrow> wrapping ''failed to unmarshal item'' (of_sum (unmarshal_Pool it)))"

text \<open>
  The results of \<open>GetActivePool\<close> are the pairs \<open>(*Pool, error)\<close>. On the disbanded branch
  \<open>err\<close> is the nil error of the successful \<open>GetPool\<close>.
\<close>

definition results :: "'a option \<times> goerr option \<Rightarrow> ('w, 'a option) prog" where
  "results r = (case r of (p, None) \<Rightarrow> ret p | (p, Some e) \<Rightarrow> fails e)"

definition GetActivePool :: "Conf \<Rightarrow> 'w services \<Rightarrow> PoolPK \<Rightarrow> ('w, Pool option) prog" where
  "GetActivePool conf svc pk =
     bnd (wrapping ''failed to get pool'' (GetPool conf svc pk)) (\<lambda>pool.
     let err = None in
     if 0 < sint (pool_TTL pool) then results (None, Wrap err ''pool has been disbanded'')
     else results (Some pool, None))"

subsection \<open>The branches of \<open>GetActivePool\<close>\<close>

lemma results_simps [simp]:
  "results (p, None) = ret p"
  "results (p, Some e) = fails e"
  by (simp_all add: results_def)

lemma keeps_results [keeps_rules]: "keeps I (results r)"
  by (auto simp: results_def keeps_ret keeps_fails split: prod.split option.split)

lemma GetActivePool_disbanded:
  assumes "GetPool conf svc pk w = (w', Ret pool)" and "0 < sint (pool_TTL pool)"
  shows "GetActivePool conf svc pk w = (w', Ret None)"
  using assms by (simp add: GetActivePool_def wrapping_def on_err_def bnd_def ret_def)

lemma GetActivePool_active:
  assumes "GetPool conf svc pk w = (w', Ret pool)" and "sint (pool_TTL pool) \<le> 0"
  shows "GetActivePool conf svc pk w = (w', Ret (Some pool))"
  using assms by (simp add: GetActivePool_def wrapping_def on_err_def bnd_def ret_def)

lemma GetActivePool_error:
  assumes "GetPool conf svc pk w = (w', Fail e)"
  shows "GetActivePool conf svc pk w = (w', Fail (Wrapped e ''failed to get pool''))"
  using assms by (simp add: GetActivePool_def wrapping_def on_err_def bnd_def fails_def)

lemma wp_GetActivePool:
  "wp (GetActivePool conf svc pk) Q w \<longleftrightarrow> wp (GetPool conf svc pk) (\<lambda>w' r. case r of
     Ret pool \<Rightarrow> Q w' (Ret (if 0 < sint (pool_TTL pool) then None else Some pool))
   | Fail e \<Rightarrow> Q w' (Fail (Wrapped e ''failed to get pool''))
   | Panic \<Rightarrow> Q w' Panic) w"
  by (simp add: GetActivePool_def wp_rules cong: outcome.case_cong)

subsection \<open>The pool store over the backend\<close>

context backend
begin

lemma keeps_PutNewPool [keeps_rules]:
  assumes "stable J rely" and "\<And>v. J v \<Longrightarrow> J (set_pool conf (pool_PoolID p) (Some (marshal_Pool p)) v)"
  shows "keeps (holds J) (PutNewPool conf svc p)"
  using assms unfolding PutNewPool_def
  by (intro keeps_rules keeps_put) (auto simp: put_eff_def key_of_entity)

lemma keeps_UpdatePoolTTL [keeps_rules]:
  assumes "stable J rely"
    and "\<And>v it. J v \<Longrightarrow> pool_at conf v (pool_PoolID pk) = Some it \<Longrightarrow>
      J (set_pool conf (pool_PoolID pk) (Some (it(''ttl'' \<mapsto> enc_int64 ttl))) v)"
  shows "keeps (holds J) (UpdatePoolTTL conf svc ttl pk)"
  using assms unfolding UpdatePoolTTL_def
  by (intro keeps_rules keeps_update)
     (auto simp: upd_eff_def key_of_entity cond_ok_def cond_holds_iff Let_def)

lemma keeps_GetPool [keeps_rules]: "stable J rely \<Longrightarrow> keeps (holds J) (GetPool conf svc pk)"
  unfolding GetPool_def
  by (intro keeps_rules keeps_reads_of_view) (auto intro!: keeps_rules split: option.split)

lemma keeps_GetActivePool [keeps_rules]: "stable J rely \<Longrightarrow> keeps (holds J) (GetActivePool conf svc pk)"
  unfolding GetActivePool_def Let_def by (intro keeps_rules) auto

end

context seq_backend
begin

lemma wp_PutNewPool:
  assumes "\<And>w'. pool_at conf (view w) (pool_PoolID p) = None \<Longrightarrow>
      view w' = set_pool conf (pool_PoolID p) (Some (marshal_Pool p)) (view w) \<Longrightarrow> Q w' (Ret ())"
    and "\<And>w' it. pool_at conf (view w) (pool_PoolID p) = Some it \<Longrightarrow> view w' = view w \<Longrightarrow>
      Q w' (Fail ErrPoolExists)"
    and "\<And>w' e. view w' = view w \<Longrightarrow> Q w' (Fail (Wrapped e ''failed to put item''))"
    and "\<And>w' e. pool_at conf (view w) (pool_PoolID p) = None \<Longrightarrow>
        view w' = set_pool conf (pool_PoolID p) (Some (marshal_Pool p)) (view w) \<Longrightarrow>
      Q w' (Fail (Wrapped e ''failed to put item''))"
  shows "wp (PutNewPool conf svc p) Q w"
  unfolding PutNewPool_def
  by (rule wp_put_new) (auto intro: assms simp: table_keys key_of_entity)

lemma wp_UpdatePoolTTL:
  assumes "\<And>w' it. pool_at conf (view w) (pool_PoolID pk) = Some it \<Longrightarrow>
      view w' = set_pool conf (pool_PoolID pk) (Some (it(''ttl'' \<mapsto> enc_int64 ttl))) (view w) \<Longrightarrow> Q w' (Ret ())"
    and "\<And>w'. pool_at conf (view w) (pool_PoolID pk) = None \<Longrightarrow> view w' = view w \<Longrightarrow> Q w' (Fail ErrPoolNotExists)"
    and "\<And>w' e. view w' = view w \<Longrightarrow> Q w' (Fail (Wrapped e ''failed to update item''))"
    and "\<And>w' e it. pool_at conf (view w) (pool_PoolID pk) = Some it \<Longrightarrow>
        view w' = set_pool conf (pool_PoolID pk) (Some (it(''ttl'' \<mapsto> enc_int64 ttl))) (view w) \<Longrightarrow>
      Q w' (Fail (Wrapped e ''failed to update item''))"
  shows "wp (UpdatePoolTTL conf svc ttl pk) Q w"
  unfolding UpdatePoolTTL_def
  by (rule wp_set_existing) (auto intro: assms simp: table_keys key_of_entity)

end

context seq_item_backend
begin

lemma wp_GetPool:
  assumes "\<And>w'. view w' = view w \<Longrightarrow> pool_at conf (view w) (pool_PoolID pk) = None \<Longrightarrow> Q w' (Fail ErrPoolNotExists)"
    and "\<And>w' it p. view w' = view w \<Longrightarrow> pool_at conf (view w) (pool_PoolID pk) = Some it \<Longrightarrow>
      unmarshal_Pool it = Inr p \<Longrightarrow> Q w' (Ret p)"
    and "\<And>w' e msg. view w' = view w \<Longrightarrow> Q w' (Fail (Wrapped e msg))"
  shows "wp (GetPool conf svc pk) Q w"
  unfolding GetPool_def wp_bnd wp_wrapping
  by (rule wp_get) (auto intro: assms simp: key_of_entity wp_rules split: option.split sum.split)

end

end
