(* ===== verification/Workers.thy ===== *)
theory Workers
  imports Table_Ops
begin

section \<open>Workers (\<open>line/worker.go\<close>)\<close>

text \<open>
  The worker table. \<open>PutNewWorker\<close> guards its insertion with the attribute name \<open>wkr\<close> while the
  table's range key is \<open>wrk\<close>: the condition tests an attribute that no item has, so it never
  fails and an existing worker is overwritten.
\<close>

definition ErrWorkerExists :: goerr where
  "ErrWorkerExists = Errorf ''worker already exists''"

definition ErrWorkerNotExists :: goerr where
  "ErrWorkerNotExists = Errorf ''worker doesn't exist''"

definition PutNewWorker :: "Conf \<Rightarrow> 'w services \<Rightarrow> Worker \<Rightarrow> ('w, unit) prog" where
  "PutNewWorker conf svc worker =
     on_err (call0 (db_PutItem svc (WorkersTableName conf) (marshal_Worker worker)
               (Some (Attribute_not_exists ''wkr''))))
       (cond_failed_as ErrWorkerExists ''failed to put item'')"

definition DeleteWorker :: "Conf \<Rightarrow> 'w services \<Rightarrow> WorkerPK \<Rightarrow> ('w, unit) prog" where
  "DeleteWorker conf svc pk =
     on_err (call0 (db_DeleteItem svc (WorkersTableName conf) (marshal_WorkerPK pk)
               (Some (Attribute_exists ''wrk''))))
       (cond_failed_as ErrWorkerNotExists ''failed to delete item'')"

definition UpdateWorkerTTL :: "Conf \<Rightarrow> 'w services \<Rightarrow> int64 \<Rightarrow> WorkerPK \<Rightarrow> ('w, unit) prog" where
  "UpdateWorkerTTL conf svc ttl pk =
     on_err (call0 (db_UpdateItem svc (WorkersTableName conf) (marshal_WorkerPK pk)
               (Set_to ''ttl'' (enc_int64 ttl)) (Some (Attribute_exists ''pool''))))
       (cond_failed_as ErrWorkerNotExists ''failed to update item'')"

definition GetWorker :: "Conf \<Rightarrow> 'w services \<Rightarrow> WorkerPK \<Rightarrow> ('w, Worker) prog" where
  "GetWorker conf svc pk =
     bnd (wrapping ''failed to get item''
            (call (db_GetItem svc (WorkersTableName conf) (marshal_WorkerPK pk)))) (\<lambda>out.
     case out of
       None \<Rightarrow> fails ErrWorkerNotExists
     | Some it \<Rightarrow> wrapping ''failed to unmarshal item'' (of_sum (unmarshal_Worker it)))"

context backend
begin

lemma keeps_PutNewWorker [keeps_rules]:
  assumes "stable J rely"
    and "\<And>v. J v \<Longrightarrow> J (set_worker conf (wrk_PoolID wk) (wrk_WorkerID wk) (Some (marshal_Worker wk)) v)"
  shows "keeps (holds J) (PutNewWorker conf svc wk)"
  using assms unfolding PutNewWorker_def
  by (intro keeps_rules keeps_put) (auto simp: put_eff_def key_of_entity)

lemma keeps_DeleteWorker [keeps_rules]:
  assumes "stable J rely"
    and "\<And>v. J v \<Longrightarrow> J (set_worker conf (wrk_PoolID pk) (wrk_WorkerID pk) None v)"
  shows "keeps (holds J) (DeleteWorker conf svc pk)"
  using assms unfolding DeleteWorker_def
  by (intro keeps_rules keeps_delete) (auto simp: del_eff_def key_of_entity)

lemma keeps_UpdateWorkerTTL [keeps_rules]:
  assumes "stable J rely"
    and "\<And>v it. J v \<Longrightarrow> worker_at conf v (wrk_PoolID pk) (wrk_WorkerID pk) = Some it \<Longrightarrow>
      J (set_worker conf (wrk_PoolID pk) (wrk_WorkerID pk) (Some (it(''ttl'' \<mapsto> enc_int64 ttl))) v)"
  shows "keeps (holds J) (UpdateWorkerTTL conf svc ttl pk)"
  using assms unfolding UpdateWorkerTTL_def
  by (intro keeps_rules keeps_update)
     (auto simp: upd_eff_def key_of_entity cond_ok_def cond_holds_iff Let_def)

lemma keeps_GetWorker [keeps_rules]: "stable J rely \<Longrightarrow> keeps (holds J) (GetWorker conf svc pk)"
  unfolding GetWorker_def
  by (intro keeps_rules keeps_reads_of_view) (auto intro!: keeps_rules split: option.split)

end

context seq_backend
begin

text \<open>The guard of \<open>PutNewWorker\<close> can only fail on an item with an attribute \<open>wkr\<close>.\<close>

lemma wp_PutNewWorker:
  assumes "\<And>it. worker_at conf (view w) (wrk_PoolID wk) (wrk_WorkerID wk) = Some it \<Longrightarrow> it ''wkr'' = None"
    and "\<And>w'. view w' = set_worker conf (wrk_PoolID wk) (wrk_WorkerID wk) (Some (marshal_Worker wk)) (view w) \<Longrightarrow>
      Q w' (Ret ())"
    and "\<And>w' e. view w' = view w \<Longrightarrow> Q w' (Fail (Wrapped e ''failed to put item''))"
    and "\<And>w' e. view w' = set_worker conf (wrk_PoolID wk) (wrk_WorkerID wk) (Some (marshal_Worker wk)) (view w) \<Longrightarrow>
      Q w' (Fail (Wrapped e ''failed to put item''))"
  shows "wp (PutNewWorker conf svc wk) Q w"
  unfolding PutNewWorker_def
  by (rule wp_put_guarded)
     (use assms(1) in \<open>auto intro: assms(2-) simp: key_of_entity cond_ok_def cond_holds_iff\<close>)

lemma wp_DeleteWorker:
  assumes "\<And>w' it. worker_at conf (view w) (wrk_PoolID pk) (wrk_WorkerID pk) = Some it \<Longrightarrow>
      view w' = set_worker conf (wrk_PoolID pk) (wrk_WorkerID pk) None (view w) \<Longrightarrow> Q w' (Ret ())"
    and "\<And>w'. worker_at conf (view w) (wrk_PoolID pk) (wrk_WorkerID pk) = None \<Longrightarrow> view w' = view w \<Longrightarrow>
      Q w' (Fail ErrWorkerNotExists)"
    and "\<And>w' e. view w' = view w \<Longrightarrow> Q w' (Fail (Wrapped e ''failed to delete item''))"
    and "\<And>w' e. view w' = set_worker conf (wrk_PoolID pk) (wrk_WorkerID pk) None (view w) \<Longrightarrow>
      Q w' (Fail (Wrapped e ''failed to delete item''))"
  shows "wp (DeleteWorker conf svc pk) Q w"
  unfolding DeleteWorker_def
  by (rule wp_delete_existing) (auto intro: assms simp: table_keys key_of_entity)

lemma wp_UpdateWorkerTTL:
  assumes "\<And>w' it. worker_at conf (view w) (wrk_PoolID pk) (wrk_WorkerID pk) = Some it \<Longrightarrow>
      view w' = set_worker conf (wrk_PoolID pk) (wrk_WorkerID pk) (Some (it(''ttl'' \<mapsto> enc_int64 ttl))) (view w) \<Longrightarrow>
      Q w' (Ret ())"
    and "\<And>w'. worker_at conf (view w) (wrk_PoolID pk) (wrk_WorkerID pk) = None \<Longrightarrow> view w' = view w \<Longrightarrow>
      Q w' (Fail ErrWorkerNotExists)"
    and "\<And>w' e. view w' = view w \<Longrightarrow> Q w' (Fail (Wrapped e ''failed to update item''))"
    and "\<And>w' e it. worker_at conf (view w) (wrk_PoolID pk) (wrk_WorkerID pk) = Some it \<Longrightarrow>
      view w' = set_worker conf (wrk_PoolID pk) (wrk_WorkerID pk) (Some (it(''ttl'' \<mapsto> enc_int64 ttl))) (view w) \<Longrightarrow>
      Q w' (Fail (Wrapped e ''failed to update item''))"
  shows "wp (UpdateWorkerTTL conf svc ttl pk) Q w"
  unfolding UpdateWorkerTTL_def
  by (rule wp_set_existing) (auto intro: assms simp: table_keys key_of_entity)

end

context seq_item_backend
begin

lemma wp_GetWorker:
  assumes "\<And>w'. view w' = view w \<Longrightarrow> worker_at conf (view w) (wrk_PoolID pk) (wrk_WorkerID pk) = None \<Longrightarrow>
      Q w' (Fail ErrWorkerNotExists)"
    and "\<And>w' it k. view w' = view w \<Longrightarrow> worker_at conf (view w) (wrk_PoolID pk) (wrk_WorkerID pk) = Some it \<Longrightarrow>
      unmarshal_Worker it = Inr k \<Longrightarrow> Q w' (Ret k)"
    and "\<And>w' e msg. view w' = view w \<Longrightarrow> Q w' (Fail (Wrapped e msg))"
  shows "wp (GetWorker conf svc pk) Q w"
  unfolding GetWorker_def wp_bnd wp_wrapping
  by (rule wp_get) (auto intro: assms simp: key_of_entity wp_rules split: option.split sum.split)

end

end
