(* ===== verification/Replicas.thy ===== *)
theory Replicas
  imports Table_Ops
begin

section \<open>Replicas (\<open>line/replica.go\<close>)\<close>

text \<open>
  The replica table: unconditional insertion (which resets the ttl) and deletion. Errors are
  returned as they are.
\<close>

definition PutReplica :: "Conf \<Rightarrow> 'w services \<Rightarrow> Replica \<Rightarrow> ('w, unit) prog" where
  "PutReplica conf svc replica =
     call0 (db_PutItem svc (ReplicasTableName conf) (marshal_Replica replica) None)"

definition DeleteReplica :: "Conf \<Rightarrow> 'w services \<Rightarrow> ReplicaPK \<Rightarrow> ('w, unit) prog" where
  "DeleteReplica conf svc pk =
     call0 (db_DeleteItem svc (ReplicasTableName conf) (marshal_ReplicaPK pk) None)"

context backend
begin

lemma keeps_PutReplica [keeps_rules]:
  assumes "stable J rely"
    and "\<And>v. J v \<Longrightarrow> J (set_replica conf (rpl_PoolID r) (rpl_ReplicaID r) (Some (marshal_Replica r)) v)"
  shows "keeps (holds J) (PutReplica conf svc r)"
  using assms unfolding PutReplica_def
  by (intro keeps_put) (auto simp: put_eff_def key_of_entity)

lemma keeps_DeleteReplica [keeps_rules]:
  assumes "stable J rely"
    and "\<And>v. J v \<Longrightarrow> J (set_replica conf (rpl_PoolID pk) (rpl_ReplicaID pk) None v)"
  shows "keeps (holds J) (DeleteReplica conf svc pk)"
  using assms unfolding DeleteReplica_def
  by (intro keeps_delete) (auto simp: del_eff_def key_of_entity)

end

context seq_backend
begin

lemma wp_PutReplica:
  assumes "\<And>w'. view w' = set_replica conf (rpl_PoolID r) (rpl_ReplicaID r) (Some (marshal_Replica r)) (view w) \<Longrightarrow>
      Q w' (Ret ())"
    and "\<And>w' e. view w' = view w \<Longrightarrow> Q w' (Fail e)"
    and "\<And>w' e. view w' = set_replica conf (rpl_PoolID r) (rpl_ReplicaID r) (Some (marshal_Replica r)) (view w) \<Longrightarrow>
      Q w' (Fail e)"
  shows "wp (PutReplica conf svc r) Q w"
  unfolding PutReplica_def by (rule wp_put_any) (auto intro: assms simp: key_of_entity)

lemma wp_DeleteReplica:
  assumes "\<And>w'. view w' = set_replica conf (rpl_PoolID pk) (rpl_ReplicaID pk) None (view w) \<Longrightarrow> Q w' (Ret ())"
    and "\<And>w' e. view w' = view w \<Longrightarrow> Q w' (Fail e)"
    and "\<And>w' e. view w' = set_replica conf (rpl_PoolID pk) (rpl_ReplicaID pk) None (view w) \<Longrightarrow> Q w' (Fail e)"
  shows "wp (DeleteReplica conf svc pk) Q w"
  unfolding DeleteReplica_def by (rule wp_delete_any) (auto intro: assms simp: key_of_entity)

end

end
