(* ===== verification/Allocs.thy ===== *)
theory Allocs
  imports Table_Ops
begin

section \<open>Allocations (\<open>line/alloc.go\<close>)\<close>

text \<open>The allocation table: read, conditional insertion, and the ttl update of the heartbeats.\<close>

definition ErrAllocExists :: goerr where
  "ErrAllocExists = Errorf ''alloc already exists''"

definition ErrAllocNotExists :: goerr where
  "ErrAllocNotExists = Errorf ''alloc doesn't exist''"

definition GetAlloc :: "Conf \<Rightarrow> 'w services \<Rightarrow> AllocPK \<Rightarrow> ('w, Alloc) prog" where
  "GetAlloc conf svc pk =
     bnd (wrapping ''failed to get item''
            (call (db_GetItem svc (AllocsTableName conf) (marshal_AllocPK pk)))) (\<lambda>out.
     case out of
       None \<Rightarrow> fails ErrAllocNotExists
     | Some it \<Rightarrow> wrapping ''failed to unmarshal item'' (of_sum (unmarshal_Alloc it)))"

definition PutNewAlloc :: "Conf \<Rightarrow> 'w services \<Rightarrow> Alloc \<Rightarrow> ('w, unit) prog" where
  "PutNewAlloc conf svc alloc =
     on_err (call0 (db_PutItem svc (AllocsTableName conf) (marshal_Alloc alloc)
               (Some (Attribute_not_exists ''alloc''))))
       (cond_failed_as ErrAllocExists ''failed to put item'')"

definition UpdateAllocTTL :: "Conf \<Rightarrow> 'w services \<Rightarrow> int64 \<Rightarrow> AllocPK \<Rightarrow> ('w, unit) prog" where
  "UpdateAllocTTL conf svc ttl apk =
     on_err (call0 (db_UpdateItem svc (AllocsTableName conf) (marshal_AllocPK apk)
               (Set_to ''ttl'' (enc_int64 ttl)) (Some (Attribute_exists ''alloc''))))
       (cond_failed_as ErrAllocNotExists ''failed to update item'')"

context backend
begin

lemma keeps_GetAlloc [keeps_rules]: "stable J rely \<Longrightarrow> keeps (holds J) (GetAlloc conf svc pk)"
  unfolding GetAlloc_def
  by (intro keeps_rules keeps_reads_of_view) (auto intro!: keeps_rules split: option.split)

lemma keeps_PutNewAlloc [keeps_rules]:
  assumes "stable J rely"
    and "\<And>v. J v \<Longrightarrow> J (set_alloc conf (alloc_PoolID a) (alloc_AllocID a) (Some (marshal_Alloc a)) v)"
  shows "keeps (holds J) (PutNewAlloc conf svc a)"
  using assms unfolding PutNewAlloc_def
  by (intro keeps_rules keeps_put) (auto simp: put_eff_def key_of_entity)

lemma keeps_UpdateAllocTTL [keeps_rules]:
  assumes "stable J rely"
    and "\<And>v it. J v \<Longrightarrow> alloc_at conf v (alloc_PoolID pk) (alloc_AllocID pk) = Some it \<Longrightarrow>
      J (set_alloc conf (alloc_PoolID pk) (alloc_AllocID pk) (Some (it(''ttl'' \<mapsto> enc_int64 ttl))) v)"
  shows "keeps (holds J) (UpdateAllocTTL conf svc ttl pk)"
  using assms unfolding UpdateAllocTTL_def
  by (intro keeps_rules keeps_update)
     (auto simp: upd_eff_def key_of_entity cond_ok_def cond_holds_iff Let_def)

end

context seq_item_backend
begin

lemma wp_GetAlloc:
  assumes "\<And>w'. view w' = view w \<Longrightarrow> alloc_at conf (view w) (alloc_PoolID pk) (alloc_AllocID pk) = None \<Longrightarrow>
      Q w' (Fail ErrAllocNotExists)"
    and "\<And>w' it a. view w' = view w \<Longrightarrow> alloc_at conf (view w) (alloc_PoolID pk) (alloc_AllocID pk) = Some it \<Longrightarrow>
      unmarshal_Alloc it = Inr a \<Longrightarrow> Q w' (Ret a)"
    and "\<And>w' e msg. view w' = view w \<Longrightarrow> Q w' (Fail (Wrapped e msg))"
  shows "wp (GetAlloc conf svc pk) Q w"
  unfolding GetAlloc_def wp_bnd wp_wrapping
  by (rule wp_get) (auto intro: assms simp: key_of_entity wp_rules split: option.split sum.split)

end

context seq_backend
begin

lemma wp_PutNewAlloc:
  assumes "\<And>w'. alloc_at conf (view w) (alloc_PoolID a) (alloc_AllocID a) = None \<Longrightarrow>
      view w' = set_alloc conf (alloc_PoolID a) (alloc_AllocID a) (Some (marshal_Alloc a)) (view w) \<Longrightarrow> Q w' (Ret ())"
    and "\<And>w' it. alloc_at conf (view w) (alloc_PoolID a) (alloc_AllocID a) = Some it \<Longrightarrow> view w' = view w \<Longrightarrow>
      Q w' (Fail ErrAllocExists)"
    and "\<And>w' e. view w' = view w \<Longrightarrow> Q w' (Fail (Wrapped e ''failed to put item''))"
    and "\<And>w' e. alloc_at conf (view w) (alloc_PoolID a) (alloc_AllocID a) = None \<Longrightarrow>
      view w' = set_alloc conf (alloc_PoolID a) (alloc_AllocID a) (Some (marshal_Alloc a)) (view w) \<Longrightarrow>
      Q w' (Fail (Wrapped e ''failed to put item''))"
  shows "wp (PutNewAlloc conf svc a) Q w"
  unfolding PutNewAlloc_def
  by (rule wp_put_new) (auto intro: assms simp: table_keys key_of_entity)

lemma wp_UpdateAllocTTL:
  assumes "\<And>w' it. alloc_at conf (view w) (alloc_PoolID pk) (alloc_AllocID pk) = Some it \<Longrightarrow>
      view w' = set_alloc conf (alloc_PoolID pk) (alloc_AllocID pk) (Some (it(''ttl'' \<mapsto> enc_int64 ttl))) (view w) \<Longrightarrow>
      Q w' (Ret ())"
    and "\<And>w'. alloc_at conf (view w) (alloc_PoolID pk) (alloc_AllocID pk) = None \<Longrightarrow> view w' = view w \<Longrightarrow>
      Q w' (Fail ErrAllocNotExists)"
    and "\<And>w' e. view w' = view w \<Longrightarrow> Q w' (Fail (Wrapped e ''failed to update item''))"
    and "\<And>w' e it. alloc_at conf (view w) (alloc_PoolID pk) (alloc_AllocID pk) = Some it \<Longrightarrow>
      view w' = set_alloc conf (alloc_PoolID pk) (alloc_AllocID pk) (Some (it(''ttl'' \<mapsto> enc_int64 ttl))) (view w) \<Longrightarrow>
      Q w' (Fail (Wrapped e ''failed to update item''))"
  shows "wp (UpdateAllocTTL conf svc ttl pk) Q w"
  unfolding UpdateAllocTTL_def
  by (rule wp_set_existing) (auto intro: assms simp: table_keys key_of_entity)

end

end
