(* ===== verification/Schedule.thy ===== *)
theory Schedule
  imports Go_Sort Scan Payloads Naming Pools Workers Replicas Allocs
begin

section \<open>Scheduling (\<open>line/handle_schedule.go\<close>)\<close>

text \<open>
  The scheduling reactor: find the live replicas of a dataset, claim capacity of a worker by a
  conditional update, turn one scheduling message into an allocation, and the loop that receives
  the messages of a pool. \<open>HandleSchedule\<close> starts that loop for every active pool and blocks.
\<close>

subsection \<open>Locality\<close>

definition replica_query :: "Conf \<Rightarrow> Eval \<Rightarrow> Pool \<Rightarrow> query" where
  "replica_query conf eval pool =
     \<lparr>q_TableName = ReplicasTableName conf, q_IndexName = None, q_Limit = Some 10,
      q_hash = (''pool'', aget (marshal_Pool pool) ''pool''),
      q_range = Range_begins_with ''rpl'' (aget (eval_item eval) ''set'')\<rparr>"

text \<open>The loop over \<open>locq.Items\<close>; the clock is read for every item.\<close>

fun live_replicas :: "'w services \<Rightarrow> item list \<Rightarrow> Replica list \<Rightarrow> ('w, Replica list) prog" where
  "live_replicas svc [] replicas = ret replicas"
| "live_replicas svc (it # its) replicas = (case unmarshal_Replica it of
     Inl _ \<Rightarrow> live_replicas svc its replicas
   | Inr replica \<Rightarrow> bnd (reads (time_Now_Unix svc)) (\<lambda>now.
       if sint (rpl_TTL replica) < sint now then live_replicas svc its replicas
       else live_replicas svc its (replicas @ [replica])))"

definition FindReplicas :: "Conf \<Rightarrow> 'w services \<Rightarrow> Eval \<Rightarrow> Pool \<Rightarrow> ('w, Replica list) prog" where
  "FindReplicas conf svc eval pool =
     (if Dataset eval \<noteq> [] then
        bnd (wrapping ''failed to query replicas'' (call (db_Query svc (replica_query conf eval pool))))
          (\<lambda>items. live_replicas svc items [])
      else ret [])"

subsection \<open>Capacity\<close>

definition capacity_query :: "Conf \<Rightarrow> Eval \<Rightarrow> Pool \<Rightarrow> query" where
  "capacity_query conf eval pool =
     \<lparr>q_TableName = WorkersTableName conf, q_IndexName = Some (WorkersCapIdxName conf), q_Limit = Some 10,
      q_hash = (''pool'', aget (marshal_Pool pool) ''pool''),
      q_range = Range_ge ''cap'' (aget (eval_item eval) ''size'')\<rparr>"

fun live_workers :: "'w services \<Rightarrow> item list \<Rightarrow> Worker list \<Rightarrow> ('w, Worker list) prog" where
  "live_workers svc [] candidates = ret candidates"
| "live_workers svc (it # its) candidates = (case unmarshal_Worker it of
     Inl _ \<Rightarrow> live_workers svc its candidates
   | Inr cand \<Rightarrow> bnd (reads (time_Now_Unix svc)) (\<lambda>now.
       if sint (wrk_TTL cand) < sint now then live_workers svc its candidates
       else live_workers svc its (candidates @ [cand])))"

definition by_capacity :: "Worker \<Rightarrow> Worker \<Rightarrow> bool" where
  "by_capacity a b \<longleftrightarrow> sint (wrk_Capacity b) \<le> sint (wrk_Capacity a)"

definition NotEnoughCapacity :: goerr where
  "NotEnoughCapacity = Errorf ''not enough capacity''"

text \<open>The conditional update that claims the capacity.\<close>

definition claim :: "Conf \<Rightarrow> 'w services \<Rightarrow> Eval \<Rightarrow> Worker \<Rightarrow> ('w, unit) prog" where
  "claim conf svc eval worker =
     wrapping ''failed to update worker capacity''
       (call0 (db_UpdateItem svc (WorkersTableName conf) (marshal_WorkerPK (Worker_PK worker))
          (Set_minus ''cap'' (aget (eval_item eval) ''size''))
          (Some (Attr_ge ''cap'' (aget (eval_item eval) ''size'')))))"

definition new_alloc :: "Conf \<Rightarrow> Eval \<Rightarrow> Worker \<Rightarrow> string \<Rightarrow> int64 \<Rightarrow> Alloc" where
  "new_alloc conf eval worker idb now =
     \<lparr>alloc_PoolID = wrk_PoolID worker, alloc_AllocID = hex_EncodeToString idb,
      alloc_TTL = now + AllocTTL conf, alloc_WorkerID = wrk_WorkerID worker,
      alloc_Eval = Some (eval\<lparr>Retry := Retry eval + 1\<rparr>)\<rparr>"

definition Schedule :: "Conf \<Rightarrow> 'w services \<Rightarrow> Eval \<Rightarrow> Pool \<Rightarrow> Replica list \<Rightarrow> ('w, Alloc) prog" where
  "Schedule conf svc eval pool replicas =
     bnd (wrapping ''failed to query workers'' (call (db_Query svc (capacity_query conf eval pool)))) (\<lambda>items.
     bnd (live_workers svc items []) (\<lambda>found.
     case sort_Slice by_capacity found of
       [] \<Rightarrow> fails NotEnoughCapacity
     | worker # _ \<Rightarrow>
         bnd (claim conf svc eval worker) (\<lambda>_.
         bnd (wrapping ''failed to generate random alloc id'' (call (rand_Read svc 10))) (\<lambda>idb.
         bnd (reads (time_Now_Unix svc)) (\<lambda>now.
         ret (new_alloc conf eval worker idb now))))))"

subsection \<open>The scheduling messages\<close>

definition normal_size :: "Eval \<Rightarrow> Eval" where
  "normal_size eval = (if sint (Size eval) < 1 then eval\<lparr>Size := 1\<rparr> else eval)"

definition alloc_message :: "Pool \<Rightarrow> Alloc \<Rightarrow> body" where
  "alloc_message pool alloc = Some (json_of_client_Alloc
     \<lparr>ca_PoolID = pool_PoolID pool, ca_AllocID = alloc_AllocID alloc, ca_WorkerID = alloc_WorkerID alloc\<rparr>)"

text \<open>The work on one decoded message, up to its deletion; any error ends it.\<close>

definition schedule_eval :: "Conf \<Rightarrow> 'w services \<Rightarrow> Pool \<Rightarrow> string \<Rightarrow> Eval \<Rightarrow> ('w, unit) prog" where
  "schedule_eval conf svc pool receipt_handle eval =
     bnd (if Dataset eval \<noteq> [] then FindReplicas conf svc eval pool else ret []) (\<lambda>replicas.
     bnd (Schedule conf svc eval pool replicas) (\<lambda>alloc.
     bnd (PutNewAlloc conf svc alloc) (\<lambda>_.
     bnd (call0 (sqs_SendMessage svc (FmtWorkerQueueURL conf (pool_PoolID pool) (alloc_WorkerID alloc))
            (alloc_message pool alloc))) (\<lambda>_.
     call0 (sqs_DeleteMessage svc (pool_QueueURL pool) receipt_handle)))))"

text \<open>The body of the loop over \<open>out.Messages\<close>: every error is logged and the loop continues.\<close>

definition schedule_msg :: "Conf \<Rightarrow> 'w services \<Rightarrow> Pool \<Rightarrow> message \<Rightarrow> ('w, unit) prog" where
  "schedule_msg conf svc pool msg =
     logged (bnd (of_sum (json_Unmarshal Eval_of_json (msg_Body msg))) (\<lambda>eval.
       schedule_eval conf svc pool (msg_ReceiptHandle msg) (normal_size eval)))"

definition ReceiveEvals_round :: "Conf \<Rightarrow> 'w services \<Rightarrow> Pool \<Rightarrow> ('w, unit) prog" where
  "ReceiveEvals_round conf svc pool =
     bnd (call (sqs_ReceiveMessage svc (pool_QueueURL pool) (Some 1) None 1)) (\<lambda>msgs.
     each (schedule_msg conf svc pool) msgs)"

text \<open>\<open>for { ... }\<close>: left only when receiving fails. \<open>None\<close> is a loop that runs forever.\<close>

partial_function (option) ReceiveEvals ::
  "Conf \<Rightarrow> 'w services \<Rightarrow> Pool \<Rightarrow> 'w \<Rightarrow> ('w \<times> unit outcome) option" where
  "ReceiveEvals conf svc pool w = (case ReceiveEvals_round conf svc pool w of
     (w', Ret _) \<Rightarrow> ReceiveEvals conf svc pool w'
   | (w', r) \<Rightarrow> Some (w', r))"

text \<open>The world after \<open>n\<close> rounds of the loop, if it is still running.\<close>

fun rounds :: "Conf \<Rightarrow> 'w services \<Rightarrow> Pool \<Rightarrow> nat \<Rightarrow> 'w \<Rightarrow> 'w option" where
  "rounds conf svc pool 0 w = Some w"
| "rounds conf svc pool (Suc n) w = (case ReceiveEvals_round conf svc pool w of
     (w', Ret _) \<Rightarrow> rounds conf svc pool n w'
   | (w', _) \<Rightarrow> None)"

text \<open>
  The callback of the scan starts a goroutine \<open>ReceiveEvals(conf, svc, pool)\<close> for every pool that
  is not disbanded; the accumulator is the list of these pools. Then the handler blocks on a
  channel that nobody sends on, or returns the error of the scan.
\<close>

fun spawn_pools :: "item list \<Rightarrow> Pool list \<Rightarrow> Pool list" where
  "spawn_pools [] started = started"
| "spawn_pools (it # its) started = (case unmarshal_Pool it of
     Inl _ \<Rightarrow> spawn_pools its started
   | Inr pool \<Rightarrow> if 0 < sint (pool_TTL pool) then spawn_pools its started
                else spawn_pools its (started @ [pool]))"

datatype schedule_end = Returns goerr | BlocksForever

definition HandleSchedule ::
  "Conf \<Rightarrow> 'w services \<Rightarrow> 'w \<Rightarrow> ('w \<times> Pool list \<times> schedule_end) option" where
  "HandleSchedule conf svc w =
     map_option (\<lambda>(w', started, err). (w', started, case err of Some e \<Rightarrow> Returns e | None \<Rightarrow> BlocksForever))
       (ScanPages svc (PoolsTableName conf) (\<lambda>its started w. (w, spawn_pools its started)) None [] w)"

subsection \<open>Facts about the pieces\<close>

interpretation by_capacity: total_less by_capacity
  by unfold_locales (auto simp: by_capacity_def)

lemma eval_item_size [simp]: "aget (eval_item e) ''size'' = AN (sint (Size e))"
  by (simp add: aget_def eval_item_def marshal_Eval_def enc_int64_def)

lemma eval_item_set: "aget (eval_item e) ''set'' = enc_string (Dataset e)"
  by (simp add: aget_def eval_item_def marshal_Eval_def)

lemma pool_attr [simp]: "aget (marshal_Pool p) ''pool'' = enc_string (pool_PoolID p)"
  by (simp add: aget_def)

lemma Worker_PK_simps [simp]:
  "wrk_PoolID (Worker_PK wk) = wrk_PoolID wk"
  "wrk_WorkerID (Worker_PK wk) = wrk_WorkerID wk"
  by (simp_all add: Worker_PK_def)

lemma new_alloc_simps [simp]:
  "alloc_PoolID (new_alloc conf eval worker idb now) = wrk_PoolID worker"
  "alloc_AllocID (new_alloc conf eval worker idb now) = hex_EncodeToString idb"
  "alloc_TTL (new_alloc conf eval worker idb now) = now + AllocTTL conf"
  "alloc_WorkerID (new_alloc conf eval worker idb now) = wrk_WorkerID worker"
  "alloc_Eval (new_alloc conf eval worker idb now) = Some (eval\<lparr>Retry := Retry eval + 1\<rparr>)"
  by (simp_all add: new_alloc_def)

lemma normal_size_pos: "1 \<le> sint (Size (normal_size e))"
  by (simp add: normal_size_def)

lemma normal_size_id: "1 \<le> sint (Size e) \<Longrightarrow> normal_size e = e"
  by (simp add: normal_size_def)

lemma normal_size_other [simp]:
  "Dataset (normal_size e) = Dataset e"
  "Retry (normal_size e) = Retry e"
  by (simp_all add: normal_size_def)

lemma keeps_live_replicas [keeps_rules]:
  assumes "keeps I (reads (time_Now_Unix svc))"
  shows "keeps I (live_replicas svc its acc)"
  by (induction its arbitrary: acc) (auto intro!: keeps_rules assms split: sum.split)

lemma keeps_live_workers [keeps_rules]:
  assumes "keeps I (reads (time_Now_Unix svc))"
  shows "keeps I (live_workers svc its acc)"
  by (induction its arbitrary: acc) (auto intro!: keeps_rules assms split: sum.split)

text \<open>
  Successive readings of the clock. The candidates are the decoded workers of the query result, in
  order, whose ttl was not over at the reading that was made for them.
\<close>

fun clock_readings :: "'w services \<Rightarrow> nat \<Rightarrow> 'w \<Rightarrow> 'w \<times> int64 list" where
  "clock_readings svc 0 w = (w, [])"
| "clock_readings svc (Suc n) w = (case time_Now_Unix svc w of (w1, t) \<Rightarrow>
     (case clock_readings svc n w1 of (w2, ts) \<Rightarrow> (w2, t # ts)))"

definition alive_at :: "('a \<Rightarrow> int64) \<Rightarrow> 'a list \<Rightarrow> int64 list \<Rightarrow> 'a list" where
  "alive_at ttl xs ts = map fst (filter (\<lambda>(x, t). \<not> sint (ttl x) < sint t) (zip xs ts))"

lemma alive_at_simps [simp]:
  "alive_at ttl [] ts = []"
  "alive_at ttl (x # xs) (t # ts) = (if sint (ttl x) < sint t then alive_at ttl xs ts else x # alive_at ttl xs ts)"
  by (simp_all add: alive_at_def)

lemma live_workers_readings:
  "live_workers svc its acc w =
    (case clock_readings svc (length (items_of unmarshal_Worker its)) w of
       (w', ts) \<Rightarrow> (w', Ret (acc @ alive_at wrk_TTL (items_of unmarshal_Worker its) ts)))"
  by (induction its arbitrary: acc w) (auto simp: ret_def bnd_def reads_def split: sum.split prod.split)

lemma live_replicas_readings:
  "live_replicas svc its acc w =
    (case clock_readings svc (length (items_of unmarshal_Replica its)) w of
       (w', ts) \<Rightarrow> (w', Ret (acc @ alive_at rpl_TTL (items_of unmarshal_Replica its) ts)))"
  by (induction its arbitrary: acc w) (auto simp: ret_def bnd_def reads_def split: sum.split prod.split)

lemma clock_readings_read:
  "clock_readings svc n w = (w', ts) \<Longrightarrow> t \<in> set ts \<Longrightarrow> \<exists>v v'. time_Now_Unix svc v = (v', t)"
  by (induction n arbitrary: w ts) (auto split: prod.splits, metis)

lemma alive_at_reading: "x \<in> set (alive_at ttl xs ts) \<Longrightarrow> x \<in> set xs \<and> (\<exists>t \<in> set ts. sint t \<le> sint (ttl x))"
  by (force simp: alive_at_def not_less dest: set_zip_leftD set_zip_rightD)

text \<open>Whatever the clock says, only unmarshalled items become candidates.\<close>

lemma live_workers_set:
  assumes "live_workers svc its acc w = (w', Ret found)"
  shows "set found \<subseteq> set acc \<union> set (items_of unmarshal_Worker its)"
  using assms
proof (induction its arbitrary: acc w)
  case Nil
  then show ?case by (simp add: ret_def)
next
  case (Cons it its)
  then show ?case
    by (fastforce simp: bnd_def reads_def split: sum.splits prod.splits if_splits)
qed

lemma live_workers_returns: "\<exists>w' found. live_workers svc its acc w = (w', Ret found)"
  by (induction its arbitrary: acc w)
     (auto simp: ret_def bnd_def reads_def split: sum.split prod.split)

subsection \<open>The claim\<close>

text \<open>The capacity stored for a worker, and the store after a claim of \<open>n\<close> on it.\<close>

definition cap_of :: "Conf \<Rightarrow> store \<Rightarrow> string \<Rightarrow> string \<Rightarrow> int option" where
  "cap_of conf v p k = (case worker_at conf v p k of
     Some it \<Rightarrow> (case it ''cap'' of Some (AN c) \<Rightarrow> Some c | _ \<Rightarrow> None) | None \<Rightarrow> None)"

definition claimed :: "Conf \<Rightarrow> string \<Rightarrow> string \<Rightarrow> int \<Rightarrow> store \<Rightarrow> store \<Rightarrow> bool" where
  "claimed conf p k n v v' \<longleftrightarrow> (\<exists>it c. worker_at conf v p k = Some it \<and> it ''cap'' = Some (AN c) \<and>
     n \<le> c \<and> v' = set_worker conf p k (Some (it(''cap'' \<mapsto> AN (c - n)))) v)"

lemma claimed_cap:
  assumes "claimed conf p k n v v'"
  shows "\<exists>c. cap_of conf v p k = Some c \<and> n \<le> c \<and> cap_of conf v' p k = Some (c - n)"
    and "p' \<noteq> p \<or> k' \<noteq> k \<Longrightarrow> cap_of conf v' p' k' = cap_of conf v p' k'"
    and "t \<noteq> WorkersTableName conf \<Longrightarrow> tables v' t = tables v t"
    and "queues v' = queues v"
  using assms by (auto simp: claimed_def cap_of_def)

context backend
begin

lemma keeps_claim [keeps_rules]:
  assumes "stable J rely"
    and "\<And>v v'. J v \<Longrightarrow> claimed conf (wrk_PoolID worker) (wrk_WorkerID worker) (sint (Size eval)) v v' \<Longrightarrow> J v'"
  shows "keeps (holds J) (claim conf svc eval worker)"
  unfolding claim_def using assms
  by (intro keeps_rules keeps_update)
     (auto simp: upd_eff_def key_of_entity cond_ok_def cond_holds_iff Let_def num_upd_def claimed_def)

end

context seq_backend
begin

lemma wp_claim:
  assumes "\<And>w'. claimed conf (wrk_PoolID worker) (wrk_WorkerID worker) (sint (Size eval)) (view w) (view w') \<Longrightarrow>
      Q w' (Ret ())"
    and "\<And>w' e. view w' = view w \<Longrightarrow> Q w' (Fail (Wrapped e ''failed to update worker capacity''))"
    and "\<And>w' e. claimed conf (wrk_PoolID worker) (wrk_WorkerID worker) (sint (Size eval)) (view w) (view w') \<Longrightarrow>
      Q w' (Fail (Wrapped e ''failed to update worker capacity''))"
  shows "wp (claim conf svc eval worker) Q w"
  unfolding claim_def wp_wrapping using assms
  by (intro wp_call0I)
     (auto dest!: update simp: write_post_def upd_eff_def key_of_entity cond_ok_def cond_holds_iff
        Let_def num_upd_def claimed_def split: if_splits)

lemma wp_live_workers:
  assumes "\<And>w' found. view w' = view w \<Longrightarrow> live_workers svc its [] w = (w', Ret found) \<Longrightarrow> Q w' (Ret found)"
  shows "wp (live_workers svc its []) Q w"
proof -
  have "keeps (\<lambda>w'. view w' = view w) (live_workers svc its [])"
    by (intro keeps_live_workers keeps_reads) (auto dest: now)
  moreover obtain w' found where r: "live_workers svc its [] w = (w', Ret found)"
    using live_workers_returns [of svc its "[]" w] by blast
  ultimately have "view w' = view w"
    by (metis (mono_tags, lifting) keepsD)
  with r assms show ?thesis by (simp add: wp_def)
qed

text \<open>
  \<open>Schedule\<close> by its results: a claim on a candidate of highest capacity and the allocation for it,
  or an error with the store as it was or with the claim applied.
\<close>

lemma wp_Schedule:
  assumes ok: "\<And>w' found worker idb now. worker \<in> set found \<Longrightarrow>
      (\<forall>k \<in> set found. sint (wrk_Capacity k) \<le> sint (wrk_Capacity worker)) \<Longrightarrow>
      claimed conf (wrk_PoolID worker) (wrk_WorkerID worker) (sint (Size eval)) (view w) (view w') \<Longrightarrow>
      (\<exists>w0 its w1 w2. db_Query svc (capacity_query conf eval pool) w0 = (w1, Inr its) \<and>
        live_workers svc its [] w1 = (w2, Ret found)) \<Longrightarrow>
      Q w' (Ret (new_alloc conf eval worker idb now))"
    and same: "\<And>w' e. view w' = view w \<Longrightarrow> Q w' (Fail e)"
    and lost: "\<And>w' e p k. claimed conf p k (sint (Size eval)) (view w) (view w') \<Longrightarrow> Q w' (Fail e)"
  shows "wp (Schedule conf svc eval pool replicas) Q w"
  unfolding Schedule_def wp_bnd wp_wrapping
proof (rule wp_query, goal_cases)
  case (1 w1 its)
  then show ?case
    unfolding outcome.case wp_bnd
  proof (intro wp_live_workers, goal_cases)
    case (1 w2 found)
    note qf = 1
    show ?case
    proof (cases "sort_Slice by_capacity found")
      case Nil
      then show ?thesis using qf same by (simp add: wp_fails)
    next
      case (Cons worker rest)
      then have ne: "found \<noteq> []" by (metis length_0_conv length_sort_Slice list.distinct(1))
      have worker: "worker \<in> set found"
        using set_sort_Slice [of by_capacity found] Cons by auto
      have best: "\<forall>k \<in> set found. sint (wrk_Capacity k) \<le> sint (wrk_Capacity worker)"
        using by_capacity.sort_Slice_head [OF ne] Cons by (simp add: by_capacity_def)
      have ex: "\<exists>w0 its w1 w2. db_Query svc (capacity_query conf eval pool) w0 = (w1, Inr its) \<and>
          live_workers svc its [] w1 = (w2, Ret found)"
        using qf by blast
      show ?thesis
        unfolding Cons list.case outcome.case wp_bnd
      proof (rule wp_claim, goal_cases)
        case (1 w3)
        with qf have c': "view w' = view w3 \<Longrightarrow>
            claimed conf (wrk_PoolID worker) (wrk_WorkerID worker) (sint (Size eval)) (view w) (view w')" for w'
          by simp
        show ?case
          unfolding outcome.case wp_bnd wp_wrapping
          by (rule wp_rand) (auto intro!: wp_now ok [OF worker best _ ex] lost [OF c'] simp: wp_ret wp_bnd c')
      qed (use qf same lost in \<open>auto\<close>)
    qed
  qed
qed (use same in \<open>auto simp: wp_fails\<close>)

end

end
