(* ===== verification/Memory.thy ===== *)
theory Memory
  imports Scan
begin

section \<open>A reference backend in memory\<close>

text \<open>
  An executable instance of the \<open>services\<close> parameter: tables as lists of items, queues as lists of
  bodies, receipt handles, a clock that stands still at 100 and a random source that counts. It follows
  the documented semantics of the requests the program makes (conditions, updates, key
  conditions, limits, index projections), so it satisfies the laws of \<open>Backend\<close>; the
  interpretations show it, and the witnesses of the development run on it.
\<close>

record mem =
  m_items :: "string \<Rightarrow> item list"
  m_queues :: "string \<Rightarrow> body list option"
  m_handles :: "string \<Rightarrow> body option"
  m_issued :: nat
  m_rand :: nat

definition lookup_item :: "Conf \<Rightarrow> mem \<Rightarrow> string \<Rightarrow> key \<Rightarrow> item option" where
  "lookup_item conf m t k = find (\<lambda>it. key_of conf t it = k) (m_items m t)"

definition remove_key :: "Conf \<Rightarrow> string \<Rightarrow> key \<Rightarrow> item list \<Rightarrow> item list" where
  "remove_key conf t k its = filter (\<lambda>it. key_of conf t it \<noteq> k) its"

definition store_item :: "Conf \<Rightarrow> string \<Rightarrow> item \<Rightarrow> mem \<Rightarrow> mem" where
  "store_item conf t it m =
     m\<lparr>m_items := (m_items m)(t := remove_key conf t (key_of conf t it) (m_items m t) @ [it])\<rparr>"

definition ccf :: goerr where
  "ccf = AwsErr ErrCodeConditionalCheckFailedException ''The conditional request failed''"

definition mem_PutItem :: "Conf \<Rightarrow> string \<Rightarrow> item \<Rightarrow> cond option \<Rightarrow> mem \<Rightarrow> mem \<times> goerr option" where
  "mem_PutItem conf t it c m =
     (if cond_ok c (lookup_item conf m t (key_of conf t it)) then (store_item conf t it m, None)
      else (m, Some ccf))"

definition mem_GetItem :: "Conf \<Rightarrow> string \<Rightarrow> item \<Rightarrow> mem \<Rightarrow> mem \<times> (goerr + item option)" where
  "mem_GetItem conf t k m = (m, Inr (lookup_item conf m t (key_of conf t k)))"

text \<open>An update that would change the key of an item is rejected.\<close>

definition mem_UpdateItem ::
  "Conf \<Rightarrow> string \<Rightarrow> item \<Rightarrow> upd \<Rightarrow> cond option \<Rightarrow> mem \<Rightarrow> mem \<times> goerr option" where
  "mem_UpdateItem conf t k u c m =
     (let cur = lookup_item conf m t (key_of conf t k);
          base = (case cur of None \<Rightarrow> k | Some it \<Rightarrow> it)
      in if \<not> cond_ok c cur then (m, Some ccf)
         else case apply_upd u base of
             None \<Rightarrow> (m, Some (AwsErr ''ValidationException'' ''ValidationException''))
           | Some it' \<Rightarrow>
               if key_of conf t it' = key_of conf t k then (store_item conf t it' m, None)
               else (m, Some (AwsErr ''ValidationException'' ''ValidationException'')))"

definition mem_DeleteItem :: "Conf \<Rightarrow> string \<Rightarrow> item \<Rightarrow> cond option \<Rightarrow> mem \<Rightarrow> mem \<times> goerr option" where
  "mem_DeleteItem conf t k c m =
     (if cond_ok c (lookup_item conf m t (key_of conf t k))
      then (m\<lparr>m_items := (m_items m)(t := remove_key conf t (key_of conf t k) (m_items m t))\<rparr>, None)
      else (m, Some ccf))"

text \<open>The stored items of a table: of two entries with the same key only the first counts.\<close>

fun stored :: "Conf \<Rightarrow> string \<Rightarrow> item list \<Rightarrow> item list" where
  "stored conf t [] = []"
| "stored conf t (it # its) = it # remove_key conf t (key_of conf t it) (stored conf t its)"

text \<open>The results of a query come in ascending order of a numeric range key.\<close>

definition range_num :: "range_cond \<Rightarrow> item \<Rightarrow> int" where
  "range_num r it =
     (let a = (case r of Range_ge a _ \<Rightarrow> a | Range_lt a _ \<Rightarrow> a | Range_begins_with a _ \<Rightarrow> a)
      in case it a of Some (AN i) \<Rightarrow> i | _ \<Rightarrow> 0)"

fun insert_by :: "('a \<Rightarrow> int) \<Rightarrow> 'a \<Rightarrow> 'a list \<Rightarrow> 'a list" where
  "insert_by f x [] = [x]"
| "insert_by f x (y # ys) = (if f x \<le> f y then x # y # ys else y # insert_by f x ys)"

definition mem_Query :: "Conf \<Rightarrow> query \<Rightarrow> mem \<Rightarrow> mem \<times> (goerr + item list)" where
  "mem_Query conf q m =
     (let found = foldr (insert_by (range_num (q_range q)))
            (filter (query_matches q) (stored conf (q_TableName q) (m_items m (q_TableName q)))) [];
          page = (case q_Limit q of None \<Rightarrow> found | Some n \<Rightarrow> take n found)
      in (m, Inr (map (projected conf (q_TableName q) (q_IndexName q)) page)))"

definition mem_ScanPage ::
  "Conf \<Rightarrow> string \<Rightarrow> item option \<Rightarrow> mem \<Rightarrow> mem \<times> (goerr + item list \<times> item option)" where
  "mem_ScanPage conf t start m = (m, Inr (stored conf t (m_items m t), None))"

definition mem_CreateQueue :: "Conf \<Rightarrow> string \<Rightarrow> mem \<Rightarrow> mem \<times> (goerr + string)" where
  "mem_CreateQueue conf n m =
     (let url = ''https://sqs.'' @ AWSRegion conf @ ''.amazonaws.com/'' @ AWSAccountID conf @ ''/'' @ n
      in case m_queues m url of
           None \<Rightarrow> (m\<lparr>m_queues := (m_queues m)(url := Some [])\<rparr>, Inr url)
         | Some _ \<Rightarrow> (m, Inr url))"

definition no_queue :: goerr where
  "no_queue = AwsErr ErrCodeQueueDoesNotExist ''The specified queue does not exist''"

definition mem_DeleteQueue :: "string \<Rightarrow> mem \<Rightarrow> mem \<times> goerr option" where
  "mem_DeleteQueue url m = (case m_queues m url of
     None \<Rightarrow> (m, Some no_queue)
   | Some _ \<Rightarrow> (m\<lparr>m_queues := (m_queues m)(url := None)\<rparr>, None))"

definition mem_SendMessage :: "string \<Rightarrow> body \<Rightarrow> mem \<Rightarrow> mem \<times> goerr option" where
  "mem_SendMessage url b m = (case m_queues m url of
     None \<Rightarrow> (m, Some no_queue)
   | Some bs \<Rightarrow> (m\<lparr>m_queues := (m_queues m)(url := Some (bs @ [b]))\<rparr>, None))"

text \<open>At most one message is handed out, under a new receipt handle.\<close>

definition mem_ReceiveMessage ::
  "string \<Rightarrow> int64 option \<Rightarrow> int64 option \<Rightarrow> int64 \<Rightarrow> mem \<Rightarrow> mem \<times> (goerr + message list)" where
  "mem_ReceiveMessage url vis wait n m = (case m_queues m url of
     None \<Rightarrow> (m, Inl no_queue)
   | Some [] \<Rightarrow> (m, Inr [])
   | Some (b # bs) \<Rightarrow>
      (let h = nat_text (m_issued m)
       in (m\<lparr>m_handles := (m_handles m)(h := Some b), m_issued := Suc (m_issued m)\<rparr>,
           Inr [\<lparr>msg_ReceiptHandle = h, msg_Body = b\<rparr>])))"

definition mem_DeleteMessage :: "string \<Rightarrow> string \<Rightarrow> mem \<Rightarrow> mem \<times> goerr option" where
  "mem_DeleteMessage url h m = (case (m_handles m h, m_queues m url) of
     (Some b, Some bs) \<Rightarrow> (m\<lparr>m_queues := (m_queues m)(url := Some (remove1 b bs))\<rparr>, None)
   | _ \<Rightarrow> (m, None))"

definition mem_rand :: "nat \<Rightarrow> mem \<Rightarrow> mem \<times> (goerr + string)" where
  "mem_rand n m = (m\<lparr>m_rand := Suc (m_rand m)\<rparr>, Inr (replicate n (char_of (m_rand m))))"

definition mem_services :: "Conf \<Rightarrow> mem services" where
  "mem_services conf =
     \<lparr>db_PutItem = mem_PutItem conf, db_GetItem = mem_GetItem conf, db_UpdateItem = mem_UpdateItem conf,
      db_DeleteItem = mem_DeleteItem conf, db_Query = mem_Query conf, db_ScanPage = mem_ScanPage conf,
      sqs_CreateQueue = mem_CreateQueue conf, sqs_DeleteQueue = mem_DeleteQueue,
      sqs_SendMessage = mem_SendMessage, sqs_ReceiveMessage = mem_ReceiveMessage,
      sqs_DeleteMessage = mem_DeleteMessage, time_Now_Unix = (\<lambda>m. (m, 100)), rand_Read = mem_rand\<rparr>"

definition mem_view :: "Conf \<Rightarrow> mem \<Rightarrow> store" where
  "mem_view conf m =
     \<lparr>tables = lookup_item conf m, queues = (\<lambda>u. map_option mset (m_queues m u)), handles = m_handles m\<rparr>"

lemmas mem_defs =
  mem_PutItem_def mem_GetItem_def mem_UpdateItem_def mem_DeleteItem_def mem_Query_def mem_ScanPage_def
  mem_CreateQueue_def mem_DeleteQueue_def mem_SendMessage_def mem_ReceiveMessage_def
  mem_DeleteMessage_def mem_rand_def

subsection \<open>The laws hold\<close>

lemma find_remove_key:
  "find (\<lambda>it. key_of conf t it = k') (remove_key conf t k its) =
     (if k' = k then None else find (\<lambda>it. key_of conf t it = k') its)"
  by (induction its) (auto simp: remove_key_def)

lemma find_append: "find P (xs @ ys) = (case find P xs of None \<Rightarrow> find P ys | Some x \<Rightarrow> Some x)"
  by (induction xs) auto

lemma lookup_other_fields [simp]:
  "lookup_item conf (m\<lparr>m_queues := q\<rparr>) = lookup_item conf m"
  "lookup_item conf (m\<lparr>m_rand := n\<rparr>) = lookup_item conf m"
  by (simp_all add: lookup_item_def fun_eq_iff)

lemma lookup_key: "lookup_item conf m t k = Some it \<Longrightarrow> key_of conf t it = k"
  by (auto simp: lookup_item_def find_Some_iff)

lemma view_store_item:
  "mem_view conf (store_item conf t it m) = set_item t (key_of conf t it) (Some it) (mem_view conf m)"
  by (simp add: mem_view_def store_item_def set_item_def lookup_item_def fun_eq_iff find_append
      find_remove_key split: option.split)

lemma view_delete_key:
  "mem_view conf (m\<lparr>m_items := (m_items m)(t := remove_key conf t k (m_items m t))\<rparr>) =
     set_item t k None (mem_view conf m)"
  by (simp add: mem_view_def set_item_def lookup_item_def fun_eq_iff find_remove_key)

lemma view_set_queue:
  "mem_view conf (m\<lparr>m_queues := (m_queues m)(url := x)\<rparr>) = set_queue url (map_option mset x) (mem_view conf m)"
  by (simp add: mem_view_def set_queue_def fun_eq_iff)

lemma tables_mem_view [simp]: "tables (mem_view conf m) = lookup_item conf m"
  and queues_mem_view [simp]: "queues (mem_view conf m) u = map_option mset (m_queues m u)"
  and handles_mem_view [simp]: "handles (mem_view conf m) = m_handles m"
  by (simp_all add: mem_view_def)

lemma view_rand [simp]: "mem_view conf (m\<lparr>m_rand := n\<rparr>) = mem_view conf m"
  by (simp add: mem_view_def)

lemma set_insert_by: "set (insert_by f x ys) = insert x (set ys)"
  by (induction ys) auto

lemma set_foldr_insert_by: "set (foldr (insert_by f) xs []) = set xs"
  by (induction xs) (simp_all add: set_insert_by)

lemma aws_code_ccf [simp]: "aws_code ccf = Some ErrCodeConditionalCheckFailedException"
  by (simp add: ccf_def)

lemma aws_code_no_queue [simp]: "aws_code no_queue = Some ErrCodeQueueDoesNotExist"
  by (simp add: no_queue_def)

lemma mem_put_law:
  "mem_PutItem conf t it c m = (m', r) \<Longrightarrow>
     write_post t (key_of conf t it) c (put_eff conf t it) (mem_view conf m) (mem_view conf m') r"
  by (auto simp: mem_PutItem_def write_post_def put_eff_def view_store_item split: if_splits)

lemma mem_update_law:
  assumes "mem_UpdateItem conf t k u c m = (m', r)"
  shows "write_post t (key_of conf t k) c (upd_eff conf t k u) (mem_view conf m) (mem_view conf m') r"
proof (cases "cond_ok c (lookup_item conf m t (key_of conf t k))")
  case False
  with assms show ?thesis by (auto simp: mem_UpdateItem_def write_post_def)
next
  case True
  with assms show ?thesis
    by (auto simp: mem_UpdateItem_def write_post_def upd_eff_def Let_def view_store_item
        ErrCodeConditionalCheckFailedException_def split: option.splits if_splits)
qed

lemma mem_delete_law:
  "mem_DeleteItem conf t k c m = (m', r) \<Longrightarrow>
     write_post t (key_of conf t k) c (del_eff conf t k) (mem_view conf m) (mem_view conf m') r"
  by (auto simp: mem_DeleteItem_def write_post_def del_eff_def view_delete_key split: if_splits)

lemma mem_send_law:
  "mem_SendMessage url b m = (m', r) \<Longrightarrow> send_post url b (mem_view conf m) (mem_view conf m') r"
  by (auto simp: mem_SendMessage_def send_post_def send_eff_def view_set_queue split: option.splits)

lemma mem_backend:
  assumes "tables_distinct conf"
  shows "backend (mem_services conf) conf (mem_view conf) (=)"
proof unfold_locales
  fix qn w w' rc
  assume "sqs_CreateQueue (mem_services conf) qn w = (w', rc)"
  then show "\<exists>v. mem_view conf w = v \<and> (case rc of
      Inr url \<Rightarrow> mem_view conf w' = create_queue url v
    | Inl e \<Rightarrow> \<exists>url. mem_view conf w' = v \<or> mem_view conf w' = create_queue url v)"
    by (auto simp: mem_services_def mem_CreateQueue_def create_queue_def Let_def view_set_queue
        split: option.splits)
next
  fix url w w' r
  assume "sqs_DeleteQueue (mem_services conf) url w = (w', r)"
  then show "\<exists>v. mem_view conf w = v \<and> (case r of
      None \<Rightarrow> queues v url \<noteq> None \<and> mem_view conf w' = set_queue url None v
    | Some e \<Rightarrow> mem_view conf w' = v \<or> mem_view conf w' = set_queue url None v)"
    by (auto simp: mem_services_def mem_DeleteQueue_def view_set_queue split: option.splits)
next
  fix url vis wait nm w w' rm
  assume "sqs_ReceiveMessage (mem_services conf) url vis wait nm w = (w', rm)"
  then have "mem_view conf w' = (mem_view conf w)\<lparr>handles := m_handles w'\<rparr>"
    by (auto simp: mem_services_def mem_ReceiveMessage_def Let_def mem_view_def lookup_item_def fun_eq_iff
        split: option.splits list.splits)
  then show "\<exists>v hs. mem_view conf w = v \<and> mem_view conf w' = v\<lparr>handles := hs\<rparr>"
    by blast
next
  fix url h w w' r
  assume "sqs_DeleteMessage (mem_services conf) url h w = (w', r)"
  then show "\<exists>v. mem_view conf w = v \<and> (case r of
      None \<Rightarrow> mem_view conf w' = remove_message url h v
    | Some e \<Rightarrow> mem_view conf w' = v \<or> mem_view conf w' = remove_message url h v)"
    by (auto simp: mem_services_def mem_DeleteMessage_def remove_message_def view_set_queue mset_remove1
        set_queue_def mem_view_def fun_eq_iff split: option.splits)
qed (use assms in \<open>auto simp: mem_services_def lookup_key mem_GetItem_def mem_Query_def mem_ScanPage_def
      mem_rand_def Let_def mem_put_law mem_update_law mem_delete_law mem_send_law\<close>)

lemma stored_found: "it \<in> set (stored conf t its) \<Longrightarrow> find (\<lambda>x. key_of conf t x = key_of conf t it) its = Some it"
  by (induction its) (auto simp: remove_key_def)

lemma mem_query_sound:
  assumes "mem_Query conf q m = (m', Inr its)" and "it \<in> set its"
  shows "\<exists>k it0. lookup_item conf m' (q_TableName q) k = Some it0 \<and> query_matches q it0 \<and>
    it = projected conf (q_TableName q) (q_IndexName q) it0"
proof -
  from assms obtain it0 where it0: "it = projected conf (q_TableName q) (q_IndexName q) it0"
    and "it0 \<in> set (foldr (insert_by (range_num (q_range q)))
      (filter (query_matches q) (stored conf (q_TableName q) (m_items m (q_TableName q)))) [])"
    by (auto simp: mem_Query_def Let_def image_iff split: option.splits dest!: in_set_takeD)
  then have "query_matches q it0" and "it0 \<in> set (stored conf (q_TableName q) (m_items m (q_TableName q)))"
    by (simp_all add: set_foldr_insert_by)
  moreover have "m' = m" using assms(1) by (simp add: mem_Query_def Let_def)
  ultimately show ?thesis
    using it0 by (auto simp: lookup_item_def dest: stored_found)
qed

lemma mem_query_limit: "mem_Query conf q m = (m', Inr its) \<Longrightarrow> q_Limit q = Some n \<Longrightarrow> length its \<le> n"
  by (auto simp: mem_Query_def Let_def)

lemma key_of_projected: "key_of conf t (projected conf t i it) = key_of conf t it"
  by (auto simp: projected_def key_of_def key_attrs_def restrict_map_def split: option.split)

lemma mset_insert_by: "mset (insert_by f x ys) = add_mset x (mset ys)"
  by (induction ys) auto

lemma mset_foldr_insert_by: "mset (foldr (insert_by f) xs []) = mset xs"
  by (induction xs) (simp_all add: mset_insert_by)

lemma distinct_stored: "distinct (map (key_of conf t) (stored conf t its))"
proof (induction its)
  case (Cons it its)
  then show ?case by (auto simp: remove_key_def intro: distinct_map_filter)
qed simp

lemma mem_query_distinct:
  assumes "mem_Query conf q m = (m', Inr its)"
  shows "distinct (map (key_of conf (q_TableName q)) its)"
proof -
  let ?t = "q_TableName q"
  let ?sel = "filter (query_matches q) (stored conf ?t (m_items m ?t))"
  let ?found = "foldr (insert_by (range_num (q_range q))) ?sel []"
  have "distinct (map (key_of conf ?t) ?sel)"
    by (intro distinct_map_filter distinct_stored)
  moreover have "mset (map (key_of conf ?t) ?found) = mset (map (key_of conf ?t) ?sel)"
    by (simp add: mset_foldr_insert_by)
  ultimately have "distinct (map (key_of conf ?t) ?found)"
    by (metis mset_eq_imp_distinct_iff)
  then have d: "distinct (map (key_of conf ?t) (case q_Limit q of None \<Rightarrow> ?found | Some n \<Rightarrow> take n ?found))"
    by (auto simp: take_map [symmetric] split: option.split)
  have "its = map (projected conf ?t (q_IndexName q)) (case q_Limit q of None \<Rightarrow> ?found | Some n \<Rightarrow> take n ?found)"
    using assms by (simp add: mem_Query_def Let_def)
  with d show ?thesis by (simp add: comp_def key_of_projected)
qed

lemma mem_receive_sound:
  "mem_ReceiveMessage url vis wait n m = (m', Inr ms) \<Longrightarrow> msg \<in> set ms \<Longrightarrow>
     \<exists>qm. queues (mem_view conf m') url = Some qm \<and> msg_Body msg \<in># qm \<and>
       m_handles m' (msg_ReceiptHandle msg) = Some (msg_Body msg)"
  by (auto simp: mem_ReceiveMessage_def Let_def split: option.splits list.splits)

lemma mem_seq_fresh_backend:
  assumes "tables_distinct conf"
  shows "seq_fresh_backend (mem_services conf) conf (mem_view conf)"
  unfolding seq_fresh_backend_def fresh_backend_def item_backend_def item_backend_axioms_def fresh_backend_axioms_def
  using mem_backend [OF assms] mem_query_sound mem_query_distinct mem_query_limit mem_receive_sound
  by (auto simp: mem_services_def mem_GetItem_def)

lemma mem_finite_scan: "finite_scan (mem_services conf) (\<lambda>k. 0)"
  by unfold_locales (simp add: mem_services_def mem_ScanPage_def)

subsection \<open>The demonstration deployment\<close>

definition demo :: Conf where
  "demo = \<lparr>Deployment = ''line'', AWSAccountID = ''1'', AWSAccessKeyID = [], AWSSecretAccessKey = [],
     AWSRegion = ''eu'', StripBaseMappings = 0, PoolTTL = 60, WorkerTTL = 60, ReplicaTTL = 60, AllocTTL = 60,
     MaxRetry = 3, ScheduleDLQueueURL = ''dlq'', PoolsTableName = ''pools'', ReplicasTableName = ''replicas'',
     ReplicasTTLIdxName = ''ttl_idx'', WorkersTTLIdxName = ''ttl_idx'', WorkersTableName = ''workers'',
     WorkersCapIdxName = ''cap_idx'', AllocsTableName = ''allocs'', AllocsTTLIdxName = ''ttl_idx''\<rparr>"

abbreviation demo_svc :: "mem services" where
  "demo_svc \<equiv> mem_services demo"

abbreviation demo_view :: "mem \<Rightarrow> store" where
  "demo_view \<equiv> mem_view demo"

definition demo_mem :: mem where
  "demo_mem = \<lparr>m_items = (\<lambda>_. []), m_queues = (\<lambda>_. None), m_handles = (\<lambda>_. None), m_issued = 0,
     m_rand = 0\<rparr>"

lemma demo_distinct: "tables_distinct demo"
  by (simp add: tables_distinct_def demo_def)

interpretation demo: seq_fresh_backend demo_svc demo demo_view
  by (rule mem_seq_fresh_backend [OF demo_distinct])

interpretation demo_scan: finite_scan demo_svc "\<lambda>k. 0"
  by (rule mem_finite_scan)

text \<open>A pool with one worker of capacity ten, and a world that holds them.\<close>

definition demo_pool :: Pool where
  "demo_pool = \<lparr>pool_PoolID = ''p'', pool_QueueURL = ''pq'', pool_TTL = 0\<rparr>"

definition demo_worker :: Worker where
  "demo_worker = \<lparr>wrk_PoolID = ''p'', wrk_WorkerID = ''w1'', wrk_Capacity = 10, wrk_QueueURL = ''wq'',
     wrk_TTL = 200\<rparr>"

definition demo_eval :: Eval where
  "demo_eval = \<lparr>Dataset = [], Size = 3, Retry = 0\<rparr>"

definition demo_world :: mem where
  "demo_world = demo_mem\<lparr>m_items := (\<lambda>_. [])(''pools'' := [marshal_Pool demo_pool],
     ''workers'' := [marshal_Worker demo_worker])\<rparr>"

lemma replicate_10: "replicate 10 x = [x, x, x, x, x, x, x, x, x, x]"
  by (simp add: numeral_eq_Suc)

text \<open>The equations with which the simplifier runs the backend on the demonstration worlds.\<close>

lemmas mem_run =
  mem_services_def mem_defs demo_def demo_mem_def demo_world_def demo_pool_def demo_worker_def demo_eval_def
  marshal_defs unmarshal_defs enc_string_def enc_int64_def query_matches_def key_of_def key_attrs_def
  projected_def remove_key_def Let_def aget_def restrict_map_def lookup_item_def cond_ok_def store_item_def
  num_upd_def hex_digit_def range_num_def replicate_10 UnmarshalTypeError_def

end
