(* ===== verification/Schedule_Proofs.thy ===== *)
theory Schedule_Proofs
  imports Schedule Memory
begin

section \<open>Correctness of scheduling\<close>

text \<open>
  The effect of one scheduling message on the store, the invariant that no capacity becomes
  negative (with any other actors and any staleness of the reads), and the loops around it.
\<close>

subsection \<open>The work on one message\<close>

text \<open>
  The store after a scheduling message was worked off: the capacity is claimed, the allocation
  stored, the worker told, and the message removed from the pool's queue.
\<close>

definition scheduled :: "Conf \<Rightarrow> Pool \<Rightarrow> string \<Rightarrow> Eval \<Rightarrow> Alloc \<Rightarrow> store \<Rightarrow> store \<Rightarrow> bool" where
  "scheduled conf pool h eval alloc v v' \<longleftrightarrow> (\<exists>v1 m.
     claimed conf (alloc_PoolID alloc) (alloc_WorkerID alloc) (sint (Size eval)) v v1 \<and>
     alloc_at conf v (alloc_PoolID alloc) (alloc_AllocID alloc) = None \<and>
     alloc_Eval alloc = Some (eval\<lparr>Retry := Retry eval + 1\<rparr>) \<and>
     queues v (FmtWorkerQueueURL conf (pool_PoolID pool) (alloc_WorkerID alloc)) = Some m \<and>
     v' = remove_message (pool_QueueURL pool) h
       (set_queue (FmtWorkerQueueURL conf (pool_PoolID pool) (alloc_WorkerID alloc))
         (Some (add_mset (alloc_message pool alloc) m))
         (set_alloc conf (alloc_PoolID alloc) (alloc_AllocID alloc) (Some (marshal_Alloc alloc)) v1)))"

text \<open>
  How far an attempt that ended with an error can have got: nowhere, to the claim, or to the
  stored allocation. In the last case the messages to the worker and the removal may be lost or
  not; before it the pool's queue is as it was.
\<close>

definition attempted :: "Conf \<Rightarrow> Eval \<Rightarrow> store \<Rightarrow> store \<Rightarrow> bool" where
  "attempted conf eval v v' \<longleftrightarrow>
     v' = v \<or> (\<exists>p k. claimed conf p k (sint (Size eval)) v v') \<or>
     (\<exists>alloc v1. claimed conf (alloc_PoolID alloc) (alloc_WorkerID alloc) (sint (Size eval)) v v1 \<and>
        alloc_Eval alloc = Some (eval\<lparr>Retry := Retry eval + 1\<rparr>) \<and>
        alloc_at conf v (alloc_PoolID alloc) (alloc_AllocID alloc) = None \<and>
        tables v' = tables (set_alloc conf (alloc_PoolID alloc) (alloc_AllocID alloc) (Some (marshal_Alloc alloc)) v1))"

lemma attempted_same [simp]: "attempted conf eval v v"
  by (simp add: attempted_def)

lemma attempted_claimed: "claimed conf p k (sint (Size eval)) v v' \<Longrightarrow> attempted conf eval v v'"
  by (auto simp: attempted_def)

lemma claimed_queues: "claimed conf p k n v v' \<Longrightarrow> queues v' = queues v \<and> handles v' = handles v"
  by (auto simp: claimed_def)

lemma claimed_other_table:
  "claimed conf p k n v v' \<Longrightarrow> t \<noteq> WorkersTableName conf \<Longrightarrow> tables v' t = tables v t"
  by (auto simp: claimed_def)

context seq_backend
begin

lemma wp_FindReplicas:
  assumes "\<And>w' r. view w' = view w \<Longrightarrow> Q w' (Ret r)" and "\<And>w' e. view w' = view w \<Longrightarrow> Q w' (Fail e)"
  shows "wp (FindReplicas conf svc eval pool) Q w"
proof -
  have k: "keeps (\<lambda>w'. view w' = view w) (FindReplicas conf svc eval pool)"
    unfolding FindReplicas_def
    by (intro keeps_rules keeps_live_replicas keeps_reads keeps_call) (auto dest: now query)
  have "panic_free (live_replicas svc its acc)" for its acc
    by (induction its arbitrary: acc) (auto intro!: panic_rules split: sum.split)
  then have "panic_free (FindReplicas conf svc eval pool)"
    unfolding FindReplicas_def by (intro panic_rules)
  then show ?thesis
    using k assms keepsD [OF k refl, of] panic_freeD
    by (cases "FindReplicas conf svc eval pool w"; cases "snd (FindReplicas conf svc eval pool w)")
       (fastforce simp: wp_def)+
qed

lemma wp_ack:
  assumes "\<And>w'. view w' = remove_message url h (view w) \<Longrightarrow> Q w' (Ret ())"
    and "\<And>w' e. view w' = view w \<Longrightarrow> Q w' (Fail e)"
    and "\<And>w' e. view w' = remove_message url h (view w) \<Longrightarrow> Q w' (Fail e)"
  shows "wp (call0 (sqs_DeleteMessage svc url h)) Q w"
  using assms by (intro wp_call0I) (auto dest!: ack)

text \<open>The tail of the work: store the allocation, tell the worker, remove the message.\<close>

lemma wp_publish:
  assumes c: "claimed conf (alloc_PoolID alloc) (alloc_WorkerID alloc) (sint (Size eval)) v (view w)"
    and e: "alloc_Eval alloc = Some (eval\<lparr>Retry := Retry eval + 1\<rparr>)"
    and ok: "\<And>w'. scheduled conf pool h eval alloc v (view w') \<Longrightarrow> Q w' (Ret ())"
    and err: "\<And>w' x. attempted conf eval v (view w') \<Longrightarrow> Q w' (Fail x)"
  shows "wp (bnd (PutNewAlloc conf svc alloc) (\<lambda>_.
     bnd (call0 (sqs_SendMessage svc (FmtWorkerQueueURL conf (pool_PoolID pool) (alloc_WorkerID alloc))
            (alloc_message pool alloc))) (\<lambda>_.
     call0 (sqs_DeleteMessage svc (pool_QueueURL pool) h)))) Q w"
proof -
  let ?a = "(alloc_PoolID alloc)" and ?i = "(alloc_AllocID alloc)"
  let ?u = "FmtWorkerQueueURL conf (pool_PoolID pool) (alloc_WorkerID alloc)"
  have allocs: "alloc_at conf (view w) ?a ?i = alloc_at conf v ?a ?i" and q: "queues (view w) = queues v"
    using claimed_other_table [OF c] claimed_queues [OF c] table_names by simp_all
  have just_claimed: "view w' = view w \<Longrightarrow> Q w' (Fail x)" for w' x
    using c by (intro err) (auto simp: attempted_def)
  have stored: "alloc_at conf v ?a ?i = None \<Longrightarrow>
      tables (view w') = tables (set_alloc conf ?a ?i (Some (marshal_Alloc alloc)) (view w)) \<Longrightarrow> Q w' (Fail x)" for w' x
    using c e by (intro err) (unfold attempted_def, blast)
  show ?thesis
    unfolding wp_bnd
  proof (rule wp_PutNewAlloc, goal_cases)
    case (1 w1)
    note put = 1
    show ?case
      unfolding outcome.case wp_bnd
    proof (rule wp_send, goal_cases)
      case (1 w2 m)
      with put c e allocs q show ?case
        unfolding outcome.case
        by (intro wp_ack ok stored) (auto simp: scheduled_def)
    qed (use put allocs in \<open>auto intro!: stored\<close>)
  qed (use allocs in \<open>auto intro: just_claimed stored\<close>)
qed

text \<open>One message, by its results.\<close>

lemma wp_schedule_eval:
  assumes ok: "\<And>w' alloc. scheduled conf pool h eval alloc (view w) (view w') \<Longrightarrow> Q w' (Ret ())"
    and err: "\<And>w' e. attempted conf eval (view w) (view w') \<Longrightarrow> Q w' (Fail e)"
  shows "wp (schedule_eval conf svc pool h eval) Q w"
proof -
  have tail: "wp (bnd (Schedule conf svc eval pool replicas) (\<lambda>alloc.
     bnd (PutNewAlloc conf svc alloc) (\<lambda>_.
     bnd (call0 (sqs_SendMessage svc (FmtWorkerQueueURL conf (pool_PoolID pool) (alloc_WorkerID alloc))
            (alloc_message pool alloc))) (\<lambda>_.
     call0 (sqs_DeleteMessage svc (pool_QueueURL pool) h))))) Q w1"
    if "view w1 = view w" for replicas w1
    unfolding wp_bnd [of "Schedule conf svc eval pool replicas"]
  proof (rule wp_Schedule, goal_cases)
    case (1 w' found worker idb now)
    then show ?case
      unfolding outcome.case
      by (intro wp_publish [where v = "view w" and eval = eval] ok err) (simp_all add: that)
  qed (use that in \<open>auto intro!: err intro: attempted_claimed\<close>)
  show ?thesis
    unfolding schedule_eval_def
    by (auto simp: wp_bnd [of "FindReplicas conf svc eval pool"]
        intro!: tail wp_FindReplicas err)
qed

end

subsection \<open>No capacity becomes negative\<close>

definition caps_nonneg :: "Conf \<Rightarrow> store \<Rightarrow> bool" where
  "caps_nonneg conf v \<longleftrightarrow>
     (\<forall>k it c. tables v (WorkersTableName conf) k = Some it \<longrightarrow> it ''cap'' = Some (AN c) \<longrightarrow> 0 \<le> c)"

lemma caps_nonneg_cong:
  "tables v' (WorkersTableName conf) = tables v (WorkersTableName conf) \<Longrightarrow> caps_nonneg conf v' = caps_nonneg conf v"
  by (simp add: caps_nonneg_def)

lemma caps_nonneg_claimed: "caps_nonneg conf v \<Longrightarrow> claimed conf p k n v v' \<Longrightarrow> caps_nonneg conf v'"
  by (auto simp: caps_nonneg_def claimed_def split: if_splits)

lemma caps_nonneg_other:
  assumes "tables_distinct conf"
  shows "caps_nonneg conf (set_pool conf p x v) = caps_nonneg conf v"
    and "caps_nonneg conf (set_alloc conf p a x v) = caps_nonneg conf v"
    and "caps_nonneg conf (set_replica conf p r x v) = caps_nonneg conf v"
    and "caps_nonneg conf (set_queue u q v) = caps_nonneg conf v"
    and "caps_nonneg conf (create_queue u v) = caps_nonneg conf v"
    and "caps_nonneg conf (remove_message u h v) = caps_nonneg conf v"
    and "caps_nonneg conf (v\<lparr>handles := hs\<rparr>) = caps_nonneg conf v"
  using tables_neq [OF assms] by (auto intro!: caps_nonneg_cong)

lemma caps_nonneg_send: "send_eff u b v = Some v' \<Longrightarrow> caps_nonneg conf v' = caps_nonneg conf v"
  by (auto intro!: caps_nonneg_cong simp: tables_send_eff)

context backend
begin

lemma keeps_schedule_eval:
  assumes s: "stable (caps_nonneg conf) rely"
  shows "keeps (holds (caps_nonneg conf)) (schedule_eval conf svc pool h eval)"
  unfolding schedule_eval_def FindReplicas_def Schedule_def
  by (intro keeps_rules keeps_reads_of_view keeps_send keeps_ack s)
     (auto intro!: keeps_rules keeps_reads_of_view s intro: caps_nonneg_claimed
        simp: caps_nonneg_other [OF conf_tables] caps_nonneg_send split: list.split)

lemma keeps_round:
  assumes s: "stable (caps_nonneg conf) rely"
  shows "keeps (holds (caps_nonneg conf)) (ReceiveEvals_round conf svc pool)"
  unfolding ReceiveEvals_round_def schedule_msg_def
  by (intro keeps_rules keeps_receive keeps_schedule_eval s) (simp add: caps_nonneg_other [OF conf_tables])

end

lemma rounds_invariant:
  assumes "keeps I (ReceiveEvals_round conf svc pool)" and "I w" and "rounds conf svc pool n w = Some w'"
  shows "I w'"
  using assms(2,3)
proof (induction n arbitrary: w)
  case 0
  then show ?case by simp
next
  case (Suc n)
  then show ?case
    using keepsD [OF assms(1)] by (auto split: prod.splits outcome.splits)
qed

text \<open>
  The unbounded loop and its rounds: it ends exactly when some round ends with an error, and its
  result is that of this round.
\<close>

lemma ReceiveEvals_ends_imp:
  assumes "ReceiveEvals conf svc pool w = Some (w', r)"
  shows "\<exists>n w1. rounds conf svc pool n w = Some w1 \<and> ReceiveEvals_round conf svc pool w1 = (w', r) \<and> r \<noteq> Ret ()"
proof -
  let ?P = "\<lambda>c0 s0 p0 w res. c0 = conf \<and> s0 = svc \<and> p0 = pool \<longrightarrow> (\<exists>n w1. rounds conf svc pool n w = Some w1 \<and>
    ReceiveEvals_round conf svc pool w1 = res \<and> snd res \<noteq> Ret ())"
  have "?P conf svc pool w (w', r)"
  proof (rule ReceiveEvals.raw_induct [where P = ?P, OF _ assms])
    fix f c0 s0 p0 w res
    assume IH: "\<And>c0 s0 p0 w res. f c0 s0 p0 w = Some res \<Longrightarrow> ?P c0 s0 p0 w res"
      and eq: "(case ReceiveEvals_round c0 s0 p0 w of (w', Ret x) \<Rightarrow> f c0 s0 p0 w'
        | (w', Fail e) \<Rightarrow> Some (w', Fail e) | (w', Panic) \<Rightarrow> Some (w', Panic)) = Some res"
    show "?P c0 s0 p0 w res"
    proof
      assume same: "c0 = conf \<and> s0 = svc \<and> p0 = pool"
      obtain w1 x where r1: "ReceiveEvals_round conf svc pool w = (w1, x)" by fastforce
      show "\<exists>n w1. rounds conf svc pool n w = Some w1 \<and> ReceiveEvals_round conf svc pool w1 = res \<and> snd res \<noteq> Ret ()"
      proof (cases x)
        case (Ret u)
        with eq same r1 IH [of conf svc pool w1 res] obtain n w2 where
          "rounds conf svc pool n w1 = Some w2" "ReceiveEvals_round conf svc pool w2 = res" "snd res \<noteq> Ret ()"
          by auto
        with r1 Ret have "rounds conf svc pool (Suc n) w = Some w2" by simp
        with \<open>ReceiveEvals_round conf svc pool w2 = res\<close> \<open>snd res \<noteq> Ret ()\<close> show ?thesis by blast
      qed (use eq same r1 in \<open>auto intro!: exI [of _ "0 :: nat"]\<close>)
    qed
  qed
  then show ?thesis by simp
qed

lemma ReceiveEvals_ends_if:
  assumes "rounds conf svc pool n w = Some w1" and "ReceiveEvals_round conf svc pool w1 = (w', r)" and "r \<noteq> Ret ()"
  shows "ReceiveEvals conf svc pool w = Some (w', r)"
  using assms(1)
proof (induction n arbitrary: w)
  case 0
  with assms(2,3) show ?case
    by (subst ReceiveEvals.simps) (auto split: outcome.split)
next
  case (Suc n)
  then show ?case
    by (subst ReceiveEvals.simps) (auto split: prod.splits outcome.splits)
qed

lemma spawn_pools_append: "spawn_pools (xs @ ys) a = spawn_pools ys (spawn_pools xs a)"
  by (induction xs arbitrary: a) (auto split: sum.split)

lemma spawn_pools_filter:
  "spawn_pools its started = started @ filter (\<lambda>p. sint (pool_TTL p) \<le> 0) (items_of unmarshal_Pool its)"
  by (induction its arbitrary: started) (auto split: sum.split)

text \<open>A round ends with an error only when receiving fails: the loop over the messages never does.\<close>

lemma panic_free_live_replicas [panic_rules]: "panic_free (live_replicas svc its acc)"
  by (induction its arbitrary: acc) (auto intro!: panic_rules split: sum.split)

lemma panic_free_live_workers [panic_rules]: "panic_free (live_workers svc its acc)"
  by (induction its arbitrary: acc) (auto intro!: panic_rules split: sum.split)

lemma panic_free_schedule_eval [panic_rules]: "panic_free (schedule_eval conf svc pool h eval)"
  unfolding schedule_eval_def FindReplicas_def Schedule_def claim_def PutNewAlloc_def cond_failed_as_def
  by (intro panic_rules) (auto intro!: panic_rules split: list.split)

lemma schedule_msg_returns: "snd (schedule_msg conf svc pool msg w) = Ret ()"
  unfolding schedule_msg_def by (rule logged_returns) (intro panic_rules)

lemma round_result:
  "snd (ReceiveEvals_round conf svc pool w) = (case snd (sqs_ReceiveMessage svc (pool_QueueURL pool) (Some 1) None 1 w) of
     Inl e \<Rightarrow> Fail e | Inr msgs \<Rightarrow> Ret ())"
  using each_returns [of _ "schedule_msg conf svc pool"] schedule_msg_returns [of conf svc pool]
  by (auto simp: ReceiveEvals_round_def bnd_def call_def split: prod.splits sum.splits)

subsection \<open>Placed evaluations\<close>

text \<open>
  The evaluation has moved to a stored allocation, with its retry count raised by one, and its size
  was taken from the capacity of the allocation's worker.
\<close>

definition placed :: "Conf \<Rightarrow> Eval \<Rightarrow> store \<Rightarrow> store \<Rightarrow> bool" where
  "placed conf eval v v' \<longleftrightarrow> (\<exists>alloc c.
     alloc_at conf v (alloc_PoolID alloc) (alloc_AllocID alloc) = None \<and>
     alloc_at conf v' (alloc_PoolID alloc) (alloc_AllocID alloc) = Some (marshal_Alloc alloc) \<and>
     alloc_Eval alloc = Some (eval\<lparr>Retry := Retry eval + 1\<rparr>) \<and>
     cap_of conf v (alloc_PoolID alloc) (alloc_WorkerID alloc) = Some c \<and> sint (Size eval) \<le> c \<and>
     cap_of conf v' (alloc_PoolID alloc) (alloc_WorkerID alloc) = Some (c - sint (Size eval)))"

lemma scheduled_placed:
  assumes "tables_distinct conf" and "scheduled conf pool h eval alloc v v'"
  shows "placed conf eval v v'"
proof -
  from assms(2) obtain v1 where c: "claimed conf (alloc_PoolID alloc) (alloc_WorkerID alloc) (sint (Size eval)) v v1"
    and t: "tables v' = tables (set_alloc conf (alloc_PoolID alloc) (alloc_AllocID alloc) (Some (marshal_Alloc alloc)) v1)"
    and a: "alloc_Eval alloc = Some (eval\<lparr>Retry := Retry eval + 1\<rparr>)"
      "alloc_at conf v (alloc_PoolID alloc) (alloc_AllocID alloc) = None"
    by (auto simp: scheduled_def)
  with claimed_cap(1) [OF c] tables_neq [OF assms(1)] show ?thesis
    unfolding placed_def by (intro exI [of _ alloc]) (auto simp: cap_of_def)
qed

lemma attempted_placed:
  assumes "tables_distinct conf" and "attempted conf eval v v'" and "queues v' u \<noteq> queues v u"
  shows "placed conf eval v v'"
proof -
  from assms(2,3) obtain alloc v1 where c: "claimed conf (alloc_PoolID alloc) (alloc_WorkerID alloc) (sint (Size eval)) v v1"
    and t: "tables v' = tables (set_alloc conf (alloc_PoolID alloc) (alloc_AllocID alloc) (Some (marshal_Alloc alloc)) v1)"
    and a: "alloc_Eval alloc = Some (eval\<lparr>Retry := Retry eval + 1\<rparr>)"
      "alloc_at conf v (alloc_PoolID alloc) (alloc_AllocID alloc) = None"
    by (auto simp: attempted_def dest: claimed_queues)
  with claimed_cap(1) [OF c] tables_neq [OF assms(1)] show ?thesis
    unfolding placed_def by (intro exI [of _ alloc]) (auto simp: cap_of_def)
qed

end
