(* ===== verification/Schedule_Properties.thy ===== *)
theory Schedule_Properties
  imports Schedule_Proofs
begin

section \<open>Properties of scheduling\<close>

text \<open>
  The claims about \<open>handle_schedule.go\<close>, each with a run on the backend in memory that shows its
  hypotheses hold.
\<close>

subsection \<open>Runs on the demonstration worlds\<close>

lemmas schedule_run =
  prog_run mem_run capacity_query_def replica_query_def sort_Slice_def insertionSort_def claim_def
  Worker_PK_def new_alloc_def Schedule_def schedule_eval_def schedule_msg_def normal_size_def
  ReceiveEvals_round_def PutNewAlloc_def cond_failed_as_def naming_defs alloc_message_def json_Unmarshal_def
  to_json_defs of_json_defs find_field_def

text \<open>A world in which the pool's queue holds one scheduling message and the worker's queue is empty.\<close>

definition busy_world :: mem where
  "busy_world = demo_world\<lparr>m_queues := [''pq'' \<mapsto> [Some (json_of_Eval demo_eval)],
     ''https://sqs.eu.amazonaws.com/1/line-p-w1'' \<mapsto> []]\<rparr>"

lemma demo_world_caps: "caps_nonneg demo (demo_view demo_world)" "caps_nonneg demo (demo_view busy_world)"
  by (auto simp: caps_nonneg_def busy_world_def mem_run mem_view_def)

text \<open>The same world after the message was received under the handle \<open>0\<close>.\<close>

definition received_world :: mem where
  "received_world = busy_world\<lparr>m_handles := [''0'' \<mapsto> Some (json_of_Eval demo_eval)]\<rparr>"

lemma received_run:
  "\<exists>w'. schedule_eval demo demo_svc demo_pool ''0'' demo_eval received_world = (w', Ret ())"
  by (simp add: received_world_def busy_world_def schedule_run)

lemma received_msg_run:
  "\<exists>w'. schedule_msg demo demo_svc demo_pool \<lparr>msg_ReceiptHandle = ''0'', msg_Body = Some (json_of_Eval demo_eval)\<rparr>
       received_world = (w', Ret ()) \<and> queues (demo_view w') ''pq'' \<noteq> queues (demo_view received_world) ''pq''"
  by (simp add: received_world_def busy_world_def schedule_run)

subsection \<open>Capacity and placement\<close>

text \<open>
  C8: No number of scheduling rounds makes a capacity negative, however stale the queries are
  and whatever other schedulers do in between: the conditional claim never takes more than is
  left.
\<close>

theorem capacity_never_negative:
  assumes "backend svc conf view rely" and "stable (caps_nonneg conf) rely"
    and "caps_nonneg conf (view w)" and "rounds conf svc pool n w = Some w'"
  shows "caps_nonneg conf (view w')"
  using rounds_invariant [OF backend.keeps_round [OF assms(1,2)] assms(3,4)] .

theorem capacity_never_negative_witness:
  "\<exists>w'. rounds demo demo_svc demo_pool 1 busy_world = Some w' \<and>
     cap_of demo (demo_view w') ''p'' ''w1'' = Some 7 \<and> caps_nonneg demo (demo_view w')"
proof -
  have "\<exists>w'. rounds demo demo_svc demo_pool 1 busy_world = Some w' \<and>
     cap_of demo (demo_view w') ''p'' ''w1'' = Some 7"
    by (simp add: busy_world_def schedule_run cap_of_def mem_view_def sub_key_def)
  then obtain w' where w': "rounds demo demo_svc demo_pool 1 busy_world = Some w'"
    "cap_of demo (demo_view w') ''p'' ''w1'' = Some 7"
    by blast
  moreover from w'(1) have "caps_nonneg demo (demo_view w')"
    by (rule capacity_never_negative [OF demo.backend_axioms stable_eq demo_world_caps(2)])
  ultimately show ?thesis by blast
qed

text \<open>
  C15: The store after the work on one decoded message, by its result: on success the capacity
  is claimed, the allocation stored, the worker told and the message removed; on an error
  nothing happened, or only the claim, or the claim and the allocation; it never panics. Nobody
  else writes to the store meanwhile.
\<close>

theorem schedule_eval_effect:
  assumes "seq_backend svc conf view" and "schedule_eval conf svc pool h eval w = (w', r)"
  shows "case r of
     Ret _ \<Rightarrow> \<exists>alloc. scheduled conf pool h eval alloc (view w) (view w')
   | Fail e \<Rightarrow> attempted conf eval (view w) (view w')
   | Panic \<Rightarrow> False"
  by (rule wp_run [OF seq_backend.wp_schedule_eval [OF assms(1)] assms(2)]) auto

theorem schedule_eval_effect_witness:
  "\<exists>w' alloc. scheduled demo demo_pool ''0'' demo_eval alloc (demo_view received_world) (demo_view w')"
proof -
  obtain w' where "schedule_eval demo demo_svc demo_pool ''0'' demo_eval received_world = (w', Ret ())"
    using received_run by blast
  from schedule_eval_effect [OF demo.seq_backend_axioms this] show ?thesis by auto
qed

text \<open>
  C9: If working on a scheduling message changes any queue (in particular if the message is
  removed from the pool queue), then the message decodes to an evaluation that is now stored in
  a new allocation with its retry count raised by one, and its size was taken from the capacity
  of that worker. Nobody else writes to the store meanwhile.
\<close>

theorem no_eval_lost:
  assumes "seq_backend svc conf view" and "schedule_msg conf svc pool msg w = (w', r)"
    and "queues (view w') u \<noteq> queues (view w) u"
  shows "\<exists>eval. json_Unmarshal Eval_of_json (msg_Body msg) = Inr eval \<and> placed conf (normal_size eval) (view w) (view w')"
proof -
  have d: "tables_distinct conf" by (rule backend.conf_tables [OF seq_backend.is_backend [OF assms(1)]])
  have "wp (schedule_msg conf svc pool msg) (\<lambda>w' r. queues (view w') u \<noteq> queues (view w) u \<longrightarrow>
     (\<exists>eval. json_Unmarshal Eval_of_json (msg_Body msg) = Inr eval \<and> placed conf (normal_size eval) (view w) (view w'))) w"
    unfolding schedule_msg_def wp_logged wp_bnd wp_of_sum
    by (auto split: sum.split intro!: seq_backend.wp_schedule_eval [OF assms(1)]
        intro: scheduled_placed [OF d] attempted_placed [OF d])
  from wp_run [OF this assms(2)] assms(3) show ?thesis by simp
qed

theorem no_eval_lost_witness:
  "\<exists>w' eval. json_Unmarshal Eval_of_json (Some (json_of_Eval demo_eval)) = Inr eval \<and>
     placed demo (normal_size eval) (demo_view received_world) (demo_view w')"
proof -
  obtain w' where "schedule_msg demo demo_svc demo_pool
      \<lparr>msg_ReceiptHandle = ''0'', msg_Body = Some (json_of_Eval demo_eval)\<rparr> received_world = (w', Ret ())"
    "queues (demo_view w') ''pq'' \<noteq> queues (demo_view received_world) ''pq''"
    using received_msg_run by blast
  from no_eval_lost [OF demo.seq_backend_axioms this] show ?thesis by auto
qed

subsection \<open>The loops\<close>

text \<open>
  C22: The receive loop of a pool ends if and only if some receive fails after a finite number
  of rounds, and then it returns that error; no message makes it end.
\<close>

theorem receive_evals_ends:
  "ReceiveEvals conf svc pool w = Some (w', r) \<longleftrightarrow>
     (\<exists>n w1 e. rounds conf svc pool n w = Some w1 \<and>
        sqs_ReceiveMessage svc (pool_QueueURL pool) (Some 1) None 1 w1 = (w', Inl e) \<and> r = Fail e)"
proof -
  have fail: "ReceiveEvals_round conf svc pool w1 = (w', r) \<and> r \<noteq> Ret () \<longleftrightarrow>
      (\<exists>e. sqs_ReceiveMessage svc (pool_QueueURL pool) (Some 1) None 1 w1 = (w', Inl e) \<and> r = Fail e)" for w1
    using round_result [of conf svc pool w1]
    by (cases "sqs_ReceiveMessage svc (pool_QueueURL pool) (Some 1) None 1 w1")
       (auto simp: ReceiveEvals_round_def bnd_def call_def split: sum.splits)
  have "ReceiveEvals conf svc pool w = Some (w', r) \<longleftrightarrow>
      (\<exists>n w1. rounds conf svc pool n w = Some w1 \<and> ReceiveEvals_round conf svc pool w1 = (w', r) \<and> r \<noteq> Ret ())"
    using ReceiveEvals_ends_imp ReceiveEvals_ends_if by metis
  with fail show ?thesis by metis
qed


theorem handle_schedule_result:
  "HandleSchedule conf svc w = Some (w', started, e) \<longleftrightarrow>
     (\<exists>its err. pages svc (PoolsTableName conf) None w w' its err \<and>
        started = filter (\<lambda>p. sint (pool_TTL p) \<le> 0) (items_of unmarshal_Pool its) \<and>
        e = (case err of Some x \<Rightarrow> Returns x | None \<Rightarrow> BlocksForever))"
proof -
  have fwd: "ScanPages svc (PoolsTableName conf) (\<lambda>its started w. (w, spawn_pools its started)) None [] w =
      Some (w', filter (\<lambda>p. sint (pool_TTL p) \<le> 0) (items_of unmarshal_Pool its), err)"
    if "pages svc (PoolsTableName conf) None w w' its err" for its err w'
    using pages_ScanPages [OF that, where g = spawn_pools and acc = "[]"] spawn_pools_append
    by (simp add: spawn_pools_filter)
  show ?thesis
  proof
    assume "HandleSchedule conf svc w = Some (w', started, e)"
    then obtain err where s: "ScanPages svc (PoolsTableName conf) (\<lambda>its started w. (w, spawn_pools its started)) None [] w =
        Some (w', started, err)" and e: "e = (case err of Some x \<Rightarrow> Returns x | None \<Rightarrow> BlocksForever)"
      by (auto simp: HandleSchedule_def)
    with ScanPages_pages [OF s] fwd show "\<exists>its err. pages svc (PoolsTableName conf) None w w' its err \<and>
        started = filter (\<lambda>p. sint (pool_TTL p) \<le> 0) (items_of unmarshal_Pool its) \<and>
        e = (case err of Some x \<Rightarrow> Returns x | None \<Rightarrow> BlocksForever)"
      by (metis option.inject prod.inject)
  qed (auto simp: HandleSchedule_def dest: fwd)
qed

theorem handle_schedule_ends:
  assumes "finite_scan svc rank"
  shows "\<exists>w' started e. HandleSchedule conf svc w = Some (w', started, e)"
  using finite_scan.ScanPages_ends [OF assms, of "PoolsTableName conf" "\<lambda>its started w. (w, spawn_pools its started)" None "[]" w]
  by (auto simp: HandleSchedule_def)

theorem handle_schedule_ends_witness:
  "\<exists>w' started e. HandleSchedule demo demo_svc demo_world = Some (w', started, e)"
  by (rule handle_schedule_ends [OF demo_scan.finite_scan_axioms])

subsection \<open>The choice of a worker\<close>

text \<open>An evaluation that no worker has capacity for.\<close>

definition large_eval :: Eval where
  "large_eval = \<lparr>Dataset = [], Size = 11, Retry = 0\<rparr>"

text \<open>
  C16: A scheduled allocation is for a worker of the query result that was live when the clock
  was read for it (once for each worker, in order), and no worker of the result that was live at
  its own reading has a higher capacity; the allocation is dated by a last reading of the clock.
  Nothing is assumed of the clock or of the services.
\<close>

theorem schedule_picks_best:
  assumes run: "Schedule conf svc eval pool replicas w = (w', Ret alloc)"
  shows "\<exists>w1 its ks w2 ts worker idb w3 now. db_Query svc (capacity_query conf eval pool) w = (w1, Inr its) \<and>
     ks = items_of unmarshal_Worker its \<and> clock_readings svc (length ks) w1 = (w2, ts) \<and>
     worker \<in> set (alive_at wrk_TTL ks ts) \<and>
     (\<forall>k \<in> set (alive_at wrk_TTL ks ts). sint (wrk_Capacity k) \<le> sint (wrk_Capacity worker)) \<and>
     time_Now_Unix svc w3 = (w', now) \<and> alloc = new_alloc conf eval worker idb now"
proof -
  obtain w1 x where q: "db_Query svc (capacity_query conf eval pool) w = (w1, x)" by fastforce
  with run obtain its where x: "x = Inr its"
    by (cases x) (auto simp: Schedule_def wrapping_def on_err_def bnd_def call_def fails_def)
  let ?ks = "items_of unmarshal_Worker its"
  obtain w2 ts where ts: "clock_readings svc (length ?ks) w1 = (w2, ts)" by fastforce
  let ?found = "alive_at wrk_TTL ?ks ts"
  have live: "live_workers svc its [] w1 = (w2, Ret ?found)"
    using live_workers_readings [of svc its "[]" w1] by (simp add: ts)
  have tail: "Schedule conf svc eval pool replicas w = (case sort_Slice by_capacity ?found of
       [] \<Rightarrow> fails NotEnoughCapacity
     | worker # _ \<Rightarrow>
         bnd (claim conf svc eval worker) (\<lambda>_.
         bnd (wrapping ''failed to generate random alloc id'' (call (rand_Read svc 10))) (\<lambda>idb.
         bnd (reads (time_Now_Unix svc)) (\<lambda>now.
         ret (new_alloc conf eval worker idb now))))) w2"
    by (simp add: Schedule_def bnd_def wrapping_def on_err_def call_def q x live)
  show ?thesis
  proof (cases "sort_Slice by_capacity ?found")
    case Nil
    with tail run show ?thesis by (simp add: fails_def)
  next
    case (Cons worker rest)
    from Cons have ne: "?found \<noteq> []"
      by (metis length_0_conv length_sort_Slice list.distinct(1))
    from Cons have "worker \<in> set ?found"
      using set_sort_Slice [of by_capacity ?found] by auto
    moreover have "\<forall>k \<in> set ?found. sint (wrk_Capacity k) \<le> sint (wrk_Capacity worker)"
      using by_capacity.sort_Slice_head [OF ne] Cons by (simp add: by_capacity_def)
    moreover have "\<exists>idb w3 now. time_Now_Unix svc w3 = (w', now) \<and> alloc = new_alloc conf eval worker idb now"
      using tail run Cons
      by (fastforce simp: bnd_def ret_def reads_def split: prod.splits outcome.splits)
    ultimately show ?thesis using q x ts by blast
  qed
qed

theorem schedule_picks_best_witness:
  "\<exists>w1 its ts worker. mem_Query demo (capacity_query demo demo_eval demo_pool) demo_world = (w1, Inr its) \<and>
     worker \<in> set (alive_at wrk_TTL (items_of unmarshal_Worker its) ts) \<and>
     (\<forall>k \<in> set (alive_at wrk_TTL (items_of unmarshal_Worker its) ts). sint (wrk_Capacity k) \<le> sint (wrk_Capacity worker))"
proof -
  have "\<exists>w' alloc. Schedule demo demo_svc demo_eval demo_pool [] demo_world = (w', Ret alloc)"
    by (simp add: schedule_run)
  then obtain w' alloc where
    "Schedule demo demo_svc demo_eval demo_pool [] demo_world = (w', Ret alloc)"
    by blast
  from schedule_picks_best [OF this] show ?thesis
    by (auto simp: mem_services_def)
qed

theorem schedule_refuses:
  assumes b: "seq_backend svc conf view"
    and q: "db_Query svc (capacity_query conf eval pool) w = (w1, Inr its)"
    and none: "clock_readings svc (length (items_of unmarshal_Worker its)) w1 = (w2, ts)"
      "alive_at wrk_TTL (items_of unmarshal_Worker its) ts = []"
  shows "Schedule conf svc eval pool replicas w = (w2, Fail NotEnoughCapacity) \<and> view w2 = view w"
proof -
  have live: "live_workers svc its [] w1 = (w2, Ret [])"
    using live_workers_readings [of svc its "[]" w1] by (simp add: none)
  then have r: "Schedule conf svc eval pool replicas w = (w2, Fail NotEnoughCapacity)"
    by (simp add: Schedule_def bnd_def wrapping_def on_err_def call_def q fails_def sort_Slice_def insertionSort_def)
  have "view w1 = view w"
    using backend.query [OF seq_backend.is_backend [OF b] q] by simp
  moreover have "view w2 = view w1"
    using seq_backend.wp_live_workers [OF b, of w1 its "\<lambda>w' _. view w' = view w1"] live by (simp add: wp_def)
  ultimately show ?thesis using r by simp
qed

theorem schedule_refuses_witness:
  "Schedule demo demo_svc large_eval demo_pool [] demo_world = (demo_world, Fail NotEnoughCapacity) \<and>
     demo_view demo_world = demo_view demo_world"
proof (rule schedule_refuses [OF demo.seq_backend_axioms])
  show "db_Query demo_svc (capacity_query demo large_eval demo_pool) demo_world = (demo_world, Inr [])"
    by (simp add: schedule_run large_eval_def)
  show "clock_readings demo_svc (length (items_of unmarshal_Worker [])) demo_world = (demo_world, [])" by simp
  show "alive_at wrk_TTL (items_of unmarshal_Worker []) [] = []" by simp
qed

subsection \<open>Limits of the choice\<close>

text \<open>A world in which the first random allocation id is taken.\<close>

definition collision_world :: mem where
  "collision_world = demo_world\<lparr>m_items := (m_items demo_world)(''allocs'' :=
     [marshal_Alloc \<lparr>alloc_PoolID = ''p'', alloc_AllocID = hex_EncodeToString (replicate 10 (char_of (0 :: nat))),
        alloc_TTL = 500, alloc_WorkerID = ''w9'', alloc_Eval = None\<rparr>])\<rparr>"

theorem sort_candidates:
  "sorted_wrt (\<lambda>a b. sint (wrk_Capacity b) \<le> sint (wrk_Capacity a)) (sort_Slice by_capacity ws) \<and>
   mset (sort_Slice by_capacity ws) = mset ws"
  using by_capacity.sort_Slice_sorted [of ws] by (simp add: by_capacity_def [abs_def])

text \<open>
  C40: When the random id of a new allocation is already taken, the message fails with an error
  after the capacity was claimed, and the capacity stays claimed without any allocation, for an
  evaluation with or without a data set. Nobody else writes meanwhile.
\<close>

theorem capacity_leak:
  assumes b: "seq_backend svc conf view"
    and find: "(if Dataset eval \<noteq> [] then FindReplicas conf svc eval pool else ret []) w = (w0, Ret replicas)"
    and run: "Schedule conf svc eval pool replicas w0 = (w1, Ret alloc)"
    and taken: "alloc_at conf (view w) (alloc_PoolID alloc) (alloc_AllocID alloc) \<noteq> None"
  shows "\<exists>w' e. schedule_eval conf svc pool h eval w = (w', Fail e) \<and>
     claimed conf (alloc_PoolID alloc) (alloc_WorkerID alloc) (sint (Size eval)) (view w) (view w')"
proof -
  have d: "tables_distinct conf" by (rule backend.conf_tables [OF seq_backend.is_backend [OF b]])
  have v0: "view w0 = view w"
  proof (cases "Dataset eval = []")
    case True
    with find show ?thesis by (simp add: ret_def)
  next
    case False
    with find have "FindReplicas conf svc eval pool w = (w0, Ret replicas)" by simp
    with wp_run [OF seq_backend.wp_FindReplicas [OF b, where Q = "\<lambda>w' _. view w' = view w"]] show ?thesis by blast
  qed
  have c: "claimed conf (alloc_PoolID alloc) (alloc_WorkerID alloc) (sint (Size eval)) (view w) (view w1)"
    using wp_run [OF seq_backend.wp_Schedule [OF b, where Q = "\<lambda>w' r. \<forall>a. r = Ret a \<longrightarrow>
      claimed conf (alloc_PoolID a) (alloc_WorkerID a) (sint (Size eval)) (view w0) (view w')"] run] v0 by auto
  then have t: "alloc_at conf (view w1) (alloc_PoolID alloc) (alloc_AllocID alloc) \<noteq> None"
    using taken claimed_other_table [OF c] tables_neq [OF d] by simp
  have "wp (PutNewAlloc conf svc alloc) (\<lambda>w' r. view w' = view w1 \<and> (\<exists>e. r = Fail e)) w1"
    using t by (intro seq_backend.wp_PutNewAlloc [OF b]) auto
  then obtain w2 e where p: "PutNewAlloc conf svc alloc w1 = (w2, Fail e)" "view w2 = view w1"
    by (auto simp: wp_def split: prod.splits)
  have "schedule_eval conf svc pool h eval w = (w2, Fail e)"
    unfolding schedule_eval_def using p run find by (simp add: bnd_def)
  with p c show ?thesis by auto
qed

theorem capacity_leak_witness:
  "\<exists>w' e k. schedule_eval demo demo_svc demo_pool ''0'' demo_eval collision_world = (w', Fail e) \<and>
     claimed demo ''p'' k 3 (demo_view collision_world) (demo_view w')"
proof -
  have "\<exists>w1 alloc. Schedule demo demo_svc demo_eval demo_pool [] collision_world = (w1, Ret alloc) \<and> alloc_PoolID alloc = ''p'' \<and>
      alloc_at demo (demo_view collision_world) (alloc_PoolID alloc) (alloc_AllocID alloc) \<noteq> None"
    by (simp add: schedule_run collision_world_def sub_key_def)
  then obtain w1 alloc where r: "Schedule demo demo_svc demo_eval demo_pool [] collision_world = (w1, Ret alloc)"
    and p: "alloc_PoolID alloc = ''p''"
    and a: "alloc_at demo (demo_view collision_world) (alloc_PoolID alloc) (alloc_AllocID alloc) \<noteq> None" by blast
  have s: "sint (Size demo_eval) = 3" by (simp add: demo_eval_def)
  have f: "(if Dataset demo_eval \<noteq> [] then FindReplicas demo demo_svc demo_eval demo_pool else ret []) collision_world =
      (collision_world, Ret [])" by (simp add: demo_eval_def ret_def)
  from capacity_leak [OF demo.seq_backend_axioms f r a, of "''0''"] s show ?thesis
    unfolding p by metis
qed

text \<open>Eleven workers of capacities three to thirteen.\<close>

definition one_worker :: "string \<Rightarrow> int64 \<Rightarrow> Worker" where
  "one_worker k c = \<lparr>wrk_PoolID = ''p'', wrk_WorkerID = k, wrk_Capacity = c, wrk_QueueURL = [], wrk_TTL = 200\<rparr>"

definition crowd :: mem where
  "crowd = demo_mem\<lparr>m_items := (\<lambda>_. [])(''workers'' := map marshal_Worker
     [one_worker ''a'' 3, one_worker ''b'' 4, one_worker ''c'' 5, one_worker ''d'' 6, one_worker ''e'' 7, one_worker ''f'' 8, one_worker ''g'' 9, one_worker ''h'' 10, one_worker ''i'' 11, one_worker ''j'' 12, one_worker ''k'' 13])\<rparr>"

theorem limit_hides_best:
  "\<exists>w' alloc. Schedule demo demo_svc demo_eval demo_pool [] crowd = (w', Ret alloc) \<and>
     alloc_WorkerID alloc = ''j'' \<and>
     cap_of demo (demo_view crowd) ''p'' ''j'' = Some 12 \<and> cap_of demo (demo_view crowd) ''p'' ''k'' = Some 13"
proof -
  have "\<exists>w' alloc. Schedule demo demo_svc demo_eval demo_pool [] crowd = (w', Ret alloc) \<and> alloc_WorkerID alloc = ''j''"
    by (simp add: schedule_run crowd_def one_worker_def shell_step_def by_capacity_def upt_rec)
  moreover have "cap_of demo (demo_view crowd) ''p'' ''j'' = Some 12 \<and> cap_of demo (demo_view crowd) ''p'' ''k'' = Some 13"
    by (simp add: schedule_run crowd_def one_worker_def cap_of_def sub_key_def)
  ultimately show ?thesis by blast
qed

subsection \<open>Locality\<close>

text \<open>A replica of the data set \<open>d10\<close>, and an evaluation for the data set \<open>d1\<close>.\<close>

definition d1_eval :: Eval where
  "d1_eval = \<lparr>Dataset = ''d1'', Size = 1, Retry = 0\<rparr>"

definition d10_replica :: Replica where
  "d10_replica = \<lparr>rpl_PoolID = ''p'', rpl_ReplicaID = FmtReplicaID ''d10'' ''w1'', rpl_TTL = 200\<rparr>"

definition replica_world :: mem where
  "replica_world = demo_mem\<lparr>m_items := (\<lambda>_. [])(''replicas'' := [marshal_Replica d10_replica])\<rparr>"

lemma d10_run: "FindReplicas demo demo_svc d1_eval demo_pool replica_world = (replica_world, Ret [d10_replica])"
  by (simp add: schedule_run FindReplicas_def replica_world_def d1_eval_def d10_replica_def eval_item_set)

theorem find_replicas_result:
  assumes b: "seq_fresh_backend svc conf view"
    and run: "FindReplicas conf svc eval pool w = (w', Ret rs)" and r: "r \<in> set rs"
  shows "(\<exists>v v' now. time_Now_Unix svc v = (v', now) \<and> sint now \<le> sint (rpl_TTL r)) \<and>
     (\<exists>k it s. tables (view w) (ReplicasTableName conf) k = Some it \<and> unmarshal_Replica it = Inr r \<and>
       it ''pool'' = Some (enc_string (pool_PoolID pool)) \<and>
       it ''rpl'' = Some (AS s) \<and> take (length (Dataset eval)) s = Dataset eval)"
proof -
  from run r have d: "Dataset eval \<noteq> []"
    by (auto simp: FindReplicas_def ret_def)
  obtain w1 x where q: "db_Query svc (replica_query conf eval pool) w = (w1, x)" by fastforce
  with run d obtain its where x: "x = Inr its"
    by (cases x) (auto simp: FindReplicas_def wrapping_def on_err_def bnd_def call_def fails_def)
  have v: "view w1 = view w"
    using backend.query [OF seq_backend.is_backend [OF seq_item_backend.is_seq [OF seq_fresh_backend.is_item [OF b]]] q] by simp
  obtain w2 ts where ts: "clock_readings svc (length (items_of unmarshal_Replica its)) w1 = (w2, ts)" by fastforce
  with live_replicas_readings [of svc its "[]" w1] run q x d
  have "rs = alive_at rpl_TTL (items_of unmarshal_Replica its) ts"
    by (auto simp: FindReplicas_def wrapping_def on_err_def bnd_def call_def)
  with r alive_at_reading obtain t where "r \<in> set (items_of unmarshal_Replica its)" and t: "t \<in> set ts" "sint t \<le> sint (rpl_TTL r)"
    by fastforce
  then obtain it where it: "it \<in> set its" "unmarshal_Replica it = Inr r"
    using items_of_from by fastforce
  have live: "\<exists>v v' now. time_Now_Unix svc v = (v', now) \<and> sint now \<le> sint (rpl_TTL r)"
    using clock_readings_read [OF ts t(1)] t(2) by blast
  from fresh_backend.query_fresh [OF seq_fresh_backend.is_fresh [OF b] q [unfolded x] it(1)] v
  obtain k it0 where "tables (view w) (ReplicasTableName conf) k = Some it0"
    "query_matches (replica_query conf eval pool) it0" "it = it0"
    by (auto simp: replica_query_def projected_def)
  moreover from this(2) d have "it0 ''pool'' = Some (enc_string (pool_PoolID pool)) \<and>
      (\<exists>s. it0 ''rpl'' = Some (AS s) \<and> take (length (Dataset eval)) s = Dataset eval)"
    by (auto simp: query_matches_def replica_query_def eval_item_set enc_string_def [of "Dataset eval"]
        split: option.splits attr.splits)
  ultimately show ?thesis using it(2) live by blast
qed

theorem find_replicas_result_witness:
  "(\<exists>v v' now. time_Now_Unix demo_svc v = (v', now) \<and> sint now \<le> sint (rpl_TTL d10_replica)) \<and>
     (\<exists>k it s. tables (demo_view replica_world) ''replicas'' k = Some it \<and> unmarshal_Replica it = Inr d10_replica \<and>
       it ''pool'' = Some (enc_string ''p'') \<and> it ''rpl'' = Some (AS s) \<and> take 2 s = ''d1'')"
proof -
  have r: "FindReplicas demo demo_svc d1_eval demo_pool replica_world = (replica_world, Ret [d10_replica])"
    by (rule d10_run)
  have p: "ReplicasTableName demo = ''replicas''" "pool_PoolID demo_pool = ''p''" "Dataset d1_eval = ''d1''"
    by (simp_all add: demo_def demo_pool_def d1_eval_def)
  show ?thesis
    using find_replicas_result [OF demo.seq_fresh_backend_axioms r, of d10_replica] unfolding p by (simp add: numeral_2_eq_2)
qed

theorem prefix_finds_other_dataset:
  "FindReplicas demo demo_svc d1_eval demo_pool replica_world = (replica_world, Ret [d10_replica]) \<and>
     Dataset d1_eval = ''d1'' \<and> rpl_ReplicaID d10_replica = ''d10:w1''"
  using d10_run by (simp add: d1_eval_def d10_replica_def FmtReplicaID_def)

end
