(* ===== verification/Release.thy ===== *)
theory Release
  imports Scan Payloads Naming Pools Workers Replicas Allocs
begin

section \<open>Releasing (\<open>line/handle_release.go\<close>)\<close>

text \<open>
  The release reactor: for every pool, expired allocations are rescheduled and their capacity is
  given back, then expired replicas and expired workers are deleted. \<open>releaseAlloc\<close> is also what
  \<open>CompleteAlloc\<close> calls.
\<close>

subsection \<open>Queries for what has expired\<close>

text \<open>
  \<open>condAttr\<close> marshals a struct that holds the pool id and the current time; its attributes
  \<open>pool\<close> and \<open>ttl\<close> are the values of the key condition.
\<close>

definition expired_query :: "string \<Rightarrow> string \<Rightarrow> item \<Rightarrow> query" where
  "expired_query table index condAttr =
     \<lparr>q_TableName = table, q_IndexName = Some index, q_Limit = None,
      q_hash = (''pool'', aget condAttr ''pool''), q_range = Range_lt ''ttl'' (aget condAttr ''ttl'')\<rparr>"

definition expired_replicas :: "Conf \<Rightarrow> Pool \<Rightarrow> int64 \<Rightarrow> query" where
  "expired_replicas conf pool now =
     expired_query (ReplicasTableName conf) (ReplicasTTLIdxName conf)
       (marshal_Replica \<lparr>rpl_PoolID = pool_PoolID pool, rpl_ReplicaID = [], rpl_TTL = now\<rparr>)"

definition expired_workers :: "Conf \<Rightarrow> Pool \<Rightarrow> int64 \<Rightarrow> query" where
  "expired_workers conf pool now =
     expired_query (WorkersTableName conf) (WorkersTTLIdxName conf)
       (marshal_Worker \<lparr>wrk_PoolID = pool_PoolID pool, wrk_WorkerID = [], wrk_Capacity = 0,
          wrk_QueueURL = [], wrk_TTL = now\<rparr>)"

definition expired_allocs :: "Conf \<Rightarrow> Pool \<Rightarrow> int64 \<Rightarrow> query" where
  "expired_allocs conf pool now =
     expired_query (AllocsTableName conf) (AllocsTTLIdxName conf)
       (marshal_Alloc \<lparr>alloc_PoolID = pool_PoolID pool, alloc_AllocID = [], alloc_TTL = now,
          alloc_WorkerID = [], alloc_Eval = None\<rparr>)"

subsection \<open>The passes\<close>

definition release_replica :: "Conf \<Rightarrow> 'w services \<Rightarrow> item \<Rightarrow> ('w, unit) prog" where
  "release_replica conf svc it =
     logged (bnd (of_sum (unmarshal_Replica it)) (\<lambda>replica.
       DeleteReplica conf svc (Replica_PK replica)))"

definition releaseReplicas :: "Conf \<Rightarrow> 'w services \<Rightarrow> Pool \<Rightarrow> ('w, unit) prog" where
  "releaseReplicas conf svc pool =
     bnd (reads (time_Now_Unix svc)) (\<lambda>now.
     bnd (wrapping ''failed to query replicas'' (call (db_Query svc (expired_replicas conf pool now)))) (\<lambda>items.
     each (release_replica conf svc) items))"

definition release_worker :: "Conf \<Rightarrow> 'w services \<Rightarrow> item \<Rightarrow> ('w, unit) prog" where
  "release_worker conf svc it =
     logged (bnd (of_sum (unmarshal_Worker it)) (\<lambda>worker.
       bnd (call0 (sqs_DeleteQueue svc (FmtWorkerQueueURL conf (wrk_PoolID worker) (wrk_WorkerID worker)))) (\<lambda>_.
       DeleteWorker conf svc (Worker_PK worker))))"

definition releaseWorkers :: "Conf \<Rightarrow> 'w services \<Rightarrow> Pool \<Rightarrow> ('w, unit) prog" where
  "releaseWorkers conf svc pool =
     bnd (reads (time_Now_Unix svc)) (\<lambda>now.
     bnd (wrapping ''failed to query workers'' (call (db_Query svc (expired_workers conf pool now)))) (\<lambda>items.
     each (release_worker conf svc) items))"

text \<open>
  \<open>alloc.Eval.Size\<close> dereferences the eval pointer before anything is written. The deletion has
  no condition, and neither has the update that adds the size to the worker's capacity.
\<close>

definition releaseAlloc :: "Conf \<Rightarrow> 'w services \<Rightarrow> Alloc \<Rightarrow> ('w, unit) prog" where
  "releaseAlloc conf svc alloc =
     bnd (deref (alloc_Eval alloc)) (\<lambda>eval.
     bnd (wrapping ''failed to delete allocation, may never release''
            (call0 (db_DeleteItem svc (AllocsTableName conf) (marshal_AllocPK (Alloc_PK alloc)) None))) (\<lambda>_.
     wrapping ''failed to release capacity back to worker''
       (call0 (db_UpdateItem svc (WorkersTableName conf)
          (marshal_WorkerPK \<lparr>wrk_PoolID = alloc_PoolID alloc, wrk_WorkerID = alloc_WorkerID alloc\<rparr>)
          (Set_plus ''cap'' (enc_int64 (Size eval))) None))))"

text \<open>
  The eval of an expired allocation goes to the dead letter queue once it has been tried often
  enough, else back to the pool's queue; a queue that no longer exists is no error.
\<close>

definition reschedule :: "Conf \<Rightarrow> 'w services \<Rightarrow> Pool \<Rightarrow> Eval \<Rightarrow> ('w, unit) prog" where
  "reschedule conf svc pool eval =
     (if sint (MaxRetry conf) \<le> sint (Retry eval) then
        wrapping ''failed to send eval to dead letter queue''
          (call0 (sqs_SendMessage svc (ScheduleDLQueueURL conf) (Some (json_of_Eval eval))))
      else
        on_err (call0 (sqs_SendMessage svc (pool_QueueURL pool) (Some (json_of_Eval eval)))) (\<lambda>err.
          if aws_code err \<noteq> Some ErrCodeQueueDoesNotExist
          then fails (Wrapped err ''failed to re-send eval on pool queue'') else ret ()))"

definition release_expired :: "Conf \<Rightarrow> 'w services \<Rightarrow> Pool \<Rightarrow> item \<Rightarrow> ('w, unit) prog" where
  "release_expired conf svc pool it = (case unmarshal_Alloc it of
     Inl _ \<Rightarrow> ret ()
   | Inr alloc \<Rightarrow>
      (if alloc_WorkerID alloc = [] then ret ()
       else case alloc_Eval alloc of
           None \<Rightarrow> ret ()
         | Some eval \<Rightarrow>
             bnd (reschedule conf svc pool eval) (\<lambda>_. logged (releaseAlloc conf svc alloc))))"

definition releaseAllocs :: "Conf \<Rightarrow> 'w services \<Rightarrow> Pool \<Rightarrow> ('w, unit) prog" where
  "releaseAllocs conf svc pool =
     bnd (reads (time_Now_Unix svc)) (\<lambda>now.
     bnd (wrapping ''failed to query allocations'' (call (db_Query svc (expired_allocs conf pool now)))) (\<lambda>items.
     each (release_expired conf svc pool) items))"

subsection \<open>The handler\<close>

text \<open>One pool of a page; an error in a pass skips the later passes of this pool only.\<close>

definition release_pool :: "Conf \<Rightarrow> 'w services \<Rightarrow> item \<Rightarrow> ('w, unit) prog" where
  "release_pool conf svc it =
     logged (bnd (of_sum (unmarshal_Pool it)) (\<lambda>pool.
       bnd (releaseAllocs conf svc pool) (\<lambda>_.
       bnd (releaseReplicas conf svc pool) (\<lambda>_.
       releaseWorkers conf svc pool))))"

text \<open>
  \<open>HandleRelease\<close>: the scan of the pools with the page callback; it returns the event it was
  called with, or the error of the scan. No pass panics, so the callback always returns.
\<close>

definition HandleRelease :: "Conf \<Rightarrow> 'w services \<Rightarrow> json \<Rightarrow> 'w \<Rightarrow> ('w \<times> json outcome) option" where
  "HandleRelease conf svc ev w =
     map_option (\<lambda>(w', _, err). (w', case err of Some e \<Rightarrow> Fail e | None \<Rightarrow> Ret ev))
       (ScanPages svc (PoolsTableName conf)
          (\<lambda>its _ w. (fst (each (release_pool conf svc) its w), ())) None () w)"

subsection \<open>No pass panics\<close>

lemma panic_free_DeleteReplica [panic_rules]: "panic_free (DeleteReplica conf svc pk)"
  unfolding DeleteReplica_def by (rule panic_rules)

lemma panic_free_DeleteWorker [panic_rules]: "panic_free (DeleteWorker conf svc pk)"
  unfolding DeleteWorker_def cond_failed_as_def by (intro panic_rules)

lemma panic_free_release_replica [panic_rules]: "panic_free (release_replica conf svc it)"
  unfolding release_replica_def by (intro panic_rules)

lemma panic_free_release_worker [panic_rules]: "panic_free (release_worker conf svc it)"
  unfolding release_worker_def by (intro panic_rules)

lemma panic_free_reschedule [panic_rules]: "panic_free (reschedule conf svc pool eval)"
  unfolding reschedule_def by (intro panic_rules)

lemma panic_free_releaseAlloc:
  assumes "alloc_Eval alloc = Some eval"
  shows "panic_free (releaseAlloc conf svc alloc)"
  unfolding releaseAlloc_def assms by (intro panic_rules)

lemma panic_free_release_expired [panic_rules]: "panic_free (release_expired conf svc pool it)"
  unfolding release_expired_def
  by (auto intro!: panic_rules panic_free_releaseAlloc split: sum.split option.split)

lemma panic_free_release_pool: "panic_free (release_pool conf svc it)"
  unfolding release_pool_def releaseAllocs_def releaseReplicas_def releaseWorkers_def
  by (intro panic_rules)

lemma release_pool_returns: "snd (release_pool conf svc it w) = Ret ()"
  unfolding release_pool_def
  by (rule logged_returns) (unfold releaseAllocs_def releaseReplicas_def releaseWorkers_def, intro panic_rules)

lemma release_page_returns: "snd (each (release_pool conf svc) its w) = Ret ()"
  by (rule each_returns) (rule release_pool_returns)

end
