(* ===== verification/Release_Proofs.thy ===== *)
theory Release_Proofs
  imports Release Schedule_Proofs
begin

section \<open>Correctness of releasing\<close>

text \<open>
  The effect of giving an allocation back, the way of its evaluation to a queue, and the release
  pass over a pool.
\<close>

subsection \<open>Giving back one allocation\<close>

definition freed :: "Conf \<Rightarrow> Alloc \<Rightarrow> store \<Rightarrow> store" where
  "freed conf alloc v = set_alloc conf (alloc_PoolID alloc) (alloc_AllocID alloc) None v"

definition given_back :: "Conf \<Rightarrow> Alloc \<Rightarrow> int \<Rightarrow> store \<Rightarrow> store \<Rightarrow> bool" where
  "given_back conf alloc n v v' \<longleftrightarrow> (\<exists>it c.
     worker_at conf v (alloc_PoolID alloc) (alloc_WorkerID alloc) = Some it \<and> it ''cap'' = Some (AN c) \<and>
     v' = set_worker conf (alloc_PoolID alloc) (alloc_WorkerID alloc) (Some (it(''cap'' \<mapsto> AN (c + n)))) (freed conf alloc v))"

lemma freed_simps [simp]:
  "tables (freed conf alloc v) = tables (set_alloc conf (alloc_PoolID alloc) (alloc_AllocID alloc) None v)"
  "queues (freed conf alloc v) = queues v"
  "handles (freed conf alloc v) = handles v"
  by (simp_all add: freed_def)

lemma given_back_cap:
  assumes "tables_distinct conf" and "given_back conf alloc n v v'"
  shows "\<exists>c. cap_of conf v (alloc_PoolID alloc) (alloc_WorkerID alloc) = Some c \<and>
      cap_of conf v' (alloc_PoolID alloc) (alloc_WorkerID alloc) = Some (c + n)"
    and "alloc_at conf v' (alloc_PoolID alloc) (alloc_AllocID alloc) = None"
    and "queues v' = queues v"
  using assms tables_neq [OF assms(1)] by (auto simp: given_back_def cap_of_def)

lemma Alloc_PK_simps [simp]:
  "alloc_PoolID (Alloc_PK a) = alloc_PoolID a"
  "alloc_AllocID (Alloc_PK a) = alloc_AllocID a"
  by (simp_all add: Alloc_PK_def)

lemma marshal_WorkerPK_cap [simp]: "marshal_WorkerPK pk ''cap'' = None"
  by (simp add: marshal_defs)

context seq_backend
begin

lemma wp_releaseAlloc:
  assumes "alloc_Eval alloc = None \<Longrightarrow> Q w Panic"
    and "\<And>w' eval. alloc_Eval alloc = Some eval \<Longrightarrow> given_back conf alloc (sint (Size eval)) (view w) (view w') \<Longrightarrow> Q w' (Ret ())"
    and "\<And>w' e eval. alloc_Eval alloc = Some eval \<Longrightarrow>
      view w' = view w \<or> view w' = freed conf alloc (view w) \<or> given_back conf alloc (sint (Size eval)) (view w) (view w') \<Longrightarrow>
      Q w' (Fail e)"
  shows "wp (releaseAlloc conf svc alloc) Q w"
proof (cases "alloc_Eval alloc")
  case None
  with assms(1) show ?thesis by (simp add: releaseAlloc_def wp_bnd wp_deref)
next
  case (Some eval)
  have upd: "view w1 = freed conf alloc (view w) \<Longrightarrow>
    wp (call0 (db_UpdateItem svc (WorkersTableName conf)
          (marshal_WorkerPK \<lparr>wrk_PoolID = alloc_PoolID alloc, wrk_WorkerID = alloc_WorkerID alloc\<rparr>)
          (Set_plus ''cap'' (enc_int64 (Size eval))) None))
      (\<lambda>w' r. case r of Ret x \<Rightarrow> Q w' (Ret x)
        | Fail e \<Rightarrow> Q w' (Fail (Wrapped e ''failed to release capacity back to worker'')) | Panic \<Rightarrow> Q w' Panic) w1" for w1
    using assms(2,3) [OF Some] table_names
    by (intro wp_call0I)
       (auto dest!: update simp: write_post_def upd_eff_def key_of_entity cond_ok_def Let_def num_upd_def
          enc_int64_def given_back_def split: if_splits option.splits attr.splits)
  have fr: "set_item (AllocsTableName conf) (key_of conf (AllocsTableName conf) (marshal_AllocPK (Alloc_PK alloc))) None v =
      freed conf alloc v" for v
    by (simp add: key_of_entity freed_def)
  show ?thesis
    unfolding releaseAlloc_def Some wp_bnd wp_deref option.case outcome.case wp_wrapping
  proof (rule wp_delete_any, unfold fr, goal_cases)
    case (1 w1)
    then show ?case unfolding outcome.case by (rule upd)
  next
    case (2 w1 e)
    then show ?case unfolding outcome.case by (intro assms(3) [OF Some]) simp
  next
    case (3 w1 e)
    then show ?case unfolding outcome.case by (intro assms(3) [OF Some]) simp
  qed
qed

end

subsection \<open>Invariants of the passes\<close>

context backend
begin

lemma keeps_release_replica:
  assumes "stable J rely"
    and "\<And>r v. unmarshal_Replica it = Inr r \<Longrightarrow> J v \<Longrightarrow> J (set_replica conf (rpl_PoolID r) (rpl_ReplicaID r) None v)"
  shows "keeps (holds J) (release_replica conf svc it)"
  unfolding release_replica_def
  by (intro keeps_logged keeps_bnd_of_sum keeps_DeleteReplica) (use assms in \<open>auto simp: Replica_PK_def\<close>)

lemma keeps_release_worker:
  assumes "stable J rely"
    and "\<And>v u. J v \<Longrightarrow> J (set_queue u None v)"
    and "\<And>k v. unmarshal_Worker it = Inr k \<Longrightarrow> J v \<Longrightarrow> J (set_worker conf (wrk_PoolID k) (wrk_WorkerID k) None v)"
  shows "keeps (holds J) (release_worker conf svc it)"
  unfolding release_worker_def
  by (intro keeps_logged keeps_bnd_of_sum keeps_bnd keeps_remove keeps_DeleteWorker) (use assms in \<open>auto simp: Worker_PK_def\<close>)

lemma keeps_releaseAlloc:
  assumes "stable J rely"
    and "\<And>v. J v \<Longrightarrow> J (freed conf alloc v)"
    and "\<And>v it c eval. J v \<Longrightarrow> alloc_Eval alloc = Some eval \<Longrightarrow>
      worker_at conf v (alloc_PoolID alloc) (alloc_WorkerID alloc) = Some it \<Longrightarrow> it ''cap'' = Some (AN c) \<Longrightarrow>
      J (set_worker conf (alloc_PoolID alloc) (alloc_WorkerID alloc) (Some (it(''cap'' \<mapsto> AN (c + sint (Size eval))))) v)"
  shows "keeps (holds J) (releaseAlloc conf svc alloc)"
  unfolding releaseAlloc_def
  by (intro keeps_bnd_deref keeps_bnd keeps_wrapping keeps_delete keeps_update)
     (use assms in \<open>auto simp: upd_eff_def del_eff_def key_of_entity Let_def num_upd_def enc_int64_def freed_def
        split: option.splits attr.splits\<close>)

lemma keeps_reschedule:
  assumes "stable J rely" and "\<And>v v' u b. J v \<Longrightarrow> send_eff u b v = Some v' \<Longrightarrow> J v'"
  shows "keeps (holds J) (reschedule conf svc pool eval)"
  unfolding reschedule_def
  by (intro keeps_rules keeps_send) (use assms in auto)

lemma keeps_release_expired:
  assumes "stable J rely" and "\<And>v v' u b. J v \<Longrightarrow> send_eff u b v = Some v' \<Longrightarrow> J v'"
    and "\<And>alloc v. unmarshal_Alloc it = Inr alloc \<Longrightarrow> J v \<Longrightarrow> J (freed conf alloc v)"
    and "\<And>alloc v wit c eval. unmarshal_Alloc it = Inr alloc \<Longrightarrow> J v \<Longrightarrow> alloc_Eval alloc = Some eval \<Longrightarrow>
      worker_at conf v (alloc_PoolID alloc) (alloc_WorkerID alloc) = Some wit \<Longrightarrow> wit ''cap'' = Some (AN c) \<Longrightarrow>
      J (set_worker conf (alloc_PoolID alloc) (alloc_WorkerID alloc) (Some (wit(''cap'' \<mapsto> AN (c + sint (Size eval))))) v)"
  shows "keeps (holds J) (release_expired conf svc pool it)"
  unfolding release_expired_def
  using assms by (auto intro!: keeps_ret keeps_bnd keeps_logged keeps_reschedule keeps_releaseAlloc split: sum.split option.split)

end

context fresh_backend
begin

text \<open>A query hands on items that are stored in a state that satisfies the invariant.\<close>

lemma keeps_query_items:
  assumes s: "stable J rely"
    and f: "\<And>its. (\<And>it. it \<in> set its \<Longrightarrow> \<exists>v k it0. J v \<and> tables v (q_TableName q) k = Some it0 \<and>
        query_matches q it0 \<and> it = projected conf (q_TableName q) (q_IndexName q) it0) \<Longrightarrow> keeps (holds J) (f its)"
  shows "keeps (holds J) (bnd (wrapping m (call (db_Query svc q))) f)"
proof (rule keeps_bnd_post [where P = "\<lambda>its. \<forall>it \<in> set its. \<exists>v k it0. J v \<and> tables v (q_TableName q) k = Some it0 \<and>
      query_matches q it0 \<and> it = projected conf (q_TableName q) (q_IndexName q) it0"])
  show "keeps (holds J) (wrapping m (call (db_Query svc q)))"
    by (intro keeps_rules keeps_reads_of_view s)
next
  fix w w' its
  assume J: "J (view w)" and "wrapping m (call (db_Query svc q)) w = (w', Ret its)"
  then have q: "db_Query svc q w = (w', Inr its)" by (auto dest: wrapping_Ret call_Ret)
  moreover from query [OF q] J s have "J (view w')" by (metis stableD)
  ultimately show "\<forall>it \<in> set its. \<exists>v k it0. J v \<and> tables v (q_TableName q) k = Some it0 \<and>
      query_matches q it0 \<and> it = projected conf (q_TableName q) (q_IndexName q) it0"
    using query_fresh by blast
qed (use f in blast)

end

lemma projected_replica: "unmarshal_Replica (projected conf (ReplicasTableName conf) i it) = unmarshal_Replica it"
  by (simp add: projected_def unmarshal_defs restrict_map_def split: option.split)

lemma projected_alloc:
  assumes "tables_distinct conf"
  shows "unmarshal_Alloc (projected conf (AllocsTableName conf) i it) = unmarshal_Alloc it"
  using tables_neq [OF assms] by (simp add: projected_def unmarshal_defs restrict_map_def split: option.split)


text \<open>What the three queries select.\<close>

definition expired :: "Pool \<Rightarrow> int64 \<Rightarrow> item \<Rightarrow> bool" where
  "expired pool now it \<longleftrightarrow> it ''pool'' = Some (enc_string (pool_PoolID pool)) \<and>
     (\<exists>t. it ''ttl'' = Some (AN t) \<and> t < sint now)"

lemma expired_matches [simp]:
  "query_matches (expired_replicas conf pool now) it \<longleftrightarrow> expired pool now it"
  "query_matches (expired_workers conf pool now) it \<longleftrightarrow> expired pool now it"
  "query_matches (expired_allocs conf pool now) it \<longleftrightarrow> expired pool now it"
  by (auto simp: query_matches_def expired_def expired_replicas_def expired_workers_def expired_allocs_def
      expired_query_def aget_def marshal_defs enc_int64_def split: option.splits attr.splits)

lemma expired_query_simps [simp]:
  "q_TableName (expired_replicas conf pool now) = ReplicasTableName conf"
  "q_TableName (expired_workers conf pool now) = WorkersTableName conf"
  "q_TableName (expired_allocs conf pool now) = AllocsTableName conf"
  "q_IndexName (expired_replicas conf pool now) = Some (ReplicasTTLIdxName conf)"
  "q_IndexName (expired_workers conf pool now) = Some (WorkersTTLIdxName conf)"
  "q_IndexName (expired_allocs conf pool now) = Some (AllocsTTLIdxName conf)"
  by (simp_all add: expired_replicas_def expired_workers_def expired_allocs_def expired_query_def)

context backend
begin

lemma keeps_bnd_now:
  assumes "stable J rely" and "\<And>n. keeps (holds J) (f n)"
  shows "keeps (holds J) (bnd (reads (time_Now_Unix svc)) f)"
  by (intro keeps_bnd keeps_reads_of_view assms)

end

context fresh_backend
begin

text \<open>The passes after their reading of the clock.\<close>

lemma keeps_replicas_at:
  assumes s: "stable J rely"
    and d: "\<And>v key it r v'. J v \<Longrightarrow> tables v (ReplicasTableName conf) key = Some it \<Longrightarrow>
      expired pool now it \<Longrightarrow> unmarshal_Replica it = Inr r \<Longrightarrow> J v' \<Longrightarrow>
      J (set_replica conf (rpl_PoolID r) (rpl_ReplicaID r) None v')"
  shows "keeps (holds J) (bnd (wrapping m (call (db_Query svc (expired_replicas conf pool now)))) (each (release_replica conf svc)))"
  by (intro keeps_query_items [OF s] keeps_each keeps_release_replica [OF s])
     (fastforce simp: projected_replica dest: d)

lemma keeps_workers_at:
  assumes s: "stable J rely" and q: "\<And>v u. J v \<Longrightarrow> J (set_queue u None v)"
    and d: "\<And>v key it k v'. J v \<Longrightarrow> tables v (WorkersTableName conf) key = Some it \<Longrightarrow>
      expired pool now it \<Longrightarrow>
      unmarshal_Worker (projected conf (WorkersTableName conf) (Some (WorkersTTLIdxName conf)) it) = Inr k \<Longrightarrow> J v' \<Longrightarrow>
      J (set_worker conf (wrk_PoolID k) (wrk_WorkerID k) None v')"
  shows "keeps (holds J) (bnd (wrapping m (call (db_Query svc (expired_workers conf pool now)))) (each (release_worker conf svc)))"
  by (intro keeps_query_items [OF s] keeps_each keeps_release_worker [OF s] q)
     (fastforce dest: d)+

lemma keeps_releaseReplicas:
  assumes s: "stable J rely"
    and d: "\<And>v now key it r v'. J v \<Longrightarrow> tables v (ReplicasTableName conf) key = Some it \<Longrightarrow>
      expired pool now it \<Longrightarrow> unmarshal_Replica it = Inr r \<Longrightarrow> J v' \<Longrightarrow>
      J (set_replica conf (rpl_PoolID r) (rpl_ReplicaID r) None v')"
  shows "keeps (holds J) (releaseReplicas conf svc pool)"
  unfolding releaseReplicas_def
  by (intro keeps_bnd_now [OF s] keeps_replicas_at [OF s]) (rule d)

lemma keeps_releaseWorkers:
  assumes s: "stable J rely"
    and q: "\<And>v u. J v \<Longrightarrow> J (set_queue u None v)"
    and d: "\<And>v now key it k v'. J v \<Longrightarrow> tables v (WorkersTableName conf) key = Some it \<Longrightarrow>
      expired pool now it \<Longrightarrow>
      unmarshal_Worker (projected conf (WorkersTableName conf) (Some (WorkersTTLIdxName conf)) it) = Inr k \<Longrightarrow> J v' \<Longrightarrow>
      J (set_worker conf (wrk_PoolID k) (wrk_WorkerID k) None v')"
  shows "keeps (holds J) (releaseWorkers conf svc pool)"
  unfolding releaseWorkers_def
  by (intro keeps_bnd_now [OF s] keeps_workers_at [OF s] q) (assumption, rule d)

lemma keeps_releaseAllocs:
  assumes s: "stable J rely"
    and q: "\<And>v v' u b. J v \<Longrightarrow> send_eff u b v = Some v' \<Longrightarrow> J v'"
    and d: "\<And>v now key it alloc v'. J v \<Longrightarrow> tables v (AllocsTableName conf) key = Some it \<Longrightarrow>
      expired pool now it \<Longrightarrow> unmarshal_Alloc it = Inr alloc \<Longrightarrow> J v' \<Longrightarrow> J (freed conf alloc v')"
    and g: "\<And>v now key it alloc v' wit c eval. J v \<Longrightarrow> tables v (AllocsTableName conf) key = Some it \<Longrightarrow>
      expired pool now it \<Longrightarrow> unmarshal_Alloc it = Inr alloc \<Longrightarrow> J v' \<Longrightarrow> alloc_Eval alloc = Some eval \<Longrightarrow>
      worker_at conf v' (alloc_PoolID alloc) (alloc_WorkerID alloc) = Some wit \<Longrightarrow> wit ''cap'' = Some (AN c) \<Longrightarrow>
      J (set_worker conf (alloc_PoolID alloc) (alloc_WorkerID alloc) (Some (wit(''cap'' \<mapsto> AN (c + sint (Size eval))))) v')"
  shows "keeps (holds J) (releaseAllocs conf svc pool)"
  unfolding releaseAllocs_def
proof (intro keeps_bnd_now [OF s] keeps_query_items [OF s] keeps_each keeps_release_expired [OF s], goal_cases)
  case (1 now its it v v' u b)
  from 1(4,3) q show ?case by blast
next
  case (2 now its it alloc v)
  from 2(1) [OF 2(2)] obtain v0 k it0 where "J v0" "tables v0 (AllocsTableName conf) k = Some it0"
    "expired pool now it0" "it = projected conf (AllocsTableName conf) (Some (AllocsTTLIdxName conf)) it0"
    by auto
  with 2 show ?case
    by (auto simp: projected_alloc [OF conf_tables] intro: d)
next
  case (3 now its it alloc v wit c eval)
  from 3(1) [OF 3(2)] obtain v0 k it0 where "J v0" "tables v0 (AllocsTableName conf) k = Some it0"
    "expired pool now it0" "it = projected conf (AllocsTableName conf) (Some (AllocsTTLIdxName conf)) it0"
    by auto
  with 3 show ?case
    by (auto simp: projected_alloc [OF conf_tables] intro: g)
qed

end

lemma claim_give_back:
  assumes d: "tables_distinct conf"
    and c: "claimed conf (alloc_PoolID a) (alloc_WorkerID a) n v v1"
    and t: "tables v2 = tables (set_alloc conf (alloc_PoolID a) (alloc_AllocID a) (Some x) v1)"
    and none: "alloc_at conf v (alloc_PoolID a) (alloc_AllocID a) = None"
    and g: "given_back conf a n v2 v3"
  shows "tables v3 = tables v"
proof -
  from c obtain it m where it: "worker_at conf v (alloc_PoolID a) (alloc_WorkerID a) = Some it"
      "it ''cap'' = Some (AN m)"
    and v1: "v1 = set_worker conf (alloc_PoolID a) (alloc_WorkerID a) (Some (it(''cap'' \<mapsto> AN (m - n)))) v"
    by (auto simp: claimed_def)
  have "it(''cap'' \<mapsto> AN m) = it" using it(2) by (simp add: fun_upd_idem)
  with g t v1 tables_neq [OF d]
  have "tables v3 = tables (set_worker conf (alloc_PoolID a) (alloc_WorkerID a) (Some it)
      (set_alloc conf (alloc_PoolID a) (alloc_AllocID a) None v))"
    by (auto simp: given_back_def fun_upd_twist)
  with it(1) none tables_neq [OF d] show ?thesis
    by (simp add: fun_eq_iff)
qed

lemma releaseAlloc_result:
  assumes "seq_backend svc conf view" and "releaseAlloc conf svc alloc w = (w', r)"
  shows "case alloc_Eval alloc of
     None \<Rightarrow> w' = w \<and> r = Panic
   | Some eval \<Rightarrow> (case r of
       Ret _ \<Rightarrow> given_back conf alloc (sint (Size eval)) (view w) (view w')
     | Fail e \<Rightarrow> view w' = view w \<or> view w' = freed conf alloc (view w) \<or>
         given_back conf alloc (sint (Size eval)) (view w) (view w')
     | Panic \<Rightarrow> False)"
  by (rule wp_run [OF seq_backend.wp_releaseAlloc [OF assms(1)] assms(2)]) auto

subsection \<open>Rescheduling\<close>

text \<open>The queue that gets the evaluation of an expired allocation, and the store after it was sent.\<close>

definition route_of :: "Conf \<Rightarrow> Pool \<Rightarrow> Eval \<Rightarrow> string" where
  "route_of conf pool eval =
     (if sint (MaxRetry conf) \<le> sint (Retry eval) then ScheduleDLQueueURL conf else pool_QueueURL pool)"

definition requeued :: "Conf \<Rightarrow> Pool \<Rightarrow> Eval \<Rightarrow> store \<Rightarrow> store \<Rightarrow> bool" where
  "requeued conf pool eval v v' \<longleftrightarrow> send_eff (route_of conf pool eval) (Some (json_of_Eval eval)) v = Some v'"

context seq_backend
begin

lemma wp_reschedule:
  assumes "\<And>w'. requeued conf pool eval (view w) (view w') \<Longrightarrow> Q w' (Ret ())"
    and "\<And>w'. sint (Retry eval) < sint (MaxRetry conf) \<Longrightarrow> queues (view w) (pool_QueueURL pool) = None \<Longrightarrow>
      view w' = view w \<Longrightarrow> Q w' (Ret ())"
    and "\<And>w' e. view w' = view w \<or> requeued conf pool eval (view w) (view w') \<Longrightarrow> Q w' (Fail e)"
  shows "wp (reschedule conf svc pool eval) Q w"
proof -
  have 1: "wp (call0 (sqs_SendMessage svc (route_of conf pool eval) (Some (json_of_Eval eval)))) Q' w"
    if "\<And>w'. requeued conf pool eval (view w) (view w') \<Longrightarrow> Q' w' (Ret ())"
      "\<And>w' e. aws_code e = Some ErrCodeQueueDoesNotExist \<Longrightarrow> queues (view w) (route_of conf pool eval) = None \<Longrightarrow>
        view w' = view w \<Longrightarrow> Q' w' (Fail e)"
      "\<And>w' e. aws_code e \<noteq> Some ErrCodeQueueDoesNotExist \<Longrightarrow>
        view w' = view w \<or> requeued conf pool eval (view w) (view w') \<Longrightarrow> Q' w' (Fail e)"
    for Q'
    by (rule wp_send) (auto intro: that simp: requeued_def send_eff_def)
  show ?thesis
  proof (cases "sint (MaxRetry conf) \<le> sint (Retry eval)")
    case True
    then show ?thesis
      unfolding reschedule_def wp_wrapping
      using 1 [where Q' = "\<lambda>w' r. case r of Ret x \<Rightarrow> Q w' (Ret x)
          | Fail e \<Rightarrow> Q w' (Fail (Wrapped e ''failed to send eval to dead letter queue'')) | Panic \<Rightarrow> Q w' Panic"] assms
      by (auto simp: route_of_def wp_wrapping)
  next
    case False
    let ?h = "\<lambda>err. if aws_code err \<noteq> Some ErrCodeQueueDoesNotExist
       then fails (Wrapped err ''failed to re-send eval on pool queue'') else ret ()"
    from False have route: "route_of conf pool eval = pool_QueueURL pool" by (simp add: route_of_def)
    have "wp (call0 (sqs_SendMessage svc (pool_QueueURL pool) (Some (json_of_Eval eval))))
        (\<lambda>w' r. case r of Ret x \<Rightarrow> Q w' (Ret x) | Fail e \<Rightarrow> wp (?h e) Q w' | Panic \<Rightarrow> Q w' Panic) w"
      by (rule 1 [unfolded route]) (use assms False in \<open>auto simp: wp_fails wp_ret\<close>)
    then show ?thesis
      by (simp only: reschedule_def False if_False wp_on_err)
  qed
qed

end

text \<open>What a pass may do to a table: keep an entry, or remove one that is in \<open>K\<close>.\<close>

definition only_removed :: "(store \<Rightarrow> key \<Rightarrow> item option) \<Rightarrow> key set \<Rightarrow> store \<Rightarrow> store \<Rightarrow> bool" where
  "only_removed tab K v v' \<longleftrightarrow> (\<forall>k. tab v' k = tab v k \<or> k \<in> K \<and> tab v' k = None)"

end
