(* ===== verification/Release_Properties.thy ===== *)
theory Release_Properties
  imports Release_Proofs Schedule_Properties
begin

section \<open>Properties of releasing\<close>

text \<open>The claims about \<open>handle_release.go\<close>, each with a run on the backend in memory.\<close>

lemmas release_run =
  prog_run mem_run releaseAlloc_def Alloc_PK_def reschedule_def release_expired_def releaseAllocs_def
  releaseReplicas_def releaseWorkers_def release_replica_def release_worker_def DeleteReplica_def DeleteWorker_def
  Replica_PK_def Worker_PK_def expired_replicas_def expired_workers_def expired_allocs_def expired_query_def
  cond_failed_as_def naming_defs to_json_defs

text \<open>A world with an allocation of size three on the worker of capacity ten; its ttl is over.\<close>

definition demo_alloc :: Alloc where
  "demo_alloc = \<lparr>alloc_PoolID = ''p'', alloc_AllocID = ''a'', alloc_TTL = 50, alloc_WorkerID = ''w1'',
     alloc_Eval = Some \<lparr>Dataset = [], Size = 3, Retry = 1\<rparr>\<rparr>"

definition alloc_world :: mem where
  "alloc_world = demo_mem\<lparr>m_items := (\<lambda>_. [])(''pools'' := [marshal_Pool demo_pool],
     ''workers'' := [marshal_Worker demo_worker], ''allocs'' := [marshal_Alloc demo_alloc]),
     m_queues := [''pq'' \<mapsto> []]\<rparr>"

lemma demo_release_run: "\<exists>w'. releaseAlloc demo demo_svc demo_alloc alloc_world = (w', Ret ())"
  by (simp add: release_run alloc_world_def demo_alloc_def)

lemma roundtrip_run:
  "\<exists>w1. schedule_eval demo demo_svc demo_pool ''0'' demo_eval received_world = (w1, Ret ()) \<and>
     (\<exists>it alloc w2. alloc_at demo (demo_view w1) ''p'' ''00000000000000000000'' = Some it \<and>
      unmarshal_Alloc it = Inr alloc \<and> releaseAlloc demo demo_svc alloc w1 = (w2, Ret ()))"
  by (simp add: schedule_run release_run received_world_def busy_world_def sub_key_def)

lemma demo_expired_run:
  "\<exists>w' r. release_expired demo demo_svc demo_pool (marshal_Alloc demo_alloc) alloc_world = (w', r) \<and>
     alloc_at demo (demo_view w') ''p'' ''a'' = None \<and> alloc_at demo (demo_view alloc_world) ''p'' ''a'' \<noteq> None"
  by (simp add: release_run alloc_world_def demo_alloc_def sub_key_def)

text \<open>A world with an expired worker and an expired replica.\<close>

definition stale_world :: mem where
  "stale_world = demo_mem\<lparr>m_items := (\<lambda>_. [])(''pools'' := [marshal_Pool demo_pool],
     ''workers'' := [marshal_Worker (demo_worker\<lparr>wrk_TTL := 40\<rparr>)],
     ''replicas'' := [marshal_Replica \<lparr>rpl_PoolID = ''p'', rpl_ReplicaID = ''d:w1'', rpl_TTL = 40\<rparr>]),
     m_queues := [''https://sqs.eu.amazonaws.com/1/line-p-w1'' \<mapsto> []]\<rparr>"

lemma demo_now: "time_Now_Unix demo_svc w = (w, 100)"
  by (simp add: mem_services_def)

subsection \<open>Giving back an allocation\<close>

text \<open>
  C19: What releasing an allocation does, by its result: without an evaluation it panics before
  it writes; on success the allocation is gone and its size is added to the worker; an error
  leaves the store as it was, or without the allocation, or fully released. Nobody else writes
  to the store meanwhile.
\<close>

theorem release_alloc_effect:
  assumes "seq_backend svc conf view" and "releaseAlloc conf svc alloc w = (w', r)"
  shows "case alloc_Eval alloc of
     None \<Rightarrow> w' = w \<and> r = Panic
   | Some eval \<Rightarrow> (case r of
       Ret _ \<Rightarrow> given_back conf alloc (sint (Size eval)) (view w) (view w')
     | Fail e \<Rightarrow> view w' = view w \<or> view w' = freed conf alloc (view w) \<or>
         given_back conf alloc (sint (Size eval)) (view w) (view w')
     | Panic \<Rightarrow> False)"
  by (rule releaseAlloc_result [OF assms])

theorem release_alloc_effect_witness:
  "\<exists>w'. given_back demo demo_alloc 3 (demo_view alloc_world) (demo_view w')"
proof -
  obtain w' where "releaseAlloc demo demo_svc demo_alloc alloc_world = (w', Ret ())"
    using demo_release_run by blast
  from release_alloc_effect [OF demo.seq_backend_axioms this] show ?thesis
    by (auto simp: demo_alloc_def)
qed

text \<open>
  C18: Scheduling an evaluation and then releasing the allocation it stored restores all tables.
  Nobody else writes to the store meanwhile.
\<close>

theorem schedule_release_roundtrip:
  assumes b: "seq_backend svc conf view" and run: "schedule_eval conf svc pool h eval w = (w1, Ret ())"
    and new: "alloc_at conf (view w) p i = None" "alloc_at conf (view w1) p i = Some it"
    and it: "unmarshal_Alloc it = Inr alloc"
    and r: "releaseAlloc conf svc alloc w1 = (w2, Ret ())"
  shows "tables (view w2) = tables (view w)"
proof -
  have d: "tables_distinct conf" by (rule backend.conf_tables [OF seq_backend.is_backend [OF b]])
  from wp_run [OF seq_backend.wp_schedule_eval [OF b, where Q = "\<lambda>w' r. r = Ret () \<longrightarrow>
      (\<exists>a. scheduled conf pool h eval a (view w) (view w'))"] run]
  obtain a where s: "scheduled conf pool h eval a (view w) (view w1)" by auto
  then obtain v1 where c: "claimed conf (alloc_PoolID a) (alloc_WorkerID a) (sint (Size eval)) (view w) v1"
    and t: "tables (view w1) = tables (set_alloc conf (alloc_PoolID a) (alloc_AllocID a) (Some (marshal_Alloc a)) v1)"
    and n: "alloc_at conf (view w) (alloc_PoolID a) (alloc_AllocID a) = None"
    and e: "alloc_Eval a = Some (eval\<lparr>Retry := Retry eval + 1\<rparr>)"
    by (auto simp: scheduled_def)
  from new t claimed_other_table [OF c, of "AllocsTableName conf"] tables_neq [OF d] have "it = marshal_Alloc a"
    by (auto split: if_splits)
  with it have "alloc = a" by (simp add: unmarshal_marshal)
  with r e have "given_back conf a (sint (Size eval)) (view w1) (view w2)"
    using releaseAlloc_result [OF b r] by simp
  with c t n show ?thesis by (rule claim_give_back [OF d])
qed

theorem schedule_release_roundtrip_witness:
  "\<exists>w1 w2 alloc. schedule_eval demo demo_svc demo_pool ''0'' demo_eval received_world = (w1, Ret ()) \<and>
     releaseAlloc demo demo_svc alloc w1 = (w2, Ret ()) \<and> tables (demo_view w2) = tables (demo_view received_world)"
proof -
  obtain w1 where run: "schedule_eval demo demo_svc demo_pool ''0'' demo_eval received_world = (w1, Ret ())"
    and at: "\<exists>it alloc w2. alloc_at demo (demo_view w1) ''p'' ''00000000000000000000'' = Some it \<and>
      unmarshal_Alloc it = Inr alloc \<and> releaseAlloc demo demo_svc alloc w1 = (w2, Ret ())"
    using roundtrip_run by blast
  have no: "alloc_at demo (demo_view received_world) ''p'' ''00000000000000000000'' = None"
    by (simp add: schedule_run received_world_def busy_world_def)
  from at schedule_release_roundtrip [OF demo.seq_backend_axioms run no] run show ?thesis by blast
qed

text \<open>
  C35: Releasing the same allocation twice, as when a completion races with the release pass or
  reads a stale item, adds its size to the capacity of its worker both times if both releases
  succeed: neither the deletion nor the addition has a condition on the allocation. Apart from
  the two releases nobody writes.
\<close>

theorem double_release_inflates:
  assumes b: "seq_backend svc conf view" and e: "alloc_Eval alloc = Some eval"
    and c: "cap_of conf (view w) (alloc_PoolID alloc) (alloc_WorkerID alloc) = Some c"
    and r1: "releaseAlloc conf svc alloc w = (w1, Ret ())" and r2: "releaseAlloc conf svc alloc w1 = (w2, Ret ())"
  shows "cap_of conf (view w2) (alloc_PoolID alloc) (alloc_WorkerID alloc) = Some (c + 2 * sint (Size eval))"
proof -
  have d: "tables_distinct conf" by (rule backend.conf_tables [OF seq_backend.is_backend [OF b]])
  from releaseAlloc_result [OF b r1] releaseAlloc_result [OF b r2] e
  have "given_back conf alloc (sint (Size eval)) (view w) (view w1)"
    "given_back conf alloc (sint (Size eval)) (view w1) (view w2)" by simp_all
  from this [THEN given_back_cap(1) [OF d]] c show ?thesis by auto
qed

theorem double_release_inflates_witness:
  "\<exists>w1 w2. releaseAlloc demo demo_svc demo_alloc alloc_world = (w1, Ret ()) \<and>
     releaseAlloc demo demo_svc demo_alloc w1 = (w2, Ret ()) \<and> cap_of demo (demo_view w2) ''p'' ''w1'' = Some 16"
proof -
  have "\<exists>w1 w2. releaseAlloc demo demo_svc demo_alloc alloc_world = (w1, Ret ()) \<and>
      releaseAlloc demo demo_svc demo_alloc w1 = (w2, Ret ())"
    by (simp add: release_run alloc_world_def demo_alloc_def)
  then obtain w1 w2 where r: "releaseAlloc demo demo_svc demo_alloc alloc_world = (w1, Ret ())"
    "releaseAlloc demo demo_svc demo_alloc w1 = (w2, Ret ())" by blast
  have a: "alloc_PoolID demo_alloc = ''p''" "alloc_WorkerID demo_alloc = ''w1''"
    "alloc_Eval demo_alloc = Some \<lparr>Dataset = [], Size = 3, Retry = 1\<rparr>" by (simp_all add: demo_alloc_def)
  have "cap_of demo (demo_view alloc_world) (alloc_PoolID demo_alloc) (alloc_WorkerID demo_alloc) = Some 10"
    by (simp add: release_run alloc_world_def demo_alloc_def cap_of_def sub_key_def)
  from double_release_inflates [OF demo.seq_backend_axioms a(3) this r] r show ?thesis
    unfolding a by auto
qed

theorem missing_worker_loses_alloc:
  assumes b: "seq_backend svc conf view" and e: "alloc_Eval alloc = Some eval"
    and k: "worker_at conf (view w) (alloc_PoolID alloc) (alloc_WorkerID alloc) = None"
    and r: "releaseAlloc conf svc alloc w = (w', r)"
  shows "(\<exists>x. r = Fail x) \<and> (view w' = view w \<or> view w' = freed conf alloc (view w))"
  using releaseAlloc_result [OF b r] e k by (auto simp: given_back_def split: outcome.splits)

theorem missing_worker_loses_alloc_witness:
  "\<exists>w' x. releaseAlloc demo demo_svc demo_alloc demo_mem = (w', Fail x) \<and>
     (demo_view w' = demo_view demo_mem \<or> demo_view w' = freed demo demo_alloc (demo_view demo_mem))"
proof -
  obtain w' r where run: "releaseAlloc demo demo_svc demo_alloc demo_mem = (w', r)" by fastforce
  have "worker_at demo (demo_view demo_mem) (alloc_PoolID demo_alloc) (alloc_WorkerID demo_alloc) = None"
    by (simp add: demo_mem_def lookup_item_def)
  from missing_worker_loses_alloc [OF demo.seq_backend_axioms _ this run] run show ?thesis
    by (auto simp: demo_alloc_def)
qed

subsection \<open>Rescheduling\<close>

theorem reschedule_routes:
  assumes "seq_backend svc conf view" and "reschedule conf svc pool eval w = (w', r)"
  shows "case r of
     Ret _ \<Rightarrow> requeued conf pool eval (view w) (view w') \<or>
       sint (Retry eval) < sint (MaxRetry conf) \<and> queues (view w) (pool_QueueURL pool) = None \<and> view w' = view w
   | Fail e \<Rightarrow> view w' = view w \<or> requeued conf pool eval (view w) (view w')
   | Panic \<Rightarrow> False"
  by (rule wp_run [OF seq_backend.wp_reschedule [OF assms(1)] assms(2)]) auto

theorem reschedule_routes_witness:
  "\<exists>w'. requeued demo demo_pool demo_eval (demo_view alloc_world) (demo_view w')"
proof -
  have "\<exists>w'. reschedule demo demo_svc demo_pool demo_eval alloc_world = (w', Ret ())"
    by (simp add: release_run alloc_world_def)
  then obtain w' where "reschedule demo demo_svc demo_pool demo_eval alloc_world = (w', Ret ())" by blast
  from reschedule_routes [OF demo.seq_backend_axioms this]
  show ?thesis by (auto simp: alloc_world_def demo_pool_def)
qed

text \<open>
  C20: If the release pass changes any table for an expired allocation, then its evaluation was
  put on the dead letter queue or the pool queue before, or the pool queue no longer exists and
  retries were left. Nobody else writes to the store meanwhile.
\<close>

theorem expired_eval_not_lost:
  assumes b: "seq_backend svc conf view" and r: "release_expired conf svc pool it w = (w', r)"
    and changed: "tables (view w') \<noteq> tables (view w)"
  shows "\<exists>alloc eval. unmarshal_Alloc it = Inr alloc \<and> alloc_Eval alloc = Some eval \<and>
     ((\<exists>v1. requeued conf pool eval (view w) v1 \<and> queues (view w') = queues v1) \<or>
      sint (Retry eval) < sint (MaxRetry conf) \<and> queues (view w) (pool_QueueURL pool) = None)"
proof -
  let ?Q = "\<lambda>w' r. tables (view w') \<noteq> tables (view w) \<longrightarrow>
    (\<exists>alloc eval. unmarshal_Alloc it = Inr alloc \<and> alloc_Eval alloc = Some eval \<and>
     ((\<exists>v1. requeued conf pool eval (view w) v1 \<and> queues (view w') = queues v1) \<or>
      sint (Retry eval) < sint (MaxRetry conf) \<and> queues (view w) (pool_QueueURL pool) = None))"
  have q: "view w2 = view w1 \<or> view w2 = freed conf alloc (view w1) \<or> given_back conf alloc n (view w1) (view w2) \<Longrightarrow>
      queues (view w2) = queues (view w1)" for w1 w2 alloc n
    by (auto simp: given_back_def)
  have "wp (release_expired conf svc pool it) ?Q w"
  proof (cases "unmarshal_Alloc it")
    case (Inr alloc)
    show ?thesis
    proof (cases "alloc_WorkerID alloc = [] \<or> alloc_Eval alloc = None")
      case False
      then obtain eval where e: "alloc_Eval alloc = Some eval" by auto
      have tail: "wp (logged (releaseAlloc conf svc alloc)) ?Q w1"
        if "(\<exists>v1. requeued conf pool eval (view w) v1 \<and> queues (view w1) = queues v1) \<or>
          sint (Retry eval) < sint (MaxRetry conf) \<and> queues (view w) (pool_QueueURL pool) = None" for w1
        unfolding wp_logged
      proof (rule seq_backend.wp_releaseAlloc [OF b], goal_cases)
        case (2 w2 eval')
        then have "queues (view w2) = queues (view w1)" by (intro q) auto
        with that Inr e show ?case by auto
      next
        case (3 w2 x eval')
        then have "queues (view w2) = queues (view w1)" by (intro q) auto
        with that Inr e show ?case by auto
      qed (use e in simp)
      have rel: "release_expired conf svc pool it =
          bnd (reschedule conf svc pool eval) (\<lambda>_. logged (releaseAlloc conf svc alloc))"
        using False Inr e by (simp add: release_expired_def)
      show ?thesis
        unfolding rel wp_bnd
      proof (rule seq_backend.wp_reschedule [OF b], goal_cases)
        case (1 w1)
        then show ?case unfolding outcome.case by (intro tail) blast
      next
        case (2 w1)
        then show ?case unfolding outcome.case by (intro tail) blast
      next
        case (3 w1 e)
        then show ?case unfolding outcome.case by (auto simp: requeued_def dest: tables_send_eff)
      qed
    qed (use Inr in \<open>auto simp: release_expired_def wp_ret split: option.split\<close>)
  qed (simp add: release_expired_def wp_ret)
  from wp_run [OF this r] changed show ?thesis by simp
qed

theorem expired_eval_not_lost_witness:
  "\<exists>w' eval v1. requeued demo demo_pool eval (demo_view alloc_world) v1 \<and> queues (demo_view w') = queues v1"
proof -
  obtain w' r where run: "release_expired demo demo_svc demo_pool (marshal_Alloc demo_alloc) alloc_world = (w', r)"
    and c: "alloc_at demo (demo_view w') ''p'' ''a'' = None" "alloc_at demo (demo_view alloc_world) ''p'' ''a'' \<noteq> None"
    using demo_expired_run by blast
  from c have "tables (demo_view w') \<noteq> tables (demo_view alloc_world)" by auto
  from expired_eval_not_lost [OF demo.seq_backend_axioms run this]
  show ?thesis by (auto simp: alloc_world_def demo_pool_def)
qed

subsection \<open>The passes\<close>

theorem release_replicas_only_expired:
  assumes b: "seq_fresh_backend svc conf view" and c: "time_Now_Unix svc w = (w0, now)"
    and r: "releaseReplicas conf svc pool w = (w', r)"
    and gone: "tables (view w') (ReplicasTableName conf) k \<noteq> tables (view w) (ReplicasTableName conf) k"
  shows "tables (view w') (ReplicasTableName conf) k = None \<and>
     (\<exists>key it x. tables (view w) (ReplicasTableName conf) key = Some it \<and> expired pool now it \<and>
        unmarshal_Replica it = Inr x \<and> k = sub_key (rpl_PoolID x) (rpl_ReplicaID x))"
proof -
  let ?T = "\<lambda>v. tables v (ReplicasTableName conf)"
  let ?K = "{k. \<exists>key it x. ?T (view w) key = Some it \<and> expired pool now it \<and>
        unmarshal_Replica it = Inr x \<and> k = sub_key (rpl_PoolID x) (rpl_ReplicaID x)}"
  have w0: "view w0 = view w" using backend.now [OF seq_backend.is_backend c] b seq_fresh_backend.is_item seq_item_backend.is_seq by metis
  have "keeps (\<lambda>w'. only_removed ?T ?K (view w) (view w')) (bnd (wrapping ''failed to query replicas''
      (call (db_Query svc (expired_replicas conf pool now)))) (each (release_replica conf svc)))"
    by (rule fresh_backend.keeps_replicas_at [OF seq_fresh_backend.is_fresh [OF b] stable_eq])
       (auto simp: only_removed_def, (metis option.distinct(1))+)
  then have "only_removed ?T ?K (view w) (view w')"
    by (rule keepsD) (use r c w0 in \<open>auto simp: only_removed_def releaseReplicas_def bnd_def reads_def\<close>)
  with gone show ?thesis by (auto simp: only_removed_def)
qed

theorem release_replicas_only_expired_witness:
  "\<exists>w' key it x. tables (demo_view stale_world) ''replicas'' key = Some it \<and> expired demo_pool 100 it \<and>
     unmarshal_Replica it = Inr x \<and> sub_key ''p'' ''d:w1'' = sub_key (rpl_PoolID x) (rpl_ReplicaID x) \<and>
     replica_at demo (demo_view w') ''p'' ''d:w1'' = None"
proof -
  have "\<exists>w' r. releaseReplicas demo demo_svc demo_pool stale_world = (w', r) \<and>
      replica_at demo (demo_view w') ''p'' ''d:w1'' \<noteq> replica_at demo (demo_view stale_world) ''p'' ''d:w1''"
    by (simp add: release_run stale_world_def sub_key_def)
  then obtain w' r where "releaseReplicas demo demo_svc demo_pool stale_world = (w', r)"
    "replica_at demo (demo_view w') ''p'' ''d:w1'' \<noteq> replica_at demo (demo_view stale_world) ''p'' ''d:w1''" by blast
  from release_replicas_only_expired [OF demo.seq_fresh_backend_axioms demo_now this]
  show ?thesis by (auto simp: demo_def)
qed

theorem release_workers_only_expired:
  assumes b: "seq_fresh_backend svc conf view" and c: "time_Now_Unix svc w = (w0, now)"
    and r: "releaseWorkers conf svc pool w = (w', r)"
    and gone: "tables (view w') (WorkersTableName conf) k \<noteq> tables (view w) (WorkersTableName conf) k"
  shows "tables (view w') (WorkersTableName conf) k = None \<and>
     (\<exists>key it x. tables (view w) (WorkersTableName conf) key = Some it \<and> expired pool now it \<and>
        unmarshal_Worker (projected conf (WorkersTableName conf) (Some (WorkersTTLIdxName conf)) it) = Inr x \<and>
        k = sub_key (wrk_PoolID x) (wrk_WorkerID x))"
proof -
  let ?T = "\<lambda>v. tables v (WorkersTableName conf)"
  let ?K = "{k. \<exists>key it x. ?T (view w) key = Some it \<and> expired pool now it \<and>
        unmarshal_Worker (projected conf (WorkersTableName conf) (Some (WorkersTTLIdxName conf)) it) = Inr x \<and>
        k = sub_key (wrk_PoolID x) (wrk_WorkerID x)}"
  have w0: "view w0 = view w" using backend.now [OF seq_backend.is_backend c] b seq_fresh_backend.is_item seq_item_backend.is_seq by metis
  have "keeps (\<lambda>w'. only_removed ?T ?K (view w) (view w')) (bnd (wrapping ''failed to query workers''
      (call (db_Query svc (expired_workers conf pool now)))) (each (release_worker conf svc)))"
    by (rule fresh_backend.keeps_workers_at [OF seq_fresh_backend.is_fresh [OF b] stable_eq])
       (auto simp: only_removed_def, (metis option.distinct(1))+)
  then have "only_removed ?T ?K (view w) (view w')"
    by (rule keepsD) (use r c w0 in \<open>auto simp: only_removed_def releaseWorkers_def bnd_def reads_def\<close>)
  with gone show ?thesis by (auto simp: only_removed_def)
qed

theorem release_workers_only_expired_witness:
  "\<exists>w' key it. tables (demo_view stale_world) ''workers'' key = Some it \<and> expired demo_pool 100 it \<and>
     worker_at demo (demo_view w') ''p'' ''w1'' = None"
proof -
  have "\<exists>w' r. releaseWorkers demo demo_svc demo_pool stale_world = (w', r) \<and>
      worker_at demo (demo_view w') ''p'' ''w1'' \<noteq> worker_at demo (demo_view stale_world) ''p'' ''w1''"
    by (simp add: release_run stale_world_def sub_key_def)
  then obtain w' r where "releaseWorkers demo demo_svc demo_pool stale_world = (w', r)"
    "worker_at demo (demo_view w') ''p'' ''w1'' \<noteq> worker_at demo (demo_view stale_world) ''p'' ''w1''" by blast
  from release_workers_only_expired [OF demo.seq_fresh_backend_axioms demo_now this]
  show ?thesis by (auto simp: demo_def)
qed



end
