(* ===== verification/Go_Strings.thy ===== *)
theory Go_Strings
  imports Prelude
begin

section \<open>Strings of the Go library\<close>

text \<open>
  The functions of \<open>strings\<close>, \<open>strconv\<close> and \<open>path\<close> that the program calls, on strings as lists of
  bytes, and their laws: splitting and joining are inverse to each other, a split with a limit is
  the full split with its tail joined again, and a decimal numeral parses to its value.
\<close>

subsection \<open>Splitting and joining\<close>

text \<open>The part before the first separator and, if there is a separator, the part after it.\<close>

fun cut_at :: "char \<Rightarrow> string \<Rightarrow> string \<times> string option" where
  "cut_at c [] = ([], None)"
| "cut_at c (x # xs) = (if x = c then ([], Some xs) else (case cut_at c xs of (a, r) \<Rightarrow> (x # a, r)))"

text \<open>\<open>strings.Split(s, sep)\<close> for a separator of one byte.\<close>

fun Split :: "char \<Rightarrow> string \<Rightarrow> string list" where
  "Split c [] = [[]]"
| "Split c (x # xs) =
     (if x = c then [] # Split c xs else (case Split c xs of [] \<Rightarrow> [[x]] | y # ys \<Rightarrow> (x # y) # ys))"

text \<open>\<open>strings.SplitN(s, sep, n)\<close>: at most \<open>n\<close> parts, the last one unsplit; all of them for a negative \<open>n\<close>.\<close>

fun split_upto :: "char \<Rightarrow> nat \<Rightarrow> string \<Rightarrow> string list" where
  "split_upto c 0 s = []"
| "split_upto c (Suc 0) s = [s]"
| "split_upto c (Suc (Suc n)) s = (case cut_at c s of
     (a, None) \<Rightarrow> [a] | (a, Some r) \<Rightarrow> a # split_upto c (Suc n) r)"

definition SplitN :: "char \<Rightarrow> int64 \<Rightarrow> string \<Rightarrow> string list" where
  "SplitN c n s = (if sint n < 0 then Split c s else split_upto c (nat (sint n)) s)"

text \<open>\<open>strings.Join(xs, sep)\<close>\<close>

fun Join :: "char \<Rightarrow> string list \<Rightarrow> string" where
  "Join c [] = []"
| "Join c [x] = x"
| "Join c (x # y # ys) = x @ c # Join c (y # ys)"

lemma Split_nonempty [simp]: "Split c s \<noteq> []"
  by (cases s) (auto split: list.split)

lemma Join_Cons: "xs \<noteq> [] \<Longrightarrow> Join c (x # xs) = x @ c # Join c xs"
  by (cases xs) simp_all

lemma Join_Split [simp]: "Join c (Split c s) = s"
proof (induction s)
  case (Cons x xs)
  then show ?case
    by (cases "Split c xs"; cases "tl (Split c xs)") (auto simp: Join_Cons)
qed simp

lemma Split_parts: "\<forall>p \<in> set (Split c s). c \<notin> set p"
proof (induction s)
  case (Cons x xs)
  then show ?case by (cases "Split c xs") auto
qed simp

lemma Split_no_sep: "c \<notin> set s \<Longrightarrow> Split c s = [s]"
  by (induction s) auto

lemma Split_append: "c \<notin> set a \<Longrightarrow> Split c (a @ c # s) = a # Split c s"
  by (induction a) auto

lemma Split_Join: "xs \<noteq> [] \<Longrightarrow> \<forall>x \<in> set xs. c \<notin> set x \<Longrightarrow> Split c (Join c xs) = xs"
  by (induction c xs rule: Join.induct) (simp_all add: Split_no_sep Split_append)

lemma cut_at_None: "c \<notin> set s \<Longrightarrow> cut_at c s = (s, None)"
  by (induction s) auto

lemma cut_at_Some: "c \<notin> set a \<Longrightarrow> cut_at c (a @ c # r) = (a, Some r)"
  by (induction a) auto

lemma cut_at_cases:
  obtains (None) "c \<notin> set s" and "cut_at c s = (s, None)"
  | (Some) a r where "s = a @ c # r" and "c \<notin> set a" and "cut_at c s = (a, Some r)"
proof (cases "c \<in> set s")
  case True
  then obtain a r where "s = a @ c # r" and "c \<notin> set a" by (meson split_list_first)
  then show ?thesis using Some cut_at_Some by metis
next
  case False
  then show ?thesis using None cut_at_None by metis
qed

lemma Split_cut_at: "Split c s = (case cut_at c s of (a, None) \<Rightarrow> [a] | (a, Some r) \<Rightarrow> a # Split c r)"
  by (cases rule: cut_at_cases [of c s]) (simp_all add: Split_no_sep Split_append)

text \<open>A limited split is the full split as long as it fits, and its tail is joined when it does not.\<close>

lemma split_upto_Split:
  "split_upto c (Suc n) s =
     (if length (Split c s) \<le> Suc n then Split c s
      else take n (Split c s) @ [Join c (drop n (Split c s))])"
proof (induction n arbitrary: s)
  case 0
  then show ?case
    by (cases "Split c s") (use Join_Split [of c s] in auto)
next
  case (Suc n)
  show ?case
    by (cases rule: cut_at_cases [of c s])
       (auto simp: Split_no_sep Split_append Suc)
qed

lemma Join_append: "ys \<noteq> [] \<Longrightarrow> Join c (xs @ [Join c ys]) = Join c (xs @ ys)"
  by (induction xs) (simp_all add: Join_Cons)

lemma Join_split_upto [simp]: "Join c (split_upto c (Suc n) s) = s"
  by (simp add: split_upto_Split Join_append)

lemma length_split_upto: "length (split_upto c n s) \<le> n"
  by (induction c n s rule: split_upto.induct) (auto split: prod.splits option.splits)

subsection \<open>Prefixes and trimming\<close>

definition HasPrefix :: "string \<Rightarrow> string \<Rightarrow> bool" where
  "HasPrefix s p \<longleftrightarrow> take (length p) s = p"

definition HasSuffix :: "string \<Rightarrow> string \<Rightarrow> bool" where
  "HasSuffix s p \<longleftrightarrow> length p \<le> length s \<and> drop (length s - length p) s = p"

definition TrimPrefix :: "string \<Rightarrow> string \<Rightarrow> string" where
  "TrimPrefix s p = (if HasPrefix s p then drop (length p) s else s)"

text \<open>\<open>strings.TrimLeft(s, "c")\<close>\<close>

definition TrimLeft :: "char \<Rightarrow> string \<Rightarrow> string" where
  "TrimLeft c s = dropWhile (\<lambda>x. x = c) s"

text \<open>\<open>strings.TrimSpace\<close> on bytes of ASCII.\<close>

definition is_space :: "char \<Rightarrow> bool" where
  "is_space c \<longleftrightarrow> (of_char c :: nat) \<in> {9, 10, 11, 12, 13, 32}"

definition TrimSpace :: "string \<Rightarrow> string" where
  "TrimSpace s = rev (dropWhile is_space (rev (dropWhile is_space s)))"

lemma HasPrefix_iff: "HasPrefix s p \<longleftrightarrow> (\<exists>r. s = p @ r)"
  by (metis HasPrefix_def append_eq_conv_conj append_take_drop_id)

lemma HasPrefix_append [simp]: "HasPrefix (p @ r) p"
  by (auto simp: HasPrefix_iff)

lemma TrimPrefix_append [simp]: "TrimPrefix (p @ r) p = r"
  by (simp add: TrimPrefix_def)

lemma HasSuffix_iff: "HasSuffix s p \<longleftrightarrow> (\<exists>r. s = r @ p)"
proof
  assume "HasSuffix s p"
  then have "s = take (length s - length p) s @ p"
    by (metis HasSuffix_def append_take_drop_id)
  then show "\<exists>r. s = r @ p" by blast
qed (auto simp: HasSuffix_def)

subsection \<open>Decimal numerals\<close>

definition is_digit :: "char \<Rightarrow> bool" where
  "is_digit c \<longleftrightarrow> 48 \<le> (of_char c :: nat) \<and> (of_char c :: nat) \<le> 57"

text \<open>The value of a hexadecimal digit.\<close>

definition unhex :: "char \<Rightarrow> nat option" where
  "unhex c = (let n = (of_char c :: nat) in
     if 48 \<le> n \<and> n \<le> 57 then Some (n - 48)
     else if 97 \<le> n \<and> n \<le> 102 then Some (n - 87)
     else if 65 \<le> n \<and> n \<le> 70 then Some (n - 55) else None)"

definition digit_value :: "char \<Rightarrow> nat" where
  "digit_value c = of_char c - 48"

definition digits_value :: "string \<Rightarrow> nat" where
  "digits_value s = foldl (\<lambda>n c. 10 * n + digit_value c) 0 s"

text \<open>
  \<open>strconv.Atoi(s)\<close>: an optional sign and at least one digit, in the range of a 64-bit integer.
\<close>

definition parse_digits :: "bool \<Rightarrow> string \<Rightarrow> goerr + int64" where
  "parse_digits neg s =
     (if s = [] \<or> \<not> list_all is_digit s then Inl (OtherErr ''invalid syntax'')
      else let i = (if neg then - int (digits_value s) else int (digits_value s))
           in if in_int64 i then Inr (word_of_int i) else Inl (OtherErr ''value out of range''))"

fun Atoi :: "string \<Rightarrow> goerr + int64" where
  "Atoi [] = parse_digits False []"
| "Atoi (c # cs) = (if c = CHR ''-'' then parse_digits True cs
     else if c = CHR ''+'' then parse_digits False cs else parse_digits False (c # cs))"

lemma digit_simps: "d < 10 \<Longrightarrow> is_digit (digit d) \<and> digit_value (digit d) = d"
  by (simp add: is_digit_def digit_value_def digit_def)

lemma digits_value_snoc [simp]: "digits_value (s @ [c]) = 10 * digits_value s + digit_value c"
  by (simp add: digits_value_def)

lemma nat_text_digits: "list_all is_digit (nat_text n) \<and> digits_value (nat_text n) = n \<and> nat_text n \<noteq> []"
proof (induction n rule: nat_text.induct)
  case (1 n)
  then show ?case
    by (subst (1 2 3) nat_text.simps)
       (auto simp: digit_simps digits_value_def)
qed

lemma nat_text_0: "nat_text 0 = ''0''"
proof -
  have "char_of (48 :: nat) = CHR ''0''" by (simp add: char_of_def bit_Suc_0_iff)
  then show ?thesis by (subst nat_text.simps) (simp add: digit_def)
qed

lemma nat_text_nonzero: "n > 0 \<Longrightarrow> hd (nat_text n) \<noteq> CHR ''0''"
proof (induction n rule: nat_text.induct)
  case (1 n)
  show ?case
  proof (cases "n < 10")
    case True
    then have v: "digit_value (digit n) = n" by (simp add: digit_simps)
    have z: "digit_value (CHR ''0'') = 0" by (simp add: digit_value_def)
    have "digit n \<noteq> CHR ''0''"
    proof
      assume "digit n = CHR ''0''"
      then have "digit_value (digit n) = digit_value (CHR ''0'')" by (rule arg_cong)
      with v z 1(2) show False by linarith
    qed
    moreover have "nat_text n = [digit n]" using True by (subst nat_text.simps) (rule if_P)
    ultimately show ?thesis by (simp only: list.sel not_False_eq_True)
  next
    case False
    then have "hd (nat_text (n div 10)) \<noteq> CHR ''0''" using 1(1) by simp
    moreover have "nat_text (n div 10) \<noteq> []" using nat_text_digits by blast
    moreover have "nat_text n = nat_text (n div 10) @ [digit (n mod 10)]"
      using False by (subst nat_text.simps) (rule if_not_P)
    ultimately show ?thesis by (simp only: hd_append2 not_False_eq_True)
  qed
qed

lemma digit_not_sign: "is_digit c \<Longrightarrow> c \<noteq> CHR ''-'' \<and> c \<noteq> CHR ''+''"
  by (auto simp: is_digit_def)

lemma Atoi_digits:
  assumes "list_all is_digit s" and "s \<noteq> []"
  shows "Atoi s = parse_digits False s" and "Atoi (CHR ''-'' # s) = parse_digits True s"
  using assms digit_not_sign by (cases s; auto)+

text \<open>An integer's decimal text parses back to it.\<close>

lemma Atoi_int_text: "Atoi (int_text (sint i)) = Inr i"
proof -
  have "in_int64 (sint i)" by simp
  then show ?thesis
    using nat_text_digits [of "nat (sint i)"] nat_text_digits [of "nat (- sint i)"]
    by (auto simp: int_text_def parse_digits_def Let_def Atoi_digits)
qed

end
