(* ===== verification/JSON_Text.thy ===== *)
theory JSON_Text
  imports Services Go_Strings "HOL-Library.Char_ord"
begin

section \<open>The text of JSON documents (\<open>encoding/json\<close>)\<close>

text \<open>
  Bodies are documents elsewhere; here are the texts that are sent for them. \<open>json_Marshal\<close> is what
  \<open>encoding/json\<close> writes, \<open>json_Parse\<close> what \<open>json.Unmarshal\<close> makes of a text and \<open>json_Decode\<close> what
  the first \<open>Decode\<close> of a \<open>json.Decoder\<close> makes of it: the decoder stops after the first value and
  leaves the rest unread. Strings are lists of bytes; both directions replace bytes that are no
  UTF-8 by the replacement character. What was read from some text is read back from the text that
  is written for it (\<open>json_Parse_Marshal\<close>).
\<close>

subsection \<open>UTF-8 (\<open>unicode/utf8\<close>, \<open>unicode/utf16\<close>)\<close>

definition byte :: "char \<Rightarrow> nat" where
  "byte c = of_char c"

text \<open>The length of the valid encoding of a rune at the front of a string, or zero.\<close>

definition in_range :: "nat \<Rightarrow> nat \<Rightarrow> string \<Rightarrow> nat \<Rightarrow> bool" where
  "in_range lo hi s i \<longleftrightarrow> i < length s \<and> lo \<le> byte (s ! i) \<and> byte (s ! i) \<le> hi"

definition cont :: "string \<Rightarrow> nat \<Rightarrow> bool" where
  "cont s i \<longleftrightarrow> in_range 128 191 s i"

definition rune_len :: "string \<Rightarrow> nat" where
  "rune_len s = (if s = [] then 0 else
     let n = byte (hd s) in
     if n < 128 then 1
     else if 194 \<le> n \<and> n \<le> 223 then (if cont s 1 then 2 else 0)
     else if 224 \<le> n \<and> n \<le> 239
     then (if in_range (if n = 224 then 160 else 128) (if n = 237 then 159 else 191) s 1 \<and> cont s 2 then 3 else 0)
     else if 240 \<le> n \<and> n \<le> 244
     then (if in_range (if n = 240 then 144 else 128) (if n = 244 then 143 else 191) s 1 \<and> cont s 2 \<and> cont s 3
           then 4 else 0)
     else 0)"

text \<open>\<open>utf8.EncodeRune\<close>, for a code point that is no surrogate.\<close>

definition enc_rune :: "nat \<Rightarrow> string" where
  "enc_rune r =
     (if r < 128 then [char_of r]
      else if r < 2048 then [char_of (192 + r div 64), char_of (128 + r mod 64)]
      else if r < 65536 then [char_of (224 + r div 4096), char_of (128 + r div 64 mod 64), char_of (128 + r mod 64)]
      else [char_of (240 + r div 262144), char_of (128 + r div 4096 mod 64), char_of (128 + r div 64 mod 64),
            char_of (128 + r mod 64)])"

definition RuneError :: nat where
  "RuneError = 65533"

definition IsSurrogate :: "nat \<Rightarrow> bool" where
  "IsSurrogate r \<longleftrightarrow> 55296 \<le> r \<and> r < 57344"

definition utf16_DecodeRune :: "nat \<Rightarrow> nat \<Rightarrow> nat option" where
  "utf16_DecodeRune a b =
     (if 55296 \<le> a \<and> a < 56320 \<and> 56320 \<le> b \<and> b < 57344
      then Some ((a - 55296) * 1024 + (b - 56320) + 65536) else None)"

lemma rune_len_le: "rune_len s \<le> length s"
  by (auto simp: rune_len_def cont_def in_range_def Let_def Suc_le_eq)

lemma rune_len_Nil [simp]: "rune_len [] = 0"
  by (simp add: rune_len_def)

lemma in_range_append: "in_range lo hi s i \<Longrightarrow> in_range lo hi (s @ r) i"
  by (simp add: in_range_def nth_append)

lemma cont_append: "cont s i \<Longrightarrow> cont (s @ r) i"
  by (simp add: cont_def in_range_append)

lemma rune_len_append: "rune_len s > 0 \<Longrightarrow> rune_len (s @ r) = rune_len s"
proof -
  assume pos: "rune_len s > 0"
  then have ne: "s \<noteq> []" by auto
  define n where "n = byte (hd s)"
  have h: "byte (hd (s @ r)) = n" "byte (hd s) = n" using ne by (simp_all add: n_def)
  have eqs: "rune_len t = (if n < 128 then 1
     else if 194 \<le> n \<and> n \<le> 223 then (if cont t 1 then 2 else 0)
     else if 224 \<le> n \<and> n \<le> 239
     then (if in_range (if n = 224 then 160 else 128) (if n = 237 then 159 else 191) t 1 \<and> cont t 2 then 3 else 0)
     else if 240 \<le> n \<and> n \<le> 244
     then (if in_range (if n = 240 then 144 else 128) (if n = 244 then 143 else 191) t 1 \<and> cont t 2 \<and> cont t 3
           then 4 else 0)
     else 0)" if "t \<noteq> []" "byte (hd t) = n" for t
    using that by (simp only: rune_len_def Let_def if_False)
  have "s @ r \<noteq> []" using ne by simp
  note eqs = eqs [OF ne h(2)] eqs [OF this h(1)]
  show ?thesis
  proof (cases "n < 128")
    case True
    then show ?thesis by (simp only: eqs if_True)
  next
    case a: False
    show ?thesis
    proof (cases "194 \<le> n \<and> n \<le> 223")
      case True
      with pos a have "cont s 1" by (simp only: eqs if_True if_False split: if_splits)
      with a True show ?thesis by (simp only: eqs if_True if_False cont_append simp_thms)
    next
      case b: False
      show ?thesis
      proof (cases "224 \<le> n \<and> n \<le> 239")
        case True
        with pos a b have "in_range (if n = 224 then 160 else 128) (if n = 237 then 159 else 191) s 1 \<and> cont s 2"
          by (auto simp only: eqs if_True if_False split: if_splits)
        with a b True show ?thesis by (simp only: eqs if_True if_False cont_append in_range_append simp_thms)
      next
        case c: False
        with pos a b have "240 \<le> n \<and> n \<le> 244 \<and>
            in_range (if n = 240 then 144 else 128) (if n = 244 then 143 else 191) s 1 \<and> cont s 2 \<and> cont s 3"
          by (auto simp only: eqs if_True if_False split: if_splits)
        with a b c show ?thesis by (simp only: eqs if_True if_False cont_append in_range_append simp_thms)
      qed
    qed
  qed
qed

text \<open>Strings of valid UTF-8.\<close>

fun utf8 :: "string \<Rightarrow> bool" where
  "utf8 [] = True"
| "utf8 (c # cs) = (rune_len (c # cs) > 0 \<and> utf8 (drop (rune_len (c # cs) - 1) cs))"

lemma utf8_rune: "0 < rune_len s \<Longrightarrow> rune_len s = length s \<Longrightarrow> utf8 r \<Longrightarrow> utf8 (s @ r)"
proof (cases s)
  case (Cons c cs)
  assume a: "0 < rune_len s" "rune_len s = length s" "utf8 r"
  then have "rune_len (c # cs @ r) = Suc (length cs)" using rune_len_append [of s r] Cons by simp
  with a(3) show ?thesis by (simp add: Cons)
qed simp

lemma utf8_append: "utf8 a \<Longrightarrow> utf8 b \<Longrightarrow> utf8 (a @ b)"
proof (induction a rule: utf8.induct)
  case (2 c cs)
  then have n: "0 < rune_len (c # cs)" "rune_len (c # cs) - 1 \<le> length cs"
    using rune_len_le [of "c # cs"] by auto
  then have "rune_len (c # cs @ b) = rune_len (c # cs)" using rune_len_append [of "c # cs" b] by simp
  moreover have "utf8 (drop (rune_len (c # cs) - 1) cs @ b)" using 2 by simp
  ultimately show ?case using n by simp
qed simp

lemma utf8_ascii: "list_all (\<lambda>c. byte c < 128) s \<Longrightarrow> utf8 s"
  by (induction s) (simp_all add: rune_len_def)

lemma byte_char_of: "n < 256 \<Longrightarrow> byte (char_of n) = n"
  by (simp add: byte_def)

lemma rune_len2: fixes a b :: nat shows "2 \<le> a \<Longrightarrow> a < 32 \<Longrightarrow> b < 64 \<Longrightarrow> rune_len [char_of (192 + a), char_of (128 + b)] = 2"
  by (simp add: rune_len_def byte_char_of cont_def in_range_def)

lemma rune_len3:
  fixes a b m :: nat
  shows "a < 16 \<Longrightarrow> (a = 0 \<Longrightarrow> 32 \<le> m) \<Longrightarrow> (a = 13 \<Longrightarrow> m < 32) \<Longrightarrow> m < 64 \<Longrightarrow> b < 64 \<Longrightarrow>
     rune_len [char_of (224 + a), char_of (128 + m), char_of (128 + b)] = 3"
  by (auto simp: rune_len_def byte_char_of cont_def in_range_def)

lemma rune_len4:
  fixes a b d m :: nat
  shows "a \<le> 4 \<Longrightarrow> (a = 0 \<Longrightarrow> 16 \<le> m) \<Longrightarrow> (a = 4 \<Longrightarrow> m < 16) \<Longrightarrow> m < 64 \<Longrightarrow> b < 64 \<Longrightarrow> d < 64 \<Longrightarrow>
     rune_len [char_of (240 + a), char_of (128 + m), char_of (128 + b), char_of (128 + d)] = 4"
  by (auto simp: rune_len_def byte_char_of cont_def in_range_def)

lemma enc_rune_utf8: "r < 1114112 \<Longrightarrow> \<not> IsSurrogate r \<Longrightarrow> rune_len (enc_rune r) = length (enc_rune r)"
proof -
  assume r: "r < 1114112" "\<not> IsSurrogate r"
  consider "r < 128" | "128 \<le> r" "r < 2048" | "2048 \<le> r" "r < 65536" | "65536 \<le> r" by linarith
  then show ?thesis
  proof cases
    case 1
    then show ?thesis by (simp add: enc_rune_def rune_len_def byte_char_of)
  next
    case 2
    then have "2 \<le> r div 64" "r div 64 < 32" by auto
    with 2 show ?thesis by (simp add: enc_rune_def rune_len2)
  next
    case 3
    have m: "r div 64 = 64 * (r div 4096) + r div 64 mod 64"
      using div_mult2_eq [of r 64 64] by simp
    then have "r div 4096 < 16" "r div 4096 = 0 \<Longrightarrow> 32 \<le> r div 64 mod 64"
      using 3 by linarith+
    moreover have "r div 64 mod 64 < 32" if "r div 4096 = 13"
      using m that r(2) 3 unfolding IsSurrogate_def by linarith
    ultimately show ?thesis using 3 rune_len3 by (simp add: enc_rune_def)
  next
    case 4
    have m: "r div 4096 = 64 * (r div 262144) + r div 4096 mod 64"
      using div_mult2_eq [of r 4096 64] by simp
    then have "r div 262144 \<le> 4" "r div 262144 = 0 \<Longrightarrow> 16 \<le> r div 4096 mod 64"
        "r div 262144 = 4 \<Longrightarrow> r div 4096 mod 64 < 16"
      using 4 r(1) by linarith+
    then show ?thesis using 4 rune_len4 by (simp add: enc_rune_def)
  qed
qed

lemma rune_len_take: "rune_len s = k \<Longrightarrow> rune_len (take k s) = k"
proof (cases "k = 0")
  case False
  assume k: "rune_len s = k"
  with False have ne: "s \<noteq> []" and ne': "take k s \<noteq> []" by auto
  have hd: "hd (take k s) = hd s" using False by (simp add: hd_take)
  have r: "in_range lo hi (take k s) i \<longleftrightarrow> i < k \<and> in_range lo hi s i" for lo hi i
    by (auto simp: in_range_def)
  from k False ne show ?thesis
    by (simp only: rune_len_def ne' hd r cont_def Let_def if_False) (simp split: if_splits)
qed simp

lemma utf8_Cons_ascii: "byte c < 128 \<Longrightarrow> utf8 (c # cs) \<longleftrightarrow> utf8 cs"
  by (simp add: rune_len_def)

subsection \<open>Strings\<close>

abbreviation quote :: char where
  "quote \<equiv> CHR 0x22"

abbreviation backslash :: char where
  "backslash \<equiv> CHR 0x5C"

definition lower_hex :: "nat \<Rightarrow> char" where
  "lower_hex d = ''0123456789abcdef'' ! d"

text \<open>A byte of ASCII, with the characters that matter to HTML escaped.\<close>

definition esc_ascii :: "char \<Rightarrow> string" where
  "esc_ascii c = (let n = byte c in
     if c = backslash \<or> c = quote then [backslash, c]
     else if n = 10 then backslash # ''n''
     else if n = 13 then backslash # ''r''
     else if n = 9 then backslash # ''t''
     else if n < 32 \<or> c \<in> set ''<>&'' then backslash # ''u00'' @ [lower_hex (n div 16), lower_hex (n mod 16)]
     else [c])"

text \<open>The separators U+2028 and U+2029 are escaped as well.\<close>

definition line_separators :: "string list" where
  "line_separators = [enc_rune 8232, enc_rune 8233]"

fun enc_chars :: "string \<Rightarrow> string" where
  "enc_chars [] = []"
| "enc_chars (c # cs) =
     (if byte c < 128 then esc_ascii c @ enc_chars cs
      else let k = rune_len (c # cs); u = take k (c # cs) in
        if k = 0 then backslash # ''ufffd'' @ enc_chars cs
        else (if u \<in> set line_separators then backslash # ''u202'' @ [lower_hex (byte (last u) mod 16)] else u) @
          enc_chars (drop (k - 1) cs))"

definition json_quote :: "string \<Rightarrow> string" where
  "json_quote s = quote # enc_chars s @ [quote]"

text \<open>The decoder: the scanner and \<open>unquote\<close>, from after the opening quote.\<close>

definition hex4 :: "string \<Rightarrow> nat option" where
  "hex4 s = (case s of
     a # b # c # d # _ \<Rightarrow> (case (unhex a, unhex b, unhex c, unhex d) of
         (Some i, Some j, Some k, Some l) \<Rightarrow> Some (i * 4096 + j * 256 + k * 16 + l)
       | _ \<Rightarrow> None)
   | _ \<Rightarrow> None)"

definition unescaped :: "char \<Rightarrow> char option" where
  "unescaped e =
     (if e = quote \<or> e = backslash \<or> e = CHR ''/'' then Some e
      else if e = CHR ''b'' then Some (char_of (8 :: nat))
      else if e = CHR ''f'' then Some (char_of (12 :: nat))
      else if e = CHR ''n'' then Some (char_of (10 :: nat))
      else if e = CHR ''r'' then Some (char_of (13 :: nat))
      else if e = CHR ''t'' then Some (char_of (9 :: nat))
      else None)"

text \<open>A second escape that makes a pair with the surrogate \<open>x\<close>.\<close>

definition low_surrogate :: "nat \<Rightarrow> string \<Rightarrow> nat option" where
  "low_surrogate x s =
     (if take 2 s = [backslash, CHR ''u''] then Option.bind (hex4 (drop 2 s)) (utf16_DecodeRune x) else None)"

definition prepend :: "string \<Rightarrow> (string \<times> string) option \<Rightarrow> (string \<times> string) option" where
  "prepend a p = (case p of None \<Rightarrow> None | Some (s, r) \<Rightarrow> Some (a @ s, r))"

lemma prepend_simps [simp]:
  "prepend a None = None" "prepend a (Some (s, r)) = Some (a @ s, r)"
  by (simp_all add: prepend_def)

lemma prepend_eq_Some: "prepend a p = Some (x, r) \<longleftrightarrow> (\<exists>s. p = Some (s, r) \<and> x = a @ s)"
  by (auto simp: prepend_def split: option.splits)

text \<open>One character or escape: the bytes it stands for and the rest.\<close>

definition p_escape :: "string \<Rightarrow> (string \<times> string) option" where
  "p_escape s = (case s of [] \<Rightarrow> None | e # r \<Rightarrow>
     if e = CHR ''u'' then (case hex4 r of None \<Rightarrow> None | Some x \<Rightarrow>
       if IsSurrogate x then (case low_surrogate x (drop 4 r) of
           Some z \<Rightarrow> Some (enc_rune z, drop 10 r)
         | None \<Rightarrow> Some (enc_rune RuneError, drop 4 r))
       else Some (enc_rune x, drop 4 r))
     else (case unescaped e of None \<Rightarrow> None | Some d \<Rightarrow> Some ([d], r)))"

definition p_char :: "string \<Rightarrow> (string \<times> string) option" where
  "p_char s = (case s of [] \<Rightarrow> None | c # cs \<Rightarrow>
     if c = backslash then p_escape cs
     else if byte c < 32 then None
     else let k = rune_len s in if k = 0 then Some (enc_rune RuneError, cs) else Some (take k s, drop k s))"

lemma p_escape_shorter: "p_escape s = Some (u, r) \<Longrightarrow> length r < length s"
  by (cases s) (auto simp: p_escape_def split: if_splits option.splits)

lemma p_char_shorter: "p_char s = Some (u, r) \<Longrightarrow> length r < length s"
  using p_escape_shorter
  by (cases s) (fastforce simp: p_char_def Let_def split: if_splits)+

function p_chars :: "string \<Rightarrow> (string \<times> string) option" where
  "p_chars s = (if s = [] then None
     else if hd s = quote then Some ([], tl s)
     else case p_char s of None \<Rightarrow> None | Some (u, r) \<Rightarrow> prepend u (p_chars r))"
  by pat_completeness auto
termination
  by (relation "measure length") (simp_all, metis p_char_shorter)

declare p_chars.simps [simp del]

lemma p_chars_length: "p_chars s = Some (x, r) \<Longrightarrow> length r < length s"
proof (induction s arbitrary: x rule: p_chars.induct)
  case (1 s)
  then show ?case
    using p_char_shorter [of s]
    by (fastforce simp: p_chars.simps [of s] prepend_eq_Some split: if_splits option.splits prod.splits)
qed

text \<open>Whatever was read is valid UTF-8.\<close>

lemma unhex_bound: "unhex c = Some x \<Longrightarrow> x < 16"
  by (auto simp: unhex_def Let_def split: if_splits)

lemma hex4_bound: "hex4 s = Some x \<Longrightarrow> x < 65536"
  by (auto simp: hex4_def dest!: unhex_bound split: list.splits option.splits)

lemma enc_rune_valid: "r < 1114112 \<Longrightarrow> \<not> IsSurrogate r \<Longrightarrow> utf8 (enc_rune r)"
  using utf8_rune [of "enc_rune r" "[]"] enc_rune_utf8 [of r] by (simp add: enc_rune_def)

lemma RuneError_valid: "utf8 (enc_rune RuneError)"
  by (rule enc_rune_valid) (simp_all add: RuneError_def IsSurrogate_def)

lemma low_surrogate_valid: "low_surrogate x s = Some z \<Longrightarrow> utf8 (enc_rune z)"
  by (rule enc_rune_valid)
     (auto simp: low_surrogate_def utf16_DecodeRune_def IsSurrogate_def split: if_splits bind_splits)

lemma unescaped_valid: "unescaped e = Some d \<Longrightarrow> utf8 [d]"
  by (rule utf8_ascii) (auto simp: unescaped_def byte_def split: if_splits)

lemma p_escape_utf8: "p_escape s = Some (u, r) \<Longrightarrow> utf8 u"
proof (cases s)
  case (Cons e t)
  assume p: "p_escape s = Some (u, r)"
  show ?thesis
  proof (cases "e = CHR ''u''")
    case True
    with p Cons obtain x where x: "hex4 t = Some x" by (auto simp: p_escape_def split: option.splits)
    with hex4_bound have "\<not> IsSurrogate x \<Longrightarrow> utf8 (enc_rune x)" by (intro enc_rune_valid) fastforce+
    with p Cons True x show ?thesis
      using RuneError_valid low_surrogate_valid
      by (auto simp: p_escape_def split: if_splits option.splits)
  next
    case False
    with p Cons unescaped_valid show ?thesis by (auto simp: p_escape_def split: option.splits)
  qed
qed (simp add: p_escape_def)

lemma p_char_utf8: "p_char s = Some (u, r) \<Longrightarrow> utf8 u"
proof (cases s)
  case (Cons c cs)
  assume p: "p_char s = Some (u, r)"
  have "utf8 (take (rune_len s) s)" if "rune_len s \<noteq> 0"
    using utf8_rune [of "take (rune_len s) s" "[]"] that rune_len_take [of s] rune_len_le [of s] by simp
  with p Cons show ?thesis
    using RuneError_valid p_escape_utf8 by (auto simp: p_char_def Let_def split: if_splits)
qed (simp add: p_char_def)

lemma p_chars_utf8: "p_chars s = Some (x, r) \<Longrightarrow> utf8 x"
proof (induction s arbitrary: x rule: p_chars.induct)
  case (1 s)
  then show ?case
    by (fastforce simp: p_chars.simps [of s] prepend_eq_Some intro: utf8_append p_char_utf8
        split: if_splits option.splits prod.splits)
qed

subsection \<open>A written string is read back\<close>

lemma unhex_lower_hex: "d < 16 \<Longrightarrow> unhex (lower_hex d) = Some d"
proof -
  have "list_all (\<lambda>d. unhex (lower_hex d) = Some d) [0..<16]" by code_simp
  then show "d < 16 \<Longrightarrow> unhex (lower_hex d) = Some d" by (simp add: list_all_iff)
qed

lemma unhex_consts:
  "unhex (CHR ''0'') = Some 0" "unhex (CHR ''2'') = Some 2" "unhex (CHR ''8'') = Some 8" "unhex (CHR ''9'') = Some 9"
  "unhex (CHR ''f'') = Some 15" "unhex (CHR ''d'') = Some 13"
  by (simp_all add: unhex_def)

lemma hex4_byte: "n < 256 \<Longrightarrow> hex4 (''00'' @ [lower_hex (n div 16), lower_hex (n mod 16)] @ t) = Some n"
  by (simp add: hex4_def unhex_consts unhex_lower_hex div_less_iff_less_mult)

lemma p_char_ascii:
  "c \<noteq> backslash \<Longrightarrow> 32 \<le> byte c \<Longrightarrow> byte c < 128 \<Longrightarrow> p_char (c # t) = Some ([c], t)"
  by (simp add: p_char_def rune_len_def)

lemma char_of_byte: "byte c = n \<Longrightarrow> c = char_of n"
  by (auto simp: byte_def)

lemma p_char_esc: "byte c < 128 \<Longrightarrow> p_char (esc_ascii c @ t) = Some ([c], t)"
proof -
  assume c: "byte c < 128"
  have h: "p_char (backslash # ''u00'' @ [lower_hex (byte c div 16), lower_hex (byte c mod 16)] @ t) = Some ([c], t)"
    using c hex4_byte [of "byte c" t]
    by (simp add: p_char_def p_escape_def IsSurrogate_def enc_rune_def byte_def)
  consider "c = backslash \<or> c = quote" | "c \<noteq> backslash \<and> c \<noteq> quote" "byte c \<in> {9, 10, 13}"
    | "c \<noteq> backslash \<and> c \<noteq> quote" "byte c \<notin> {9, 10, 13}" "byte c < 32 \<or> c \<in> set ''<>&''"
    | "c \<noteq> backslash \<and> c \<noteq> quote" "byte c \<notin> {9, 10, 13}" "\<not> byte c < 32" "c \<notin> set ''<>&''"
    by blast
  then show ?thesis
  proof cases
    case 1
    then show ?thesis by (auto simp: esc_ascii_def p_char_def p_escape_def unescaped_def)
  next
    case 2
    then show ?thesis
      by (auto simp: esc_ascii_def p_char_def p_escape_def unescaped_def char_of_byte [symmetric])
  next
    case 3
    then have "esc_ascii c = backslash # ''u00'' @ [lower_hex (byte c div 16), lower_hex (byte c mod 16)]"
      by (simp add: esc_ascii_def Let_def)
    with h show ?thesis by simp
  next
    case 4
    with c show ?thesis by (simp add: esc_ascii_def Let_def p_char_ascii)
  qed
qed

lemma esc_ascii_not_quote: "hd (esc_ascii c @ t) \<noteq> quote \<and> esc_ascii c \<noteq> []"
  by (simp add: esc_ascii_def Let_def)

lemma p_char_separator:
  "p_char (backslash # ''u2028'' @ t) = Some (enc_rune 8232, t)"
  "p_char (backslash # ''u2029'' @ t) = Some (enc_rune 8233, t)"
  by (simp_all add: p_char_def p_escape_def hex4_def unhex_consts IsSurrogate_def)

lemma separator_hex: "u \<in> set line_separators \<Longrightarrow>
   p_char (backslash # ''u202'' @ [lower_hex (byte (last u) mod 16)] @ t) = Some (u, t)"
proof -
  have "byte (last (enc_rune 8232)) mod 16 = 8" "byte (last (enc_rune 8233)) mod 16 = 9"
    by (simp_all add: enc_rune_def byte_char_of)
  moreover have "lower_hex 8 = CHR ''8''" "lower_hex 9 = CHR ''9''" by code_simp+
  moreover assume "u \<in> set line_separators"
  then have "u = enc_rune 8232 \<or> u = enc_rune 8233" by (simp add: line_separators_def)
  ultimately show ?thesis using p_char_separator [of t] by (elim disjE) (simp_all only: append.simps)
qed

lemma p_char_multi:
  "s \<noteq> [] \<Longrightarrow> hd s \<noteq> backslash \<Longrightarrow> 32 \<le> byte (hd s) \<Longrightarrow> rune_len s = k \<Longrightarrow> 0 < k \<Longrightarrow>
     p_char s = Some (take k s, drop k s)"
  by (cases s) (simp_all add: p_char_def)

lemma p_char_rune:
  assumes "rune_len (c # cs) = k" and "0 < k" and "128 \<le> byte c"
  shows "p_char (take k (c # cs) @ t) = Some (take k (c # cs), t)"
proof -
  let ?u = "take k (c # cs)"
  have "rune_len ?u = k" using assms(1) by (rule rune_len_take)
  moreover from this assms(2) have "rune_len (?u @ t) = k" by (simp only: rune_len_append)
  moreover have "length ?u = k" using rune_len_le [of "c # cs"] assms(1) by simp
  moreover have "?u @ t \<noteq> []" "hd (?u @ t) = c" using assms(2) by (cases k; simp)+
  moreover have "c \<noteq> backslash" using assms(3) by (auto simp: byte_def)
  ultimately show ?thesis using p_char_multi [of "?u @ t" k] assms(2,3) by simp
qed

lemma p_chars_step:
  "s \<noteq> [] \<Longrightarrow> hd s \<noteq> quote \<Longrightarrow> p_char s = Some (u, r) \<Longrightarrow> p_chars s = prepend u (p_chars r)"
  by (simp add: p_chars.simps [of s])

lemma p_chars_enc: "utf8 s \<Longrightarrow> p_chars (enc_chars s @ quote # t) = Some (s, t)"
proof (induction s rule: enc_chars.induct)
  case 1
  show ?case by (simp add: p_chars.simps)
next
  case (2 c cs)
  show ?case
  proof (cases "byte c < 128")
    case True
    have "utf8 cs" using 2(4) unfolding utf8_Cons_ascii [OF True] .
    with 2(1) True have "p_chars (enc_chars cs @ quote # t) = Some (cs, t)" by blast
    with True show ?thesis
      using p_chars_step [OF _ _ p_char_esc [OF True]] esc_ascii_not_quote [of c "[]"] by simp
  next
    case False
    define k where "k = rune_len (c # cs)"
    define u where "u = take k (c # cs)"
    have k: "0 < k" using 2(4) by (simp add: k_def)
    then obtain m where m: "k = Suc m" by (cases k) auto
    have IH: "p_chars (enc_chars (drop m cs) @ quote # t) = Some (drop m cs, t)"
      using 2(3) [OF False k_def u_def] 2(4) k m by (simp add: k_def [symmetric])
    have u: "u @ drop m cs = c # cs" by (simp add: u_def m)
    have q: "c \<noteq> quote" using False by (auto simp: byte_def)
    obtain e where e: "e = (if u \<in> set line_separators then backslash # ''u202'' @ [lower_hex (byte (last u) mod 16)] else u)"
      by blast
    have enc: "enc_chars (c # cs) = e @ enc_chars (drop m cs)"
      using False k m by (simp add: Let_def k_def [symmetric] u_def e)
    have "p_char (e @ x) = Some (u, x)" for x
      using p_char_rune [OF k_def [symmetric] k, of x] False separator_hex [of u x] by (simp add: u_def e)
    moreover have "e \<noteq> []" "hd e \<noteq> quote" using q by (simp_all add: u_def m e)
    ultimately have "p_chars (e @ enc_chars (drop m cs) @ quote # t) = prepend u (Some (drop m cs, t))"
      using p_chars_step [of "e @ enc_chars (drop m cs) @ quote # t"] IH by simp
    with u show ?thesis by (simp add: enc del: enc_chars.simps)
  qed
qed

subsection \<open>Numbers\<close>

definition starts :: "char \<Rightarrow> string \<Rightarrow> bool" where
  "starts c s \<longleftrightarrow> s \<noteq> [] \<and> hd s = c"

text \<open>An optional fraction and an optional exponent: whether there is one, and the rest.\<close>

definition p_frac :: "string \<Rightarrow> (bool \<times> string) option" where
  "p_frac s =
     (if starts (CHR ''.'') s
      then (if takeWhile is_digit (tl s) = [] then None else Some (True, dropWhile is_digit (tl s)))
      else Some (False, s))"

definition p_exp :: "string \<Rightarrow> (bool \<times> string) option" where
  "p_exp s =
     (if starts (CHR ''e'') s \<or> starts (CHR ''E'') s
      then let t = (if starts (CHR ''+'') (tl s) \<or> starts (CHR ''-'') (tl s) then tl (tl s) else tl s) in
        (if takeWhile is_digit t = [] then None else Some (True, dropWhile is_digit t))
      else Some (False, s))"

text \<open>No digit follows a leading zero.\<close>

definition p_magnitude :: "bool \<Rightarrow> string \<Rightarrow> (json \<times> string) option" where
  "p_magnitude neg t =
     (let ds = (if starts (CHR ''0'') t then ''0'' else takeWhile is_digit t) in
      if ds = [] then None
      else case p_frac (drop (length ds) t) of None \<Rightarrow> None | Some (f, r) \<Rightarrow>
        (case p_exp r of None \<Rightarrow> None | Some (e, r) \<Rightarrow>
           Some (if f \<or> e then JFrac else JNum (if neg then - int (digits_value ds) else int (digits_value ds)), r)))"

definition p_number :: "string \<Rightarrow> (json \<times> string) option" where
  "p_number s = (if starts (CHR ''-'') s then p_magnitude True (tl s) else p_magnitude False s)"

text \<open>What may follow a number in a document.\<close>

definition number_ends :: "string \<Rightarrow> bool" where
  "number_ends r \<longleftrightarrow> r = [] \<or> \<not> is_digit (hd r) \<and> hd r \<notin> set ''.eE''"

lemma p_number_int: "number_ends r \<Longrightarrow> p_number (int_text i @ r) = Some (JNum i, r)"
proof -
  assume r: "number_ends r"
  then have ends: "p_frac r = Some (False, r)" "p_exp r = Some (False, r)"
    by (auto simp: p_frac_def p_exp_def starts_def number_ends_def)
  have w: "takeWhile is_digit r = []" using r by (cases r) (auto simp: number_ends_def)
  have "starts (CHR ''0'') (nat_text n @ r) \<Longrightarrow> nat_text n = ''0''" for n
    using nat_text_nonzero [of n] nat_text_digits [of n] by (cases "n = 0") (auto simp: nat_text_0 starts_def)
  moreover have "takeWhile is_digit (nat_text n @ r) = nat_text n" for n
    using nat_text_digits [of n] w by (simp add: takeWhile_append2 list_all_iff)
  ultimately have "(if starts (CHR ''0'') (nat_text n @ r) then ''0'' else takeWhile is_digit (nat_text n @ r)) = nat_text n" for n
    by metis
  then have m: "p_magnitude neg (nat_text n @ r) = Some (JNum (if neg then - int n else int n), r)" for neg n
    using nat_text_digits [of n] by (simp add: p_magnitude_def ends)
  have "\<not> starts (CHR ''-'') (nat_text n @ r)" "starts (CHR ''-'') (CHR ''-'' # x)" for n x
    using nat_text_digits [of n] digit_not_sign by (cases "nat_text n"; auto simp: starts_def)+
  then show ?thesis by (simp add: int_text_def p_number_def m)
qed

lemma p_frac_le: "p_frac q = Some (b, r) \<Longrightarrow> length r \<le> length q"
  using length_dropWhile_le [of is_digit "tl q"] by (auto simp: p_frac_def split: if_splits)

lemma p_exp_le: "p_exp q = Some (b, r) \<Longrightarrow> length r \<le> length q"
  using length_dropWhile_le [of is_digit "tl q"] length_dropWhile_le [of is_digit "tl (tl q)"]
  by (auto simp: p_exp_def Let_def split: if_splits)

lemma p_magnitude_shorter: "p_magnitude neg t = Some (j, r) \<Longrightarrow> length r < length t"
proof -
  assume p: "p_magnitude neg t = Some (j, r)"
  define ds where "ds = (if starts (CHR ''0'') t then ''0'' else takeWhile is_digit t)"
  from p obtain b q b' where "ds \<noteq> []" and "p_frac (drop (length ds) t) = Some (b, q)" and "p_exp q = Some (b', r)"
    unfolding p_magnitude_def ds_def [symmetric] Let_def by (auto split: option.splits if_splits)
  then have "length r \<le> length t - length ds" "0 < length ds" using p_frac_le p_exp_le by fastforce+
  moreover from this have "t \<noteq> []" by (auto simp: ds_def starts_def split: if_splits)
  then have "0 < length t" by simp
  ultimately show ?thesis by linarith
qed

lemma p_number_shorter: "p_number s = Some (j, r) \<Longrightarrow> length r < length s"
  using p_magnitude_shorter [of True "tl s" j r] p_magnitude_shorter [of False s j r]
  by (cases s) (auto simp: p_number_def split: if_splits)

subsection \<open>Documents\<close>

definition is_ws :: "char \<Rightarrow> bool" where
  "is_ws c \<longleftrightarrow> byte c \<in> {9, 10, 13, 32}"

definition skip_ws :: "string \<Rightarrow> string" where
  "skip_ws s = dropWhile is_ws s"

text \<open>\<open>json.Marshal\<close>. No struct of the program has a fractional number.\<close>

primrec json_Marshal :: "json \<Rightarrow> string" where
  "json_Marshal JNull = ''null''"
| "json_Marshal (JBool b) = (if b then ''true'' else ''false'')"
| "json_Marshal (JNum i) = int_text i"
| "json_Marshal JFrac = ''0.5''"
| "json_Marshal (JStr s) = json_quote s"
| "json_Marshal (JArr js) = CHR ''['' # Join (CHR '','') (map json_Marshal js) @ '']''"
| "json_Marshal (JObj kvs) = CHR ''{'' #
     Join (CHR '','') (map (\<lambda>(k, t). json_quote k @ CHR '':'' # t) (map (map_prod id json_Marshal) kvs)) @ ''}''"

text \<open>\<open>Encoder.Encode\<close> ends its text with a newline.\<close>

definition json_Encode :: "json \<Rightarrow> string" where
  "json_Encode j = json_Marshal j @ [CHR 0x0A]"

definition p_literal :: "string \<Rightarrow> json \<Rightarrow> string \<Rightarrow> (json \<times> string) option" where
  "p_literal l j s = (if take (length l) s = l then Some (j, drop (length l) s) else None)"

definition p_atom :: "string \<Rightarrow> (json \<times> string) option" where
  "p_atom s =
     (if starts quote s then map_option (map_prod JStr id) (p_chars (tl s))
      else if starts (CHR ''t'') s then p_literal ''true'' (JBool True) s
      else if starts (CHR ''f'') s then p_literal ''false'' (JBool False) s
      else if starts (CHR ''n'') s then p_literal ''null'' JNull s
      else p_number s)"

text \<open>A key with its colon, up to the value.\<close>

definition p_key :: "string \<Rightarrow> (string \<times> string) option" where
  "p_key s =
     (if starts quote s then (case p_chars (tl s) of None \<Rightarrow> None | Some (k, r) \<Rightarrow>
        if starts (CHR '':'') (skip_ws r) then Some (k, tl (skip_ws r)) else None)
      else None)"

lemma skip_ws_le: "length (skip_ws s) \<le> length s"
  by (simp add: skip_ws_def length_dropWhile_le)

lemma skip_tl_less: "starts c s \<Longrightarrow> length (skip_ws (tl s)) < length s"
  using skip_ws_le [of "tl s"] by (cases s) (auto simp: starts_def)

text \<open>
  A value, the elements of an array and the members of an object, up to and with the closing
  bracket. Each value takes something off the text, so the tests of lengths never fail
  (\<open>p_value_shorter\<close>); they only make the recursion end.
\<close>

function p_value :: "string \<Rightarrow> (json \<times> string) option"
  and p_elems :: "string \<Rightarrow> (json list \<times> string) option"
  and p_members :: "string \<Rightarrow> ((string \<times> json) list \<times> string) option" where
  "p_value s =
     (if starts (CHR ''['') s
      then (let t = skip_ws (tl s) in if starts (CHR '']'') t then Some (JArr [], tl t) else map_option (map_prod JArr id) (p_elems t))
      else if starts (CHR ''{'') s
      then (let t = skip_ws (tl s) in if starts (CHR ''}'') t then Some (JObj [], tl t) else map_option (map_prod JObj id) (p_members t))
      else p_atom s)"
| "p_elems s = (case p_value s of None \<Rightarrow> None | Some (j, r) \<Rightarrow>
     let t = skip_ws r in
     if starts (CHR '']'') t then Some ([j], tl t)
     else if starts (CHR '','') t \<and> length t \<le> length s
     then map_option (map_prod ((#) j) id) (p_elems (skip_ws (tl t)))
     else None)"
| "p_members s = (case p_key s of None \<Rightarrow> None | Some (k, r) \<Rightarrow>
     (case (if length r < length s then p_value (skip_ws r) else None) of None \<Rightarrow> None | Some (j, r) \<Rightarrow>
       let t = skip_ws r in
       if starts (CHR ''}'') t then Some ([(k, j)], tl t)
       else if starts (CHR '','') t \<and> length t \<le> length s
       then map_option (map_prod ((#) (k, j)) id) (p_members (skip_ws (tl t)))
       else None))"
  by pat_completeness auto

termination
proof (relation "measures [case_sum length (case_sum length length), case_sum (\<lambda>_. 0) (case_sum (\<lambda>_. 1) (\<lambda>_. 1 :: nat))]",
    goal_cases)
qed (auto simp: skip_tl_less intro: le_less_trans [OF skip_ws_le] less_le_trans [OF skip_tl_less] split: if_splits)

declare p_value.simps [simp del] p_elems.simps [simp del] p_members.simps [simp del]

text \<open>\<open>json.Unmarshal\<close> wants nothing but white space after the value, a decoder leaves it.\<close>

definition json_Parse :: "string \<Rightarrow> body" where
  "json_Parse s = (case p_value (skip_ws s) of
     Some (j, r) \<Rightarrow> if skip_ws r = [] then Some j else None | None \<Rightarrow> None)"

definition json_Decode :: "string \<Rightarrow> body" where
  "json_Decode s = map_option fst (p_value (skip_ws s))"

subsection \<open>Values are shorter than the text they are read from\<close>

lemma p_atom_shorter: "p_atom s = Some (j, r) \<Longrightarrow> length r < length s"
  using p_chars_length [of "tl s"] p_number_shorter [of s j r]
  by (cases s) (fastforce simp: p_atom_def p_literal_def starts_def split: if_splits)+

lemma p_key_shorter: "p_key s = Some (k, r) \<Longrightarrow> length r < length s"
proof -
  assume "p_key s = Some (k, r)"
  then obtain r' where "p_chars (tl s) = Some (k, r')" "starts (CHR '':'') (skip_ws r')" "r = tl (skip_ws r')" "s \<noteq> []"
    by (auto simp: p_key_def starts_def split: if_splits option.splits)
  then show ?thesis using p_chars_length [of "tl s" k r'] skip_ws_le [of r'] by (cases s) auto
qed

lemma p_value_shorter:
  "p_value s = Some (j, r) \<Longrightarrow> length r < length s"
  "p_elems s = Some (js, r) \<Longrightarrow> length r < length s"
  "p_members s = Some (kvs, r) \<Longrightarrow> length r < length s"
proof (induction s and s and s arbitrary: j r and js r and kvs r rule: p_value_p_elems_p_members.induct)
  case (1 s)
  have t: "length (skip_ws (tl s)) < length s" if "starts c s" for c using that by (rule skip_tl_less)
  show ?case
    using 1 t [of "CHR ''[''"] t [of "CHR ''{''"] p_atom_shorter [of s j r]
    unfolding p_value.simps [of s] Let_def
    by (fastforce split: if_splits)
next
  case (2 s)
  from 2(3) obtain j' q where v: "p_value s = Some (j', q)" by (auto simp: p_elems.simps [of s] split: option.splits)
  then have q: "length (skip_ws q) < length s" using 2(1) skip_ws_le [of q] by (meson le_less_trans)
  from 2(3) v consider "r = tl (skip_ws q)"
    | js' where "p_elems (skip_ws (tl (skip_ws q))) = Some (js', r)" "starts (CHR '','') (skip_ws q)"
        "\<not> starts (CHR '']'') (skip_ws q)" "length (skip_ws q) \<le> length s"
    by (auto simp: p_elems.simps [of s] Let_def split: if_splits)
  then show ?case
  proof cases
    case 1
    with q show ?thesis by simp
  next
    case a: 2
    then have "length r < length (skip_ws (tl (skip_ws q)))" using 2(2) [OF v refl refl] by blast
    with q skip_ws_le [of "tl (skip_ws q)"] show ?thesis by simp
  qed
next
  case (3 s)
  from 3(3) obtain k p j' q where k: "p_key s = Some (k, p)"
      and v: "(if length p < length s then p_value (skip_ws p) else None) = Some (j', q)"
    by (auto simp: p_members.simps [of s] split: option.splits)
  from v have "length q < length (skip_ws p)" using 3(1) [OF k refl] by (simp split: if_splits)
  then have q: "length (skip_ws q) < length s"
    using skip_ws_le [of q] skip_ws_le [of p] p_key_shorter [OF k] by linarith
  from 3(3) k v consider "r = tl (skip_ws q)"
    | kvs' where "p_members (skip_ws (tl (skip_ws q))) = Some (kvs', r)" "starts (CHR '','') (skip_ws q)"
        "\<not> starts (CHR ''}'') (skip_ws q)" "length (skip_ws q) \<le> length s"
    by (auto simp: p_members.simps [of s] Let_def split: if_splits)
  then show ?case
  proof cases
    case 1
    with q show ?thesis by simp
  next
    case a: 2
    then have "length r < length (skip_ws (tl (skip_ws q)))" using 3(2) [OF k refl v refl refl] by blast
    with q skip_ws_le [of "tl (skip_ws q)"] show ?thesis by simp
  qed
qed

text \<open>The equations without the tests.\<close>

lemma p_elems_eq:
  "p_elems s = (case p_value s of None \<Rightarrow> None | Some (j, r) \<Rightarrow>
     let t = skip_ws r in
     if starts (CHR '']'') t then Some ([j], tl t)
     else if starts (CHR '','') t then map_option (map_prod ((#) j) id) (p_elems (skip_ws (tl t)))
     else None)"
proof (cases "p_value s")
  case (Some jr)
  then have "length (skip_ws (snd jr)) \<le> length s"
    using p_value_shorter(1) [of s "fst jr" "snd jr"] skip_ws_le [of "snd jr"] by simp
  then show ?thesis by (cases jr) (simp add: p_elems.simps [of s] Some Let_def)
qed (simp add: p_elems.simps [of s])

lemma p_members_eq:
  "p_members s = (case p_key s of None \<Rightarrow> None | Some (k, r) \<Rightarrow>
     (case p_value (skip_ws r) of None \<Rightarrow> None | Some (j, r) \<Rightarrow>
       let t = skip_ws r in
       if starts (CHR ''}'') t then Some ([(k, j)], tl t)
       else if starts (CHR '','') t then map_option (map_prod ((#) (k, j)) id) (p_members (skip_ws (tl t)))
       else None))"
proof (cases "p_key s")
  case (Some kr)
  then have kr: "length (snd kr) < length s" using p_key_shorter [of s "fst kr" "snd kr"] by simp
  have "length (skip_ws (snd jr)) \<le> length s" if "p_value (skip_ws (snd kr)) = Some jr" for jr
    using p_value_shorter(1) [of "skip_ws (snd kr)" "fst jr" "snd jr"] that skip_ws_le [of "snd jr"]
      skip_ws_le [of "snd kr"] kr by simp
  with kr show ?thesis by (cases kr) (auto simp: p_members.simps [of s] Some Let_def split: option.split)
qed (simp add: p_members.simps [of s])

subsection \<open>What is written is read back\<close>

primrec utf8_json :: "json \<Rightarrow> bool" where
  "utf8_json JNull = True"
| "utf8_json (JBool b) = True"
| "utf8_json (JNum i) = True"
| "utf8_json JFrac = True"
| "utf8_json (JStr s) = utf8 s"
| "utf8_json (JArr js) = list_all (\<lambda>b. b) (map utf8_json js)"
| "utf8_json (JObj kvs) = list_all (\<lambda>(k, b). utf8 k \<and> b) (map (map_prod id utf8_json) kvs)"

lemma starts_Cons [simp]: "starts c (d # s) \<longleftrightarrow> d = c"
  by (auto simp: starts_def)

lemma starts_Nil [simp]: "\<not> starts c []"
  by (simp add: starts_def)

lemma skip_ws_Cons: "\<not> is_ws c \<Longrightarrow> skip_ws (c # s) = c # s"
  by (simp add: skip_ws_def)

lemma p_chars_quoted: "utf8 s \<Longrightarrow> p_chars (tl (json_quote s @ t)) = Some (s, t)"
  by (simp add: json_quote_def p_chars_enc)

lemma quoted_starts: "starts quote (json_quote s @ t)"
  by (simp add: json_quote_def)

text \<open>The first character of a value.\<close>

definition value_start :: "string \<Rightarrow> bool" where
  "value_start s \<longleftrightarrow> s \<noteq> [] \<and> \<not> is_ws (hd s) \<and> hd s \<notin> set '']}''"

lemma value_start_skip: "value_start s \<Longrightarrow> skip_ws (s @ r) = s @ r"
  by (cases s) (auto simp: value_start_def skip_ws_def)

lemma value_start_not: "value_start s \<Longrightarrow> \<not> starts (CHR '']'') (s @ r) \<and> \<not> starts (CHR ''}'') (s @ r)"
  by (cases s) (auto simp: value_start_def)

lemma digit_start: "is_digit c \<Longrightarrow> \<not> is_ws c \<and> c \<notin> set '']}[{tfn\"''"
  by (auto simp: is_digit_def is_ws_def byte_def)

lemma nat_text_start: "value_start (nat_text n) \<and> hd (nat_text n) \<notin> set ''[{tfn\"''"
proof -
  obtain c cs where "nat_text n = c # cs" "is_digit c" using nat_text_digits [of n] by (cases "nat_text n") auto
  with digit_start [of c] show ?thesis by (simp add: value_start_def)
qed

lemma int_text_start: "value_start (int_text i) \<and> hd (int_text i) \<notin> set ''[{tfn\"''"
  using nat_text_start by (simp add: int_text_def) (simp add: value_start_def is_ws_def byte_def)

lemma Marshal_start: "value_start (json_Marshal j)"
  using int_text_start by (cases j) (auto simp: json_quote_def value_start_def is_ws_def byte_def)

lemma int_text_atom: "p_value (int_text i @ r) = p_number (int_text i @ r)"
proof -
  obtain c cs where "int_text i = c # cs" "c \<notin> set ''[{tfn\"''"
    using int_text_start [of i] by (cases "int_text i") (simp_all add: value_start_def)
  then show ?thesis by (simp add: p_value.simps p_atom_def)
qed

lemma p_value_frac: "number_ends r \<Longrightarrow> p_value (''0.5'' @ r) = Some (JFrac, r)"
proof -
  assume r: "number_ends r"
  then have "takeWhile is_digit r = []" "dropWhile is_digit r = r" by (cases r; auto simp: number_ends_def)+
  moreover have "p_exp r = Some (False, r)" using r by (auto simp: p_exp_def starts_def number_ends_def)
  moreover have "is_digit (CHR ''5'')" by (simp add: is_digit_def)
  ultimately show ?thesis by (simp add: p_value.simps p_atom_def p_number_def p_magnitude_def p_frac_def)
qed

lemma p_elems_Marshal:
  assumes "js \<noteq> []" and "\<And>j r. j \<in> set js \<Longrightarrow> number_ends r \<Longrightarrow> p_value (json_Marshal j @ r) = Some (j, r)"
  shows "p_elems (Join (CHR '','') (map json_Marshal js) @ CHR '']'' # r) = Some (js, r)"
  using assms
proof (induction js)
  case (Cons j js)
  have e: "number_ends (CHR '']'' # t)" "number_ends (CHR '','' # t)" for t by (simp_all add: number_ends_def is_digit_def)
  have w: "skip_ws (CHR '']'' # t) = CHR '']'' # t" "skip_ws (CHR '','' # t) = CHR '','' # t" for t
    by (simp_all add: skip_ws_Cons is_ws_def byte_def)
  show ?case
  proof (cases js)
    case Nil
    with Cons.prems e(1) show ?thesis by (simp add: p_elems_eq w)
  next
    case (Cons k ks)
    let ?t = "Join (CHR '','') (map json_Marshal js) @ CHR '']'' # r"
    have "skip_ws ?t = ?t"
      using value_start_skip [OF Marshal_start [of k]] Cons by (cases ks) simp_all
    moreover have "p_elems ?t = Some (js, r)" using Cons.IH Cons.prems Cons by simp
    moreover have "p_value (json_Marshal j @ CHR '','' # ?t) = Some (j, CHR '','' # ?t)" using Cons.prems e(2) by simp
    ultimately show ?thesis using Cons by (simp add: p_elems_eq w)
  qed
qed simp

definition member_text :: "string \<times> json \<Rightarrow> string" where
  "member_text kv = json_quote (fst kv) @ CHR '':'' # json_Marshal (snd kv)"

lemma Marshal_members:
  "json_Marshal (JObj kvs) = CHR ''{'' # Join (CHR '','') (map member_text kvs) @ ''}''"
  by (simp add: member_text_def [abs_def] comp_def case_prod_beta)

lemma p_key_quoted: "utf8 k \<Longrightarrow> p_key (json_quote k @ CHR '':'' # t) = Some (k, t)"
  by (simp add: p_key_def quoted_starts p_chars_quoted skip_ws_Cons is_ws_def byte_def)

lemma p_members_Marshal:
  assumes "kvs \<noteq> []"
    and "\<And>k j r. (k, j) \<in> set kvs \<Longrightarrow> number_ends r \<Longrightarrow> utf8 k \<and> p_value (json_Marshal j @ r) = Some (j, r)"
  shows "p_members (Join (CHR '','') (map member_text kvs) @ CHR ''}'' # r) = Some (kvs, r)"
  using assms
proof (induction kvs)
  case (Cons kj kvs)
  obtain k j where kj: "kj = (k, j)" by (cases kj)
  have e: "number_ends (CHR ''}'' # t)" "number_ends (CHR '','' # t)" for t by (simp_all add: number_ends_def is_digit_def)
  have w: "skip_ws (CHR ''}'' # t) = CHR ''}'' # t" "skip_ws (CHR '','' # t) = CHR '','' # t" for t
    by (simp_all add: skip_ws_Cons is_ws_def byte_def)
  have utf: "utf8 k" using Cons.prems(2) [of k j "[]"] kj by (simp add: number_ends_def)
  have s: "skip_ws (json_Marshal j @ t) = json_Marshal j @ t" for t by (rule value_start_skip [OF Marshal_start])
  show ?case
  proof (cases kvs)
    case Nil
    with Cons.prems(2) [of k j "CHR ''}'' # r"] e(1) show ?thesis
      by (simp add: p_members_eq kj member_text_def p_key_quoted utf s w)
  next
    case (Cons l ls)
    obtain t where t: "t = Join (CHR '','') (map member_text kvs) @ CHR ''}'' # r" by blast
    have "skip_ws t = t"
      using Cons by (cases ls) (simp_all add: t member_text_def json_quote_def skip_ws_Cons is_ws_def byte_def)
    moreover have "p_members t = Some (kvs, r)"
      unfolding t by (rule Cons.IH, simp add: Cons, rule Cons.prems(2), simp_all)
    moreover have "p_value (json_Marshal j @ CHR '','' # t) = Some (j, CHR '','' # t)"
      using Cons.prems(2) [of k j] kj e(2) by simp
    moreover have "Join (CHR '','') (map member_text (kj # kvs)) @ CHR ''}'' # r =
        json_quote k @ CHR '':'' # json_Marshal j @ CHR '','' # t"
      using Cons by (simp add: t kj member_text_def)
    ultimately show ?thesis by (simp add: p_members_eq kj p_key_quoted utf s w)
  qed
qed simp

lemma p_value_Marshal: "utf8_json j \<Longrightarrow> number_ends r \<Longrightarrow> p_value (json_Marshal j @ r) = Some (j, r)"
proof (induction j arbitrary: r)
  case (JNum i)
  then show ?case by (simp add: int_text_atom p_number_int)
next
  case JFrac
  then show ?case using p_value_frac by simp
next
  case (JStr s)
  then show ?case using p_chars_quoted [of s r] quoted_starts [of s r]
    by (simp add: p_value.simps p_atom_def starts_def)
next
  case (JArr js)
  have IH: "p_value (json_Marshal j @ r) = Some (j, r)" if "j \<in> set js" "number_ends r" for j r
    using JArr that by (auto simp: list_all_iff)
  show ?case
  proof (cases js)
    case Nil
    then show ?thesis by (simp add: p_value.simps skip_ws_Cons is_ws_def byte_def)
  next
    case (Cons k ks)
    let ?t = "Join (CHR '','') (map json_Marshal js) @ CHR '']'' # r"
    have "skip_ws ?t = ?t \<and> \<not> starts (CHR '']'') ?t"
      using value_start_skip [OF Marshal_start [of k]] value_start_not [OF Marshal_start [of k]] Cons by (cases ks) simp_all
    moreover have "p_elems ?t = Some (js, r)" using Cons IH by (intro p_elems_Marshal) simp_all
    ultimately show ?thesis by (simp add: p_value.simps)
  qed
next
  case (JObj kvs)
  have IH: "utf8 k \<and> p_value (json_Marshal j @ r) = Some (j, r)" if "(k, j) \<in> set kvs" "number_ends r" for k j r
    using JObj(1) [of "(k, j)" j r] JObj(2) that by (auto simp: list_all_iff)
  show ?case
  proof (cases kvs)
    case Nil
    then show ?thesis by (simp add: p_value.simps skip_ws_Cons is_ws_def byte_def)
  next
    case (Cons l ls)
    let ?t = "Join (CHR '','') (map member_text kvs) @ CHR ''}'' # r"
    have "skip_ws ?t = ?t \<and> \<not> starts (CHR ''}'') ?t"
      using Cons by (cases ls) (simp_all add: member_text_def json_quote_def skip_ws_Cons is_ws_def byte_def)
    moreover have "p_members ?t = Some (kvs, r)" using Cons IH by (intro p_members_Marshal) simp_all
    ultimately show ?thesis unfolding Marshal_members by (simp add: p_value.simps)
  qed
qed (simp_all add: p_value.simps p_atom_def p_literal_def)

lemma p_value_utf8:
  "p_value s = Some (j, r) \<Longrightarrow> utf8_json j"
  "p_elems s = Some (js, r) \<Longrightarrow> list_all utf8_json js"
  "p_members s = Some (kvs, r) \<Longrightarrow> list_all (\<lambda>(k, j). utf8 k \<and> utf8_json j) kvs"
proof (induction s and s and s arbitrary: j r and js r and kvs r rule: p_value_p_elems_p_members.induct)
  case (1 s)
  have a: "utf8_json j" if "p_atom s = Some (j, r)" for j r
    using that p_chars_utf8
    by (auto simp: p_atom_def p_literal_def p_number_def p_magnitude_def Let_def split: if_splits option.splits)
  show ?case
    using 1 a unfolding p_value.simps [of s] Let_def
    by (fastforce split: if_splits simp: list_all_iff)
next
  case (2 s)
  then show ?case unfolding p_elems.simps [of s] Let_def by (auto split: option.splits if_splits)
next
  case (3 s)
  have k: "p_key s = Some (k, r) \<Longrightarrow> utf8 k" for k r
    using p_chars_utf8 by (auto simp: p_key_def split: if_splits option.splits)
  from 3 show ?case unfolding p_members.simps [of s] Let_def by (auto dest!: k split: option.splits if_splits)
qed

lemma number_ends_simps: "number_ends []" "number_ends [CHR 0x0A]"
  by (simp_all add: number_ends_def is_digit_def)

lemma Parse_Marshal: "utf8_json j \<Longrightarrow> json_Parse (json_Marshal j) = Some j"
  using p_value_Marshal [of j "[]"] value_start_skip [OF Marshal_start, of j "[]"]
  by (simp add: json_Parse_def number_ends_simps skip_ws_def)

lemma Decode_Encode: "utf8_json j \<Longrightarrow> json_Decode (json_Encode j) = Some j"
  using p_value_Marshal [of j "[CHR 0x0A]"] value_start_skip [OF Marshal_start, of j]
  by (simp add: json_Decode_def json_Encode_def number_ends_simps)

lemma Parse_utf8: "json_Parse t = Some j \<Longrightarrow> utf8_json j"
  using p_value_utf8(1) by (auto simp: json_Parse_def split: option.splits if_splits)

lemma Decode_utf8: "json_Decode t = Some j \<Longrightarrow> utf8_json j"
  using p_value_utf8(1) by (auto simp: json_Decode_def)

text \<open>A text that \<open>Unmarshal\<close> accepts is decoded to the same document.\<close>

lemma Parse_Decode: "json_Parse t = Some j \<Longrightarrow> json_Decode t = Some j"
  by (auto simp: json_Parse_def json_Decode_def split: option.splits if_splits)

end
