(* ===== verification/Mux_Handlers.thy ===== *)
theory Mux_Handlers
  imports Release JSON_Text
begin

section \<open>The HTTP operations (\<open>line/mux.go\<close>)\<close>

text \<open>
  The six operations of the HTTP interface, each from the decoding of its input to its output,
  the wrapper \<open>errh\<close> that turns an error into a response with status 500, and the router. An
  operation that dereferences a nil pool panics; no recovery is installed, so the panic leaves
  the router.
\<close>

definition decodeInput :: "(json \<Rightarrow> goerr + 'a) \<Rightarrow> body \<Rightarrow> ('w, 'a) prog" where
  "decodeInput from_json b = wrapping ''failed to decode input'' (of_sum (json_Unmarshal from_json b))"

text \<open>\<open>rand.Read(idb)\<close> on ten bytes, hex encoded.\<close>

definition random_id :: "'w services \<Rightarrow> ('w, string) prog" where
  "random_id svc =
     bnd (wrapping ''failed to generate random id bytes'' (call (rand_Read svc 10))) (\<lambda>idb.
     ret (hex_EncodeToString idb))"

definition CreatePool :: "Conf \<Rightarrow> 'w services \<Rightarrow> body \<Rightarrow> ('w, json) prog" where
  "CreatePool conf svc b =
     bnd (decodeInput empty_of_json b) (\<lambda>_.
     bnd (random_id svc) (\<lambda>poolID.
     bnd (wrapping ''failed to create queue'' (call (sqs_CreateQueue svc (FmtPoolQueueName conf poolID)))) (\<lambda>url.
     let pool = \<lparr>pool_PoolID = poolID, pool_QueueURL = url, pool_TTL = 0\<rparr> in
     bnd (wrapping ''failed to put new pool'' (PutNewPool conf svc pool)) (\<lambda>_.
     ret (json_of_CreatePoolOutput \<lparr>cpo_PoolID = pool_PoolID pool\<rparr>)))))"

text \<open>\<open>GetActivePool\<close> with its error wrapped, and the dereference that follows it.\<close>

definition active_pool :: "Conf \<Rightarrow> 'w services \<Rightarrow> string \<Rightarrow> ('w, Pool) prog" where
  "active_pool conf svc poolID =
     bnd (wrapping ''failed to get active pool'' (GetActivePool conf svc \<lparr>pool_PoolID = poolID\<rparr>)) deref"

definition RegisterWorker :: "Conf \<Rightarrow> 'w services \<Rightarrow> body \<Rightarrow> ('w, json) prog" where
  "RegisterWorker conf svc b =
     bnd (decodeInput RegisterWorkerInput_of_json b) (\<lambda>input.
     bnd (wrapping ''failed to get active pool''
            (GetActivePool conf svc \<lparr>pool_PoolID = rwi_PoolID input\<rparr>)) (\<lambda>pool_ptr.
     bnd (random_id svc) (\<lambda>workerID.
     bnd (deref pool_ptr) (\<lambda>pool.
     bnd (wrapping ''failed to create queue''
            (call (sqs_CreateQueue svc (FmtWorkerQueueName conf (pool_PoolID pool) workerID)))) (\<lambda>url.
     bnd (reads (time_Now_Unix svc)) (\<lambda>now.
     let worker = \<lparr>wrk_PoolID = pool_PoolID pool, wrk_WorkerID = workerID, wrk_Capacity = rwi_Capacity input,
           wrk_QueueURL = url, wrk_TTL = now + WorkerTTL conf\<rparr> in
     bnd (wrapping ''failed to put worker'' (PutNewWorker conf svc worker)) (\<lambda>_.
     ret (json_of_RegisterWorkerOutput
       \<lparr>rwo_PoolID = wrk_PoolID worker, rwo_WorkerID = wrk_WorkerID worker,
        rwo_QueueURL = wrk_QueueURL worker, rwo_Capacity = wrk_Capacity worker\<rparr>))))))))"

definition DisbandPool :: "Conf \<Rightarrow> 'w services \<Rightarrow> body \<Rightarrow> ('w, json) prog" where
  "DisbandPool conf svc b =
     bnd (decodeInput DisbandPoolInput_of_json b) (\<lambda>input.
     bnd (wrapping ''failed to remove queue''
            (call0 (sqs_DeleteQueue svc (FmtPoolQueueURL conf (dpi_PoolID input))))) (\<lambda>_.
     bnd (reads (time_Now_Unix svc)) (\<lambda>now.
     bnd (wrapping ''failed to update pool ttl''
            (UpdatePoolTTL conf svc (now + PoolTTL conf) \<lparr>pool_PoolID = dpi_PoolID input\<rparr>)) (\<lambda>_.
     ret (json_of_empty ())))))"

text \<open>\<open>fmt.Sprintf("%+v", replica)\<close>\<close>

definition Replica_text :: "Replica \<Rightarrow> string" where
  "Replica_text r = ''&{ReplicaPK:{PoolID:'' @ rpl_PoolID r @ '' ReplicaID:'' @ rpl_ReplicaID r @
     ''} TTL:'' @ int_text (sint (rpl_TTL r)) @ ''}''"

definition heartbeat_replica :: "Conf \<Rightarrow> 'w services \<Rightarrow> Pool \<Rightarrow> string \<Rightarrow> int64 \<Rightarrow> string \<Rightarrow> ('w, unit) prog" where
  "heartbeat_replica conf svc pool workerID now datasetID =
     (let replica = \<lparr>rpl_PoolID = pool_PoolID pool, rpl_ReplicaID = FmtReplicaID datasetID workerID,
            rpl_TTL = now + ReplicaTTL conf\<rparr>
      in wrapping (''failed to update replica: '' @ Replica_text replica) (PutReplica conf svc replica))"

definition heartbeat_alloc :: "Conf \<Rightarrow> 'w services \<Rightarrow> Pool \<Rightarrow> int64 \<Rightarrow> string \<Rightarrow> ('w, unit) prog" where
  "heartbeat_alloc conf svc pool now allocID =
     wrapping (''failed to update alloc ttl: '' @ allocID)
       (UpdateAllocTTL conf svc (now + AllocTTL conf)
          \<lparr>alloc_PoolID = pool_PoolID pool, alloc_AllocID = allocID\<rparr>)"

definition SendHeartbeat :: "Conf \<Rightarrow> 'w services \<Rightarrow> body \<Rightarrow> ('w, json) prog" where
  "SendHeartbeat conf svc b =
     bnd (decodeInput SendHeartbeatInput_of_json b) (\<lambda>input.
     bnd (wrapping ''failed to get active pool''
            (GetActivePool conf svc \<lparr>pool_PoolID = shi_PoolID input\<rparr>)) (\<lambda>pool_ptr.
     bnd (reads (time_Now_Unix svc)) (\<lambda>now.
     bnd (deref pool_ptr) (\<lambda>pool.
     bnd (wrapping ''failed to update worker ttl''
            (UpdateWorkerTTL conf svc (now + WorkerTTL conf)
               \<lparr>wrk_PoolID = pool_PoolID pool, wrk_WorkerID = shi_WorkerID input\<rparr>)) (\<lambda>_.
     bnd (each (heartbeat_replica conf svc pool (shi_WorkerID input) now) (shi_Datasets input)) (\<lambda>_.
     bnd (each (heartbeat_alloc conf svc pool now) (shi_Allocs input)) (\<lambda>_.
     ret (json_of_empty ()))))))))"

definition ScheduleEval :: "Conf \<Rightarrow> 'w services \<Rightarrow> body \<Rightarrow> ('w, json) prog" where
  "ScheduleEval conf svc b =
     bnd (decodeInput ScheduleEvalInput_of_json b) (\<lambda>input.
     bnd (active_pool conf svc (sei_PoolID input)) (\<lambda>pool.
     let msg = json_of_Eval \<lparr>Dataset = sei_DatasetID input, Size = sei_Size input, Retry = 0\<rparr> in
     bnd (wrapping ''failed to send message'' (call0 (sqs_SendMessage svc (pool_QueueURL pool) (Some msg)))) (\<lambda>_.
     ret (json_of_empty ()))))"

definition CompleteAlloc :: "Conf \<Rightarrow> 'w services \<Rightarrow> body \<Rightarrow> ('w, json) prog" where
  "CompleteAlloc conf svc b =
     bnd (decodeInput CompleteAllocInput_of_json b) (\<lambda>input.
     bnd (active_pool conf svc (cai_PoolID input)) (\<lambda>pool.
     bnd (wrapping ''failed to get alloc''
            (GetAlloc conf svc \<lparr>alloc_PoolID = pool_PoolID pool, alloc_AllocID = cai_AllocID input\<rparr>)) (\<lambda>alloc.
     bnd (wrapping ''failed to release alloc'' (releaseAlloc conf svc alloc)) (\<lambda>_.
     ret (json_of_empty ())))))"

subsection \<open>Responses and the router\<close>

record response =
  status :: nat
  resp_body :: body

definition message_json :: "string \<Rightarrow> json" where
  "message_json msg = JObj [(''message'', JStr msg)]"

definition errh :: "('w, json) prog \<Rightarrow> ('w, response) prog" where
  "errh fn = on_err (bnd fn (\<lambda>out. ret \<lparr>status = 200, resp_body = Some out\<rparr>))
     (\<lambda>e. ret \<lparr>status = 500, resp_body = Some (message_json (Error_text e))\<rparr>)"

definition methodNotAllowed :: response where
  "methodNotAllowed = \<lparr>status = 405, resp_body = Some (message_json ''method not allowed'')\<rparr>"

definition notFound :: response where
  "notFound = \<lparr>status = 404, resp_body = Some (message_json ''page not found'')\<rparr>"

text \<open>The methods that the router knows, and the routes; every route is a \<open>POST\<close>.\<close>

definition known_methods :: "string list" where
  "known_methods = [''CONNECT'', ''DELETE'', ''GET'', ''HEAD'', ''OPTIONS'', ''PATCH'', ''POST'', ''PUT'', ''TRACE'']"

definition route :: "Conf \<Rightarrow> 'w services \<Rightarrow> string \<Rightarrow> (body \<Rightarrow> ('w, json) prog) option" where
  "route conf svc path = map_of
     [(''/CreatePool'', CreatePool conf svc), (''/RegisterWorker'', RegisterWorker conf svc),
      (''/DisbandPool'', DisbandPool conf svc), (''/SendHeartbeat'', SendHeartbeat conf svc),
      (''/ScheduleEval'', ScheduleEval conf svc), (''/CompleteAlloc'', CompleteAlloc conf svc)] path"

definition Mux :: "Conf \<Rightarrow> 'w services \<Rightarrow> string \<Rightarrow> string \<Rightarrow> body \<Rightarrow> ('w, response) prog" where
  "Mux conf svc http_method path b =
     (if http_method \<notin> set known_methods then ret methodNotAllowed
      else case route conf svc path of
          None \<Rightarrow> ret notFound
        | Some h \<Rightarrow> if http_method = ''POST'' then errh (h b) else ret methodNotAllowed)"

subsection \<open>The texts of requests and responses\<close>

text \<open>
  The router with the texts that it reads and writes: \<open>decodeInput\<close> decodes the first document of the
  body, the two fixed responses are printed without an encoder.
\<close>

record text_response =
  tr_status :: nat
  tr_text :: string

definition encodeOutput :: "json \<Rightarrow> string" where
  "encodeOutput out = json_Encode out"

definition errh_text :: "('w, json) prog \<Rightarrow> ('w, text_response) prog" where
  "errh_text fn = on_err (bnd fn (\<lambda>out. ret \<lparr>tr_status = 200, tr_text = encodeOutput out\<rparr>))
     (\<lambda>e. ret \<lparr>tr_status = 500, tr_text = json_Encode (message_json (Error_text e))\<rparr>)"

definition methodNotAllowed_text :: text_response where
  "methodNotAllowed_text = \<lparr>tr_status = 405, tr_text = ''{\"message\": \"method not allowed\"}''\<rparr>"

definition notFound_text :: text_response where
  "notFound_text = \<lparr>tr_status = 404, tr_text = ''{\"message\": \"page not found\"}''\<rparr>"

definition Mux_text :: "Conf \<Rightarrow> 'w services \<Rightarrow> string \<Rightarrow> string \<Rightarrow> string \<Rightarrow> ('w, text_response) prog" where
  "Mux_text conf svc http_method path t =
     (if http_method \<notin> set known_methods then ret methodNotAllowed_text
      else case route conf svc path of
          None \<Rightarrow> ret notFound_text
        | Some h \<Rightarrow> if http_method = ''POST'' then errh_text (h (json_Decode t)) else ret methodNotAllowed_text)"

text \<open>Both routers have the same effects and the same panics.\<close>

lemma errh_text_run:
  "fst (errh_text p w) = fst (errh p w) \<and> (snd (errh_text p w) = Panic \<longleftrightarrow> snd (errh p w) = Panic)"
  by (cases "p w"; cases "snd (p w)") (auto simp: errh_text_def errh_def on_err_def bnd_def ret_def)

lemma Mux_text_run:
  "fst (Mux_text conf svc m path t w) = fst (Mux conf svc m path (json_Decode t) w) \<and>
   (snd (Mux_text conf svc m path t w) = Panic \<longleftrightarrow> snd (Mux conf svc m path (json_Decode t) w) = Panic)"
  by (auto simp: Mux_text_def Mux_def ret_def methodNotAllowed_def methodNotAllowed_text_def errh_text_run split: option.split)

lemma keeps_Mux_text: "keeps I (Mux conf svc m path (json_Decode t)) \<Longrightarrow> keeps I (Mux_text conf svc m path t)"
  using Mux_text_run [of conf svc m path t] unfolding keeps_def by (metis fst_conv surj_pair)

end
