(* ===== verification/Mux_Proofs.thy ===== *)
theory Mux_Proofs
  imports Mux_Handlers Release_Proofs
begin

section \<open>Correctness of the HTTP operations\<close>

text \<open>
  The results of the six operations and what each does to the store, over a backend on which
  nobody else acts; and the invariants they keep when others do.
\<close>

subsection \<open>Results\<close>

definition created :: "Conf \<Rightarrow> Pool \<Rightarrow> store \<Rightarrow> store \<Rightarrow> bool" where
  "created conf pool v v' \<longleftrightarrow> pool_at conf v (pool_PoolID pool) = None \<and> pool_TTL pool = 0 \<and>
     v' = set_pool conf (pool_PoolID pool) (Some (marshal_Pool pool)) (create_queue (pool_QueueURL pool) v)"

definition registered :: "Conf \<Rightarrow> Worker \<Rightarrow> store \<Rightarrow> store \<Rightarrow> bool" where
  "registered conf worker v v' \<longleftrightarrow>
     v' = set_worker conf (wrk_PoolID worker) (wrk_WorkerID worker) (Some (marshal_Worker worker))
       (create_queue (wrk_QueueURL worker) v)"

lemma pool_create_queue [simp]: "pool_at conf (create_queue u v) p = pool_at conf v p"
  by simp

lemma keeps_decodeInput [keeps_rules]: "keeps I (decodeInput f b)"
  unfolding decodeInput_def by (intro keeps_rules)

context seq_backend
begin

lemma wp_decodeInput:
  "wp (decodeInput f b) Q w \<longleftrightarrow> (case json_Unmarshal f b of
     Inl e \<Rightarrow> Q w (Fail (Wrapped e ''failed to decode input'')) | Inr x \<Rightarrow> Q w (Ret x))"
  by (simp add: decodeInput_def wp_wrapping wp_of_sum split: sum.split)

lemma wp_create_queue:
  assumes "\<And>w' url. view w' = create_queue url (view w) \<Longrightarrow> Q w' (Ret url)"
    and "\<And>w' e url. view w' = view w \<or> view w' = create_queue url (view w) \<Longrightarrow> Q w' (Fail e)"
  shows "wp (call (sqs_CreateQueue svc n)) Q w"
  using assms by (intro wp_callI) (fastforce dest!: create)+

lemma wp_random_id:
  assumes "\<And>w' i. view w' = view w \<Longrightarrow> Q w' (Ret i)" and "\<And>w' e. view w' = view w \<Longrightarrow> Q w' (Fail e)"
  shows "wp (random_id svc) Q w"
  unfolding random_id_def wp_bnd wp_wrapping
  by (rule wp_rand) (auto intro: assms simp: wp_ret)

lemma wp_CreatePool:
  assumes "\<And>w' pool. created conf pool (view w) (view w') \<Longrightarrow>
      Q w' (Ret (json_of_CreatePoolOutput \<lparr>cpo_PoolID = pool_PoolID pool\<rparr>))"
    and "\<And>w' e url pool. view w' = view w \<or> view w' = create_queue url (view w) \<or> created conf pool (view w) (view w') \<Longrightarrow>
      Q w' (Fail e)"
  shows "wp (CreatePool conf svc b) Q w"
proof -
  have same: "view w' = view w \<Longrightarrow> Q w' (Fail e)" for w' e using assms(2) by blast
  have put: "wp (PutNewPool conf svc \<lparr>pool_PoolID = i, pool_QueueURL = url, pool_TTL = 0\<rparr>) (\<lambda>w' r. case r of
      Ret _ \<Rightarrow> Q w' (Ret (json_of_CreatePoolOutput \<lparr>cpo_PoolID = i\<rparr>))
    | Fail e \<Rightarrow> Q w' (Fail (Wrapped e ''failed to put new pool'')) | Panic \<Rightarrow> Q w' Panic) w2"
    if v: "view w2 = create_queue url (view w)" for w2 url i
  proof (rule wp_PutNewPool, goal_cases)
    case (1 w3)
    then have "created conf \<lparr>pool_PoolID = i, pool_QueueURL = url, pool_TTL = 0\<rparr> (view w) (view w3)"
      using v by (simp add: created_def)
    from assms(1) [OF this] show ?case by simp
  next
    case (4 w3 e)
    then have "created conf \<lparr>pool_PoolID = i, pool_QueueURL = url, pool_TTL = 0\<rparr> (view w) (view w3)"
      using v by (simp add: created_def)
    with assms(2) show ?case by auto
  qed (use v assms(2) in auto)
  show ?thesis
  proof (cases "json_Unmarshal empty_of_json b")
    case (Inl e)
    then show ?thesis by (simp add: CreatePool_def wp_bnd wp_decodeInput same)
  next
    case (Inr u)
    show ?thesis
      unfolding CreatePool_def wp_bnd wp_decodeInput wp_wrapping wp_ret Let_def Inr sum.case outcome.case
    proof (rule wp_random_id, unfold outcome.case, goal_cases)
      case (1 w1 i)
      show ?case
      proof (rule wp_create_queue, unfold outcome.case Pool.simps PoolPK.simps, goal_cases)
        case (1 w2 url)
        with \<open>view w1 = view w\<close> put show ?case by simp
      qed (use \<open>view w1 = view w\<close> assms(2) in auto)
    qed (use same in auto)
  qed
qed

end


definition stored_pool :: "Conf \<Rightarrow> store \<Rightarrow> string \<Rightarrow> Pool option" where
  "stored_pool conf v p = (case pool_at conf v p of
     None \<Rightarrow> None | Some it \<Rightarrow> (case unmarshal_Pool it of Inl _ \<Rightarrow> None | Inr pool \<Rightarrow> Some pool))"

definition disbanded :: "Pool \<Rightarrow> bool" where
  "disbanded pool \<longleftrightarrow> 0 < sint (pool_TTL pool)"

context seq_item_backend
begin

lemma wp_GetActive:
  assumes "\<And>w' e. view w' = view w \<Longrightarrow> Q w' (Fail e)"
    and "\<And>w' pool. view w' = view w \<Longrightarrow> stored_pool conf (view w) p = Some pool \<Longrightarrow>
      Q w' (Ret (if disbanded pool then None else Some pool))"
  shows "wp (GetActivePool conf svc \<lparr>pool_PoolID = p\<rparr>) Q w"
  unfolding wp_GetActivePool
  by (rule wp_GetPool) (use assms in \<open>auto simp: stored_pool_def disbanded_def\<close>)

lemma wp_active_pool:
  assumes "\<And>w' e. view w' = view w \<Longrightarrow> Q w' (Fail e)"
    and "\<And>w' pool. view w' = view w \<Longrightarrow> stored_pool conf (view w) p = Some pool \<Longrightarrow> disbanded pool \<Longrightarrow> Q w' Panic"
    and "\<And>w' pool. view w' = view w \<Longrightarrow> stored_pool conf (view w) p = Some pool \<Longrightarrow> \<not> disbanded pool \<Longrightarrow> Q w' (Ret pool)"
  shows "wp (active_pool conf svc p) Q w"
  unfolding active_pool_def wp_bnd wp_wrapping
  by (rule wp_GetActive) (use assms in \<open>auto simp: wp_deref\<close>)

lemma wp_ScheduleEval:
  assumes "\<And>w' e. view w' = view w \<Longrightarrow> Q w' (Fail e)"
    and "\<And>w' input pool. json_Unmarshal ScheduleEvalInput_of_json b = Inr input \<Longrightarrow>
      stored_pool conf (view w) (sei_PoolID input) = Some pool \<Longrightarrow> disbanded pool \<Longrightarrow> view w' = view w \<Longrightarrow> Q w' Panic"
    and "\<And>w' input pool r. json_Unmarshal ScheduleEvalInput_of_json b = Inr input \<Longrightarrow>
      stored_pool conf (view w) (sei_PoolID input) = Some pool \<Longrightarrow> \<not> disbanded pool \<Longrightarrow>
      send_eff (pool_QueueURL pool) (Some (json_of_Eval \<lparr>Dataset = sei_DatasetID input, Size = sei_Size input, Retry = 0\<rparr>))
        (view w) = Some (view w') \<Longrightarrow> r = Ret (json_of_empty ()) \<or> (\<exists>e. r = Fail e) \<Longrightarrow> Q w' r"
  shows "wp (ScheduleEval conf svc b) Q w"
proof (cases "json_Unmarshal ScheduleEvalInput_of_json b")
  case (Inl e)
  then show ?thesis by (simp add: ScheduleEval_def wp_bnd wp_decodeInput assms(1))
next
  case (Inr input)
  show ?thesis
    unfolding ScheduleEval_def wp_bnd wp_decodeInput wp_wrapping wp_ret Let_def Inr sum.case outcome.case
  proof (rule wp_active_pool, unfold outcome.case, goal_cases)
    case (3 w1 pool)
    note p = 3
    show ?case
    proof (rule wp_send, unfold outcome.case, goal_cases)
      case (1 w2 m)
      with p show ?case by (intro assms(3) [OF Inr p(2,3)]) (auto simp: send_eff_def)
    next
      case (4 w2 e m)
      with p show ?case by (intro assms(3) [OF Inr p(2,3)]) (auto simp: send_eff_def)
    qed (use p assms(1) in auto)
  qed (use assms(1,2) Inr in auto)
qed

lemma wp_CompleteAlloc:
  assumes "\<And>w' e. view w' = view w \<Longrightarrow> Q w' (Fail e)"
    and "\<And>w' input pool. json_Unmarshal CompleteAllocInput_of_json b = Inr input \<Longrightarrow>
      stored_pool conf (view w) (cai_PoolID input) = Some pool \<Longrightarrow> disbanded pool \<Longrightarrow> view w' = view w \<Longrightarrow> Q w' Panic"
    and "\<And>w' w1 input pool it alloc r r'. json_Unmarshal CompleteAllocInput_of_json b = Inr input \<Longrightarrow>
      stored_pool conf (view w) (cai_PoolID input) = Some pool \<Longrightarrow> \<not> disbanded pool \<Longrightarrow>
      alloc_at conf (view w) (pool_PoolID pool) (cai_AllocID input) = Some it \<Longrightarrow> unmarshal_Alloc it = Inr alloc \<Longrightarrow>
      view w1 = view w \<Longrightarrow> releaseAlloc conf svc alloc w1 = (w', r') \<Longrightarrow>
      r = (case r' of Ret _ \<Rightarrow> Ret (json_of_empty ()) | Fail e \<Rightarrow> Fail (Wrapped e ''failed to release alloc'') | Panic \<Rightarrow> Panic) \<Longrightarrow>
      Q w' r"
  shows "wp (CompleteAlloc conf svc b) Q w"
proof (cases "json_Unmarshal CompleteAllocInput_of_json b")
  case (Inl e)
  then show ?thesis by (simp add: CompleteAlloc_def wp_bnd wp_decodeInput assms(1))
next
  case (Inr input)
  show ?thesis
    unfolding CompleteAlloc_def wp_bnd wp_decodeInput wp_wrapping wp_ret Let_def Inr sum.case outcome.case
  proof (rule wp_active_pool, unfold outcome.case, goal_cases)
    case (3 w1 pool)
    note p = 3
    show ?case
    proof (rule wp_GetAlloc, unfold outcome.case AllocPK.simps, goal_cases)
      case (2 w2 it alloc)
      have "view w2 = view w" "alloc_at conf (view w) (pool_PoolID pool) (cai_AllocID input) = Some it"
        using p 2 by auto
      with assms(3) [OF Inr p(2,3) this(2) 2(3) this(1)] show ?case
        by (auto simp: wp_def split: prod.splits outcome.split)
    qed (use p assms(1) in auto)
  qed (use assms(1,2) Inr in auto)
qed

end


text \<open>A loop whose iterations have a functional effect on what \<open>view\<close> shows.\<close>

lemma each_fold:
  assumes "\<And>x w w'. f x w = (w', Ret ()) \<Longrightarrow> view w' = g x (view w)" and "each f xs w = (w', Ret ())"
  shows "view w' = fold g xs (view w)"
  using assms(2)
proof (induction xs arbitrary: w)
  case Nil
  then show ?case by (simp add: ret_def)
next
  case (Cons x xs)
  from Cons.prems obtain w1 where "f x w = (w1, Ret ())" "each f xs w1 = (w', Ret ())"
    by (auto simp: bnd_def split: prod.splits outcome.splits)
  with Cons.IH [of w1] assms(1) [of x w w1] show ?case by simp
qed

definition beat_worker :: "Conf \<Rightarrow> string \<Rightarrow> string \<Rightarrow> int64 \<Rightarrow> store \<Rightarrow> store" where
  "beat_worker conf p k now v = set_worker conf p k
     (map_option (\<lambda>it. it(''ttl'' \<mapsto> enc_int64 (now + WorkerTTL conf))) (worker_at conf v p k)) v"

definition beat_replica :: "Conf \<Rightarrow> string \<Rightarrow> string \<Rightarrow> int64 \<Rightarrow> string \<Rightarrow> store \<Rightarrow> store" where
  "beat_replica conf p k now d v = set_replica conf p (FmtReplicaID d k)
     (Some (marshal_Replica \<lparr>rpl_PoolID = p, rpl_ReplicaID = FmtReplicaID d k, rpl_TTL = now + ReplicaTTL conf\<rparr>)) v"

definition beat_alloc :: "Conf \<Rightarrow> string \<Rightarrow> int64 \<Rightarrow> string \<Rightarrow> store \<Rightarrow> store" where
  "beat_alloc conf p now a v = set_alloc conf p a
     (map_option (\<lambda>it. it(''ttl'' \<mapsto> enc_int64 (now + AllocTTL conf))) (alloc_at conf v p a)) v"

context seq_backend
begin

lemma wp_PutNewWorker_any:
  assumes "\<And>w' r. view w' = set_worker conf (wrk_PoolID wk) (wrk_WorkerID wk) (Some (marshal_Worker wk)) (view w) \<Longrightarrow>
      r = Ret () \<or> (\<exists>e. r = Fail e) \<Longrightarrow> Q w' r"
    and "\<And>w' e. view w' = view w \<Longrightarrow> Q w' (Fail e)"
  shows "wp (PutNewWorker conf svc wk) Q w"
  unfolding PutNewWorker_def wp_on_err
proof (rule wp_call0I, unfold outcome.case)
  fix w'
  assume "db_PutItem svc (WorkersTableName conf) (marshal_Worker wk) (Some (Attribute_not_exists ''wkr'')) w = (w', None)"
  then have "view w' = set_worker conf (wrk_PoolID wk) (wrk_WorkerID wk) (Some (marshal_Worker wk)) (view w)"
    by (auto dest!: put simp: write_post_def put_eff_def key_of_entity)
  then show "Q w' (Ret ())" by (rule assms(1)) simp
next
  fix w' e
  assume "db_PutItem svc (WorkersTableName conf) (marshal_Worker wk) (Some (Attribute_not_exists ''wkr'')) w = (w', Some e)"
  then have "view w' = view w \<or>
      view w' = set_worker conf (wrk_PoolID wk) (wrk_WorkerID wk) (Some (marshal_Worker wk)) (view w)"
    by (auto dest!: put simp: write_post_def put_eff_def key_of_entity split: if_splits)
  then show "wp (cond_failed_as ErrWorkerExists ''failed to put item'' e) Q w'"
    using assms by (auto simp: cond_failed_as_def wp_fails)
qed

end

context seq_item_backend
begin

lemma wp_RegisterWorker:
  assumes "\<And>w' e url. view w' = view w \<or> view w' = create_queue url (view w) \<Longrightarrow> Q w' (Fail e)"
    and "\<And>w' input pool. json_Unmarshal RegisterWorkerInput_of_json b = Inr input \<Longrightarrow>
      stored_pool conf (view w) (rwi_PoolID input) = Some pool \<Longrightarrow> disbanded pool \<Longrightarrow> view w' = view w \<Longrightarrow> Q w' Panic"
    and "\<And>w' input pool worker r. json_Unmarshal RegisterWorkerInput_of_json b = Inr input \<Longrightarrow>
      stored_pool conf (view w) (rwi_PoolID input) = Some pool \<Longrightarrow> \<not> disbanded pool \<Longrightarrow>
      registered conf worker (view w) (view w') \<Longrightarrow> wrk_PoolID worker = pool_PoolID pool \<Longrightarrow>
      wrk_Capacity worker = rwi_Capacity input \<Longrightarrow>
      r = Ret (json_of_RegisterWorkerOutput
       \<lparr>rwo_PoolID = wrk_PoolID worker, rwo_WorkerID = wrk_WorkerID worker,
        rwo_QueueURL = wrk_QueueURL worker, rwo_Capacity = wrk_Capacity worker\<rparr>) \<or> (\<exists>e. r = Fail e) \<Longrightarrow> Q w' r"
  shows "wp (RegisterWorker conf svc b) Q w"
proof (cases "json_Unmarshal RegisterWorkerInput_of_json b")
  case (Inl e)
  then show ?thesis by (simp add: RegisterWorker_def wp_bnd wp_decodeInput assms(1))
next
  case (Inr input)
  show ?thesis
    unfolding RegisterWorker_def wp_bnd wp_decodeInput wp_wrapping wp_ret wp_deref Let_def Inr sum.case outcome.case
  proof (rule wp_GetActive, unfold outcome.case, goal_cases)
    case (2 w1 pool)
    note p = 2
    show ?case
    proof (rule wp_random_id, unfold outcome.case, goal_cases)
      case (1 w2 i)
      note q = 1
      show ?case
      proof (cases "disbanded pool")
        case True
        with p q show ?thesis by (simp add: assms(2) [OF Inr])
      next
        case False
        then have a: "(if disbanded pool then None else Some pool) = Some pool" by simp
        show ?thesis
          unfolding a option.case outcome.case
        proof (rule wp_create_queue, unfold outcome.case, goal_cases)
          case (1 w3 url)
          note c = 1
          show ?case
          proof (rule wp_now, unfold outcome.case, goal_cases)
            case (1 w4 now)
            let ?k = "\<lparr>wrk_PoolID = pool_PoolID pool, wrk_WorkerID = i, wrk_Capacity = rwi_Capacity input,
                wrk_QueueURL = url, wrk_TTL = now + WorkerTTL conf\<rparr>"
            have v: "view w4 = create_queue url (view w)" using p q c 1 by simp
            show ?case
            proof (rule wp_PutNewWorker_any, goal_cases)
              case (1 w5 r)
              then have "registered conf ?k (view w) (view w5)" using v by (simp add: registered_def)
              from assms(3) [OF Inr p(2) False this] 1(2) show ?case by auto
            qed (use v assms(1) in auto)
          qed
        qed (use p q assms(1) in auto)
      qed
    qed (use p assms(1) in auto)
  qed (use assms(1) in auto)
qed

end

context seq_backend
begin

lemma wp_DisbandPool:
  assumes "\<And>w' e. view w' = view w \<Longrightarrow> Q w' (Fail e)"
    and "\<And>w' e input. json_Unmarshal DisbandPoolInput_of_json b = Inr input \<Longrightarrow>
      view w' = set_queue (FmtPoolQueueURL conf (dpi_PoolID input)) None (view w) \<Longrightarrow> Q w' (Fail e)"
    and "\<And>w' r input it now w1 w2. json_Unmarshal DisbandPoolInput_of_json b = Inr input \<Longrightarrow>
      pool_at conf (view w) (dpi_PoolID input) = Some it \<Longrightarrow> time_Now_Unix svc w1 = (w2, now) \<Longrightarrow>
      view w1 = set_queue (FmtPoolQueueURL conf (dpi_PoolID input)) None (view w) \<Longrightarrow>
      view w' = set_pool conf (dpi_PoolID input) (Some (it(''ttl'' \<mapsto> enc_int64 (now + PoolTTL conf))))
        (set_queue (FmtPoolQueueURL conf (dpi_PoolID input)) None (view w)) \<Longrightarrow>
      r = Ret (json_of_empty ()) \<or> (\<exists>e. r = Fail e) \<Longrightarrow> Q w' r"
  shows "wp (DisbandPool conf svc b) Q w"
proof (cases "json_Unmarshal DisbandPoolInput_of_json b")
  case (Inl e)
  then show ?thesis by (simp add: DisbandPool_def wp_bnd wp_decodeInput assms(1))
next
  case (Inr input)
  have upd: "wp (bnd (reads (time_Now_Unix svc)) (\<lambda>now.
     bnd (wrapping ''failed to update pool ttl''
            (UpdatePoolTTL conf svc (now + PoolTTL conf) \<lparr>pool_PoolID = dpi_PoolID input\<rparr>)) (\<lambda>_.
     ret (json_of_empty ())))) Q w1"
    if v: "view w1 = set_queue (FmtPoolQueueURL conf (dpi_PoolID input)) None (view w)" for w1
    unfolding wp_bnd wp_wrapping wp_ret
  proof (rule wp_now, unfold outcome.case, goal_cases)
    case (1 w2 now)
    note n = 1(2)
    show ?case
    proof (rule wp_UpdatePoolTTL, unfold outcome.case PoolPK.simps, goal_cases)
      case (1 w3 it)
      with v \<open>view w2 = view w1\<close> show ?case by (intro assms(3) [OF Inr _ n v]) auto
    next
      case (4 w3 e it)
      with v \<open>view w2 = view w1\<close> show ?case by (intro assms(3) [OF Inr _ n v]) auto
    qed (use v \<open>view w2 = view w1\<close> assms(2) [OF Inr] in auto)
  qed
  have rm: "wp (call0 (sqs_DeleteQueue svc (FmtPoolQueueURL conf (dpi_PoolID input)))) Q' w"
    if "\<And>w'. view w' = set_queue (FmtPoolQueueURL conf (dpi_PoolID input)) None (view w) \<Longrightarrow> Q' w' (Ret ())"
      "\<And>w' e. view w' = view w \<or> view w' = set_queue (FmtPoolQueueURL conf (dpi_PoolID input)) None (view w) \<Longrightarrow> Q' w' (Fail e)"
    for Q'
    using that by (intro wp_call0I) (fastforce dest!: remove)+
  show ?thesis
    unfolding DisbandPool_def wp_bnd [of "decodeInput _ _"] wp_decodeInput Inr sum.case outcome.case
    unfolding wp_bnd [of "wrapping ''failed to remove queue'' _"] wp_wrapping
    by (rule rm, unfold outcome.case) (use upd assms(1,2) Inr in auto)
qed

end


lemma wp_each_panic_free:
  assumes "\<And>x. panic_free (f x)" and "\<And>w'. each f xs w = (w', Ret ()) \<Longrightarrow> Q w' (Ret ())" and "\<And>w' e. Q w' (Fail e)"
  shows "wp (each f xs) Q w"
proof -
  obtain w' r where run: "each f xs w = (w', r)" by fastforce
  have "panic_free (each f xs)" by (intro panic_rules assms(1))
  with run have "r \<noteq> Panic" by (metis panic_freeD)
  with run assms(2,3) show ?thesis by (cases r) (auto simp: wp_def)
qed

context seq_item_backend
begin

lemma heartbeat_replica_Ret:
  assumes "heartbeat_replica conf svc pool k now d w = (w', Ret ())"
  shows "view w' = beat_replica conf (pool_PoolID pool) k now d (view w)"
proof -
  have "wp (heartbeat_replica conf svc pool k now d)
      (\<lambda>w' r. r = Ret () \<longrightarrow> view w' = beat_replica conf (pool_PoolID pool) k now d (view w)) w"
    unfolding heartbeat_replica_def Let_def wp_wrapping
    by (rule wp_PutReplica) (auto simp: beat_replica_def)
  from wp_run [OF this assms] show ?thesis by simp
qed

lemma heartbeat_alloc_Ret:
  assumes "heartbeat_alloc conf svc pool now a w = (w', Ret ())"
  shows "view w' = beat_alloc conf (pool_PoolID pool) now a (view w)"
proof -
  have "wp (heartbeat_alloc conf svc pool now a)
      (\<lambda>w' r. r = Ret () \<longrightarrow> view w' = beat_alloc conf (pool_PoolID pool) now a (view w)) w"
    unfolding heartbeat_alloc_def wp_wrapping
    by (rule wp_UpdateAllocTTL) (auto simp: beat_alloc_def)
  from wp_run [OF this assms] show ?thesis by simp
qed

lemma each_heartbeat_Ret:
  "each (heartbeat_replica conf svc pool k now) ds w = (w', Ret ()) \<Longrightarrow>
     view w' = fold (beat_replica conf (pool_PoolID pool) k now) ds (view w)"
  "each (heartbeat_alloc conf svc pool now) as w = (w', Ret ()) \<Longrightarrow>
     view w' = fold (beat_alloc conf (pool_PoolID pool) now) as (view w)"
  by (erule each_fold [rotated], erule heartbeat_replica_Ret heartbeat_alloc_Ret)+

lemma wp_SendHeartbeat:
  assumes "\<And>w' e. Q w' (Fail e)"
    and "\<And>w' input pool. json_Unmarshal SendHeartbeatInput_of_json b = Inr input \<Longrightarrow>
      stored_pool conf (view w) (shi_PoolID input) = Some pool \<Longrightarrow> disbanded pool \<Longrightarrow> view w' = view w \<Longrightarrow> Q w' Panic"
    and "\<And>w' input pool now w1 w2. json_Unmarshal SendHeartbeatInput_of_json b = Inr input \<Longrightarrow>
      time_Now_Unix svc w1 = (w2, now) \<Longrightarrow> view w1 = view w \<Longrightarrow>
      stored_pool conf (view w) (shi_PoolID input) = Some pool \<Longrightarrow> \<not> disbanded pool \<Longrightarrow>
      worker_at conf (view w) (pool_PoolID pool) (shi_WorkerID input) \<noteq> None \<Longrightarrow>
      view w' = fold (beat_alloc conf (pool_PoolID pool) now) (shi_Allocs input)
        (fold (beat_replica conf (pool_PoolID pool) (shi_WorkerID input) now) (shi_Datasets input)
          (beat_worker conf (pool_PoolID pool) (shi_WorkerID input) now (view w))) \<Longrightarrow>
      Q w' (Ret (json_of_empty ()))"
  shows "wp (SendHeartbeat conf svc b) Q w"
proof (cases "json_Unmarshal SendHeartbeatInput_of_json b")
  case (Inl e)
  then show ?thesis by (simp add: SendHeartbeat_def wp_bnd wp_decodeInput assms(1))
next
  case (Inr input)
  have np: "panic_free (heartbeat_replica conf svc pool k n d)" "panic_free (heartbeat_alloc conf svc pool n a)" for pool k n d a
    unfolding heartbeat_replica_def heartbeat_alloc_def PutReplica_def UpdateAllocTTL_def cond_failed_as_def Let_def
    by (intro panic_rules)+
  show ?thesis
    unfolding SendHeartbeat_def wp_bnd wp_decodeInput wp_wrapping wp_ret wp_deref Let_def Inr sum.case outcome.case
  proof (rule wp_GetActive, unfold outcome.case, goal_cases)
    case (2 w1 pool)
    note p = 2
    show ?case
    proof (rule wp_now, unfold outcome.case, goal_cases)
      case (1 w2 n)
      note nw = 1(2)
      have vw: "view w1 = view w" and v2: "view w2 = view w" using p 1 by simp_all
      show ?case
      proof (cases "disbanded pool")
        case True
        with p v2 show ?thesis by (simp add: assms(2) [OF Inr])
      next
        case False
        then have a: "(if disbanded pool then None else Some pool) = Some pool" by simp
        show ?thesis
          unfolding a option.case outcome.case
        proof (rule wp_UpdateWorkerTTL, unfold outcome.case WorkerPK.simps, goal_cases)
          case (1 w3 it)
          then have k: "worker_at conf (view w) (pool_PoolID pool) (shi_WorkerID input) \<noteq> None"
            and v3: "view w3 = beat_worker conf (pool_PoolID pool) (shi_WorkerID input) n (view w)"
            using v2 by (simp_all add: beat_worker_def)
          show ?case
          proof (rule wp_each_panic_free [OF np(1)], unfold outcome.case, goal_cases)
            case (1 w4)
            from each_heartbeat_Ret(1) [OF this]
            have v4: "view w4 = fold (beat_replica conf (pool_PoolID pool) (shi_WorkerID input) n) (shi_Datasets input) (view w3)"
              by simp
            show ?case
            proof (rule wp_each_panic_free [OF np(2)], unfold outcome.case, goal_cases)
              case (1 w5)
              from each_heartbeat_Ret(2) [OF this]
              show ?case using v3 v4 by (intro assms(3) [OF Inr nw vw p(2) False k]) simp
            qed (rule assms(1))
          qed (rule assms(1))
        qed (use assms(1) in auto)
      qed
    qed
  qed (use assms(1) in auto)
qed

end

end
