(* ===== verification/Mux_Properties.thy ===== *)
theory Mux_Properties
  imports Mux_Proofs Release_Properties
begin

section \<open>Properties of the HTTP operations\<close>

text \<open>
  The claims about \<open>mux.go\<close>, the stores behind it, and the codecs, each with a run on the backend in
  memory where it has hypotheses.
\<close>

lemmas mux_run =
  prog_run mem_run PutNewPool_def GetPool_def GetActivePool_def UpdatePoolTTL_def PutNewWorker_def UpdateWorkerTTL_def
  GetAlloc_def UpdateAllocTTL_def PutReplica_def cond_failed_as_def naming_defs Unmarshal_json
  decodeInput_def random_id_def CreatePool_def active_pool_def RegisterWorker_def DisbandPool_def
  heartbeat_replica_def heartbeat_alloc_def SendHeartbeat_def ScheduleEval_def CompleteAlloc_def errh_def
  known_methods_def route_def Mux_def

text \<open>A world with a disbanded pool only, and one whose pool still has its queue.\<close>

definition gone_pool :: Pool where
  "gone_pool = demo_pool\<lparr>pool_TTL := 160\<rparr>"

definition gone_world :: mem where
  "gone_world = demo_mem\<lparr>m_items := (\<lambda>_. [])(''pools'' := [marshal_Pool gone_pool])\<rparr>"

definition disband_world :: mem where
  "disband_world = demo_world\<lparr>m_queues := [''https://sqs.eu.amazonaws.com/1/line-p'' \<mapsto> []]\<rparr>"

lemma demo_complete_run:
  "\<exists>w' out. CompleteAlloc demo demo_svc (Some (json_of_CompleteAllocInput \<lparr>cai_PoolID = ''p'', cai_AllocID = ''a''\<rparr>)) alloc_world =
     (w', Ret out)"
  by (simp add: mux_run releaseAlloc_def Alloc_PK_def alloc_world_def demo_alloc_def)

lemma alloc_world_pool: "stored_pool demo (demo_view alloc_world) ''p'' = Some demo_pool" "\<not> disbanded demo_pool"
  by (simp_all add: stored_pool_def mem_run alloc_world_def pool_key_def disbanded_def ParseInt64_def in_int64_def)

lemma demo_heartbeat_run:
  "\<exists>w' out. SendHeartbeat demo demo_svc (Some (json_of_SendHeartbeatInput
     \<lparr>shi_PoolID = ''p'', shi_WorkerID = ''w1'', shi_Allocs = [''a''], shi_Datasets = [''d'']\<rparr>)) alloc_world = (w', Ret out)"
  by (simp add: mux_run alloc_world_def demo_alloc_def)

lemma demo_enqueue_run:
  "\<exists>w' out. ScheduleEval demo demo_svc (Some (json_of_ScheduleEvalInput
     \<lparr>sei_PoolID = ''p'', sei_DatasetID = [], sei_Size = 1\<rparr>)) busy_world = (w', Ret out)"
  by (simp add: mux_run busy_world_def)

lemma demo_disband_run:
  "\<exists>w' out. DisbandPool demo demo_svc (Some (json_of_DisbandPoolInput \<lparr>dpi_PoolID = ''p''\<rparr>)) disband_world = (w', Ret out)"
  by (simp add: mux_run disband_world_def)

subsection \<open>Pools and workers\<close>

text \<open>
  C23: A successful CreatePool stores a new pool that is not disbanded, with its queue, and
  returns its id; reading the active pool of that id then gives this pool or an error, never
  nil. Nobody else writes meanwhile, and reads of single items show what is stored.
\<close>

theorem create_then_active:
  assumes b: "seq_item_backend svc conf view" and run: "CreatePool conf svc b w = (w1, Ret out)"
  shows "\<exists>pool. created conf pool (view w) (view w1) \<and>
     out = json_of_CreatePoolOutput \<lparr>cpo_PoolID = pool_PoolID pool\<rparr> \<and>
     (\<forall>w2 r. GetActivePool conf svc \<lparr>pool_PoolID = pool_PoolID pool\<rparr> w1 = (w2, r) \<longrightarrow>
        r = Ret (Some pool) \<or> (\<exists>e. r = Fail e))"
proof -
  have "wp (CreatePool conf svc b) (\<lambda>w1 r. \<forall>out. r = Ret out \<longrightarrow> (\<exists>pool. created conf pool (view w) (view w1) \<and>
     out = json_of_CreatePoolOutput \<lparr>cpo_PoolID = pool_PoolID pool\<rparr>)) w"
    by (rule seq_backend.wp_CreatePool [OF seq_item_backend.is_seq [OF b]]) auto
  with run obtain pool where c: "created conf pool (view w) (view w1)"
    and out: "out = json_of_CreatePoolOutput \<lparr>cpo_PoolID = pool_PoolID pool\<rparr>"
    by (auto dest: wp_run)
  from c have s: "stored_pool conf (view w1) (pool_PoolID pool) = Some pool" "\<not> disbanded pool"
    by (simp_all add: created_def stored_pool_def disbanded_def unmarshal_marshal)
  have "wp (GetActivePool conf svc \<lparr>pool_PoolID = pool_PoolID pool\<rparr>)
      (\<lambda>w2 r. r = Ret (Some pool) \<or> (\<exists>e. r = Fail e)) w1"
    by (rule seq_item_backend.wp_GetActive [OF b]) (use s in auto)
  with c out show ?thesis by (auto dest: wp_run)
qed

theorem create_then_active_witness:
  "\<exists>w1 out pool. CreatePool demo demo_svc (Some (json_of_empty ())) demo_mem = (w1, Ret out) \<and>
     created demo pool (demo_view demo_mem) (demo_view w1)"
proof -
  have "\<exists>w1 out. CreatePool demo demo_svc (Some (json_of_empty ())) demo_mem = (w1, Ret out)"
    by (simp add: mux_run)
  then obtain w1 out where r: "CreatePool demo demo_svc (Some (json_of_empty ())) demo_mem = (w1, Ret out)" by blast
  from create_then_active [OF demo.seq_item_backend_axioms r] r show ?thesis by blast
qed

text \<open>
  C24: A successful RegisterWorker was for a stored pool that is not disbanded, stored a worker
  with the capacity of the request, created its queue, and answers with what it stored. Nobody
  else writes meanwhile, and reads of single items show what is stored.
\<close>

theorem register_worker_result:
  assumes "seq_item_backend svc conf view" and "RegisterWorker conf svc b w = (w', Ret out)"
  shows "\<exists>input pool worker. json_Unmarshal RegisterWorkerInput_of_json b = Inr input \<and>
     stored_pool conf (view w) (rwi_PoolID input) = Some pool \<and> \<not> disbanded pool \<and>
     registered conf worker (view w) (view w') \<and> wrk_PoolID worker = pool_PoolID pool \<and>
     wrk_Capacity worker = rwi_Capacity input \<and>
     out = json_of_RegisterWorkerOutput
       \<lparr>rwo_PoolID = wrk_PoolID worker, rwo_WorkerID = wrk_WorkerID worker,
        rwo_QueueURL = wrk_QueueURL worker, rwo_Capacity = wrk_Capacity worker\<rparr>"
proof -
  have "wp (RegisterWorker conf svc b) (\<lambda>w' r. \<forall>out. r = Ret out \<longrightarrow>
    (\<exists>input pool worker. json_Unmarshal RegisterWorkerInput_of_json b = Inr input \<and>
     stored_pool conf (view w) (rwi_PoolID input) = Some pool \<and> \<not> disbanded pool \<and>
     registered conf worker (view w) (view w') \<and> wrk_PoolID worker = pool_PoolID pool \<and>
     wrk_Capacity worker = rwi_Capacity input \<and>
     out = json_of_RegisterWorkerOutput
       \<lparr>rwo_PoolID = wrk_PoolID worker, rwo_WorkerID = wrk_WorkerID worker,
        rwo_QueueURL = wrk_QueueURL worker, rwo_Capacity = wrk_Capacity worker\<rparr>)) w"
    by (rule seq_item_backend.wp_RegisterWorker [OF assms(1)]) auto
  from wp_run [OF this assms(2)] show ?thesis by simp
qed

theorem register_worker_result_witness:
  "\<exists>w' out worker. RegisterWorker demo demo_svc (Some (json_of_RegisterWorkerInput \<lparr>rwi_PoolID = ''p'', rwi_Capacity = 10\<rparr>)) demo_world =
       (w', Ret out) \<and> registered demo worker (demo_view demo_world) (demo_view w')"
proof -
  have "\<exists>w' out. RegisterWorker demo demo_svc (Some (json_of_RegisterWorkerInput \<lparr>rwi_PoolID = ''p'', rwi_Capacity = 10\<rparr>)) demo_world = (w', Ret out)"
    by (simp add: mux_run)
  then obtain w' out where
    r: "RegisterWorker demo demo_svc (Some (json_of_RegisterWorkerInput \<lparr>rwi_PoolID = ''p'', rwi_Capacity = 10\<rparr>)) demo_world = (w', Ret out)" by blast
  from register_worker_result [OF demo.seq_item_backend_axioms r] r show ?thesis by blast
qed

text \<open>
  C25: A scheduling request for a disbanded pool panics out of the router: GetActivePool wraps a
  nil error, so it returns a nil pool without an error, which is dereferenced.
\<close>

theorem disbanded_pool_panics:
  assumes "json_Unmarshal ScheduleEvalInput_of_json b = Inr input"
    and "GetPool conf svc \<lparr>pool_PoolID = sei_PoolID input\<rparr> w = (w', Ret pool)" and "0 < sint (pool_TTL pool)"
  shows "Mux conf svc ''POST'' ''/ScheduleEval'' b w = (w', Panic)"
  using GetActivePool_disbanded [OF assms(2,3)] assms(1)
  by (simp add: Mux_def known_methods_def route_def errh_def ScheduleEval_def decodeInput_def active_pool_def
      of_sum_def wrapping_def on_err_def bnd_def ret_def deref_def)

theorem disbanded_pool_panics_witness:
  "\<exists>w'. Mux demo demo_svc ''POST'' ''/ScheduleEval''
     (Some (json_of_ScheduleEvalInput \<lparr>sei_PoolID = ''p'', sei_DatasetID = [], sei_Size = 1\<rparr>)) gone_world = (w', Panic)"
proof -
  have "\<exists>w'. GetPool demo demo_svc \<lparr>pool_PoolID = ''p''\<rparr> gone_world = (w', Ret gone_pool)"
    by (simp add: mux_run gone_world_def gone_pool_def)
  then obtain w' where "GetPool demo demo_svc \<lparr>pool_PoolID = ''p''\<rparr> gone_world = (w', Ret gone_pool)" by blast
  moreover have "0 < sint (pool_TTL gone_pool)" by (simp add: gone_pool_def)
  ultimately show ?thesis
    using disbanded_pool_panics [OF ScheduleEvalInput_json.Unmarshal_to, of demo demo_svc
        "\<lparr>sei_PoolID = ''p'', sei_DatasetID = [], sei_Size = 1\<rparr>" gone_world w' gone_pool] by auto
qed

theorem put_new_worker_overwrites:
  assumes b: "seq_backend svc conf view"
    and old: "worker_at conf (view w) (wrk_PoolID wk) (wrk_WorkerID wk) = Some it" "it ''wkr'' = None"
    and run: "PutNewWorker conf svc wk w = (w', r)"
  shows "r \<noteq> Fail ErrWorkerExists \<and>
     (r = Ret () \<longrightarrow> worker_at conf (view w') (wrk_PoolID wk) (wrk_WorkerID wk) = Some (marshal_Worker wk))"
proof -
  have "wp (PutNewWorker conf svc wk) (\<lambda>w' r. r \<noteq> Fail ErrWorkerExists \<and>
     (r = Ret () \<longrightarrow> worker_at conf (view w') (wrk_PoolID wk) (wrk_WorkerID wk) = Some (marshal_Worker wk))) w"
    by (rule seq_backend.wp_PutNewWorker [OF b]) (use old in \<open>auto simp: ErrWorkerExists_def\<close>)
  from wp_run [OF this run] show ?thesis .
qed

theorem put_new_worker_overwrites_witness:
  "\<exists>w'. PutNewWorker demo demo_svc (demo_worker\<lparr>wrk_Capacity := 99\<rparr>) demo_world = (w', Ret ()) \<and>
     worker_at demo (demo_view w') ''p'' ''w1'' = Some (marshal_Worker (demo_worker\<lparr>wrk_Capacity := 99\<rparr>))"
proof -
  let ?k = "demo_worker\<lparr>wrk_Capacity := 99\<rparr>"
  have "\<exists>w'. PutNewWorker demo demo_svc ?k demo_world = (w', Ret ())"
    by (simp add: mux_run)
  then obtain w' where run: "PutNewWorker demo demo_svc ?k demo_world = (w', Ret ())" by blast
  have old: "worker_at demo (demo_view demo_world) (wrk_PoolID ?k) (wrk_WorkerID ?k) = Some (marshal_Worker demo_worker)"
    by (simp add: mem_run sub_key_def)
  have "marshal_Worker demo_worker ''wkr'' = None" by (simp add: marshal_defs)
  from put_new_worker_overwrites [OF demo.seq_backend_axioms old this run] run show ?thesis
    by (auto simp: demo_worker_def)
qed

theorem put_new_pool_refuses:
  assumes b: "seq_backend svc conf view" and old: "pool_at conf (view w) (pool_PoolID pool) \<noteq> None"
    and run: "PutNewPool conf svc pool w = (w', r)"
  shows "(\<exists>e. r = Fail e) \<and> view w' = view w"
proof -
  have "wp (PutNewPool conf svc pool) (\<lambda>w' r. (\<exists>e. r = Fail e) \<and> view w' = view w) w"
    by (rule seq_backend.wp_PutNewPool [OF b]) (use old in auto)
  from wp_run [OF this run] show ?thesis .
qed

theorem put_new_pool_refuses_witness:
  "\<exists>w' e. PutNewPool demo demo_svc demo_pool demo_world = (w', Fail e) \<and> demo_view w' = demo_view demo_world"
proof -
  obtain w' r where run: "PutNewPool demo demo_svc demo_pool demo_world = (w', r)" by fastforce
  have "pool_at demo (demo_view demo_world) (pool_PoolID demo_pool) \<noteq> None"
    by (simp add: mem_run pool_key_def)
  from put_new_pool_refuses [OF demo.seq_backend_axioms this run] run show ?thesis by auto
qed

text \<open>
  The pool \<open>p\<close> of the store \<open>v\<close> has got a ttl, in \<open>v'\<close>: a reading of the clock, made on \<open>v\<close>, and the
  configured time.
\<close>

definition marked :: "Conf \<Rightarrow> 'w services \<Rightarrow> ('w \<Rightarrow> store) \<Rightarrow> string \<Rightarrow> store \<Rightarrow> store \<Rightarrow> bool" where
  "marked conf svc view p v v' \<longleftrightarrow> (\<exists>it w1 w2 now. pool_at conf v p = Some it \<and>
     time_Now_Unix svc w1 = (w2, now) \<and> view w1 = v \<and>
     v' = set_pool conf p (Some (it(''ttl'' \<mapsto> enc_int64 (now + PoolTTL conf)))) v)"

lemma markedI:
  "pool_at conf v p = Some it \<Longrightarrow> time_Now_Unix svc w1 = (w2, now) \<Longrightarrow> view w1 = v \<Longrightarrow>
     v' = set_pool conf p (Some (it(''ttl'' \<mapsto> enc_int64 (now + PoolTTL conf)))) v \<Longrightarrow> marked conf svc view p v v'"
  unfolding marked_def by blast

text \<open>
  C26: What DisbandPool does, by its input and result: an input that does not decode is an error
  without effect; on success the queue is gone and the ttl is a reading of the clock plus the
  configured time; on an error nothing happened, or the queue is gone although the pool was not
  marked, or both happened; it never panics. Nobody else writes meanwhile.
\<close>

theorem disband_pool_result:
  assumes b: "seq_backend svc conf view" and run: "DisbandPool conf svc b w = (w', r)"
  shows "case json_Unmarshal DisbandPoolInput_of_json b of
      Inl _ \<Rightarrow> (\<exists>e. r = Fail e) \<and> view w' = view w
    | Inr input \<Rightarrow> (let v1 = set_queue (FmtPoolQueueURL conf (dpi_PoolID input)) None (view w) in
        case r of
          Ret out \<Rightarrow> out = json_of_empty () \<and> marked conf svc view (dpi_PoolID input) v1 (view w')
        | Fail e \<Rightarrow> view w' = view w \<or> view w' = v1 \<or> marked conf svc view (dpi_PoolID input) v1 (view w')
        | Panic \<Rightarrow> False)" (is "?Q w' r")
proof (cases "json_Unmarshal DisbandPoolInput_of_json b")
  case (Inl e)
  then have "DisbandPool conf svc b w = (w, Fail (Wrapped e ''failed to decode input''))"
    by (simp add: DisbandPool_def decodeInput_def of_sum_def wrapping_def on_err_def bnd_def fails_def)
  with run Inl show ?thesis by auto
next
  case (Inr input)
  have "wp (DisbandPool conf svc b) ?Q w"
  proof (rule seq_backend.wp_DisbandPool [OF b], goal_cases)
    case (3 w' r input it now w1 w2)
    have "marked conf svc view (dpi_PoolID input) (set_queue (FmtPoolQueueURL conf (dpi_PoolID input)) None (view w)) (view w')"
      using 3(2-5) by (intro markedI [where view = view and svc = svc]) (simp_all)
    with 3(1,6) show ?case by auto
  qed (use Inr in \<open>auto simp: Let_def\<close>)
  from wp_run [OF this run] show ?thesis .
qed

theorem disband_pool_result_witness:
  "\<exists>w' it now. pool_at demo (demo_view disband_world) ''p'' = Some it \<and>
     demo_view w' = set_pool demo ''p'' (Some (it(''ttl'' \<mapsto> enc_int64 (now + PoolTTL demo))))
       (set_queue (FmtPoolQueueURL demo ''p'') None (demo_view disband_world))"
proof -
  obtain w' out where run: "DisbandPool demo demo_svc (Some (json_of_DisbandPoolInput \<lparr>dpi_PoolID = ''p''\<rparr>)) disband_world = (w', Ret out)"
    using demo_disband_run by blast
  from disband_pool_result [OF demo.seq_backend_axioms run] DisbandPoolInput_json.Unmarshal_to [of "\<lparr>dpi_PoolID = ''p''\<rparr>"]
  show ?thesis by (auto simp: Let_def marked_def)
qed

subsection \<open>Heartbeats and scheduling requests\<close>

text \<open>
  C27: A successful heartbeat was for an active pool and a stored worker, and moved the ttl of
  the worker, then put a fresh replica for every reported data set, then moved the ttl of every
  reported allocation, all by the one reading of the clock that the operation makes, and changed
  nothing else. Nobody else writes meanwhile, and reads of single items show what is stored.
\<close>

theorem heartbeat_result:
  assumes b: "seq_item_backend svc conf view" and run: "SendHeartbeat conf svc b w = (w', Ret out)"
  shows "\<exists>input pool w1 w2 now. time_Now_Unix svc w1 = (w2, now) \<and> view w1 = view w \<and> json_Unmarshal SendHeartbeatInput_of_json b = Inr input \<and>
     stored_pool conf (view w) (shi_PoolID input) = Some pool \<and> \<not> disbanded pool \<and>
     worker_at conf (view w) (pool_PoolID pool) (shi_WorkerID input) \<noteq> None \<and>
     view w' = fold (beat_alloc conf (pool_PoolID pool) now) (shi_Allocs input)
        (fold (beat_replica conf (pool_PoolID pool) (shi_WorkerID input) now) (shi_Datasets input)
          (beat_worker conf (pool_PoolID pool) (shi_WorkerID input) now (view w)))"
proof -
  have "wp (SendHeartbeat conf svc b) (\<lambda>w' r. \<forall>out. r = Ret out \<longrightarrow>
    (\<exists>input pool w1 w2 now. time_Now_Unix svc w1 = (w2, now) \<and> view w1 = view w \<and> json_Unmarshal SendHeartbeatInput_of_json b = Inr input \<and>
     stored_pool conf (view w) (shi_PoolID input) = Some pool \<and> \<not> disbanded pool \<and>
     worker_at conf (view w) (pool_PoolID pool) (shi_WorkerID input) \<noteq> None \<and>
     view w' = fold (beat_alloc conf (pool_PoolID pool) now) (shi_Allocs input)
        (fold (beat_replica conf (pool_PoolID pool) (shi_WorkerID input) now) (shi_Datasets input)
          (beat_worker conf (pool_PoolID pool) (shi_WorkerID input) now (view w))))) w"
    by (rule seq_item_backend.wp_SendHeartbeat [OF b]) (simp_all, blast)
  from wp_run [OF this run] show ?thesis by simp
qed

theorem heartbeat_result_witness:
  "\<exists>w' input (pool :: Pool) now. json_Unmarshal SendHeartbeatInput_of_json (Some (json_of_SendHeartbeatInput
       \<lparr>shi_PoolID = ''p'', shi_WorkerID = ''w1'', shi_Allocs = [''a''], shi_Datasets = [''d'']\<rparr>)) = Inr input \<and>
     demo_view w' = fold (beat_alloc demo (pool_PoolID pool) now) (shi_Allocs input)
        (fold (beat_replica demo (pool_PoolID pool) (shi_WorkerID input) now) (shi_Datasets input)
          (beat_worker demo (pool_PoolID pool) (shi_WorkerID input) now (demo_view alloc_world)))"
proof -
  obtain w' out where "SendHeartbeat demo demo_svc (Some (json_of_SendHeartbeatInput
     \<lparr>shi_PoolID = ''p'', shi_WorkerID = ''w1'', shi_Allocs = [''a''], shi_Datasets = [''d'']\<rparr>)) alloc_world = (w', Ret out)"
    using demo_heartbeat_run by blast
  from heartbeat_result [OF demo.seq_item_backend_axioms this] show ?thesis by blast
qed

theorem heartbeat_keeps_capacity:
  assumes b: "seq_backend svc conf view" and run: "SendHeartbeat conf svc b w = (w', r)"
  shows "cap_of conf (view w') p k = cap_of conf (view w) p k"
proof -
  have bb: "backend svc conf view (=)" by (rule seq_backend.is_backend [OF b])
  note d = tables_neq [OF backend.conf_tables [OF bb]]
  let ?J = "\<lambda>v. cap_of conf v p k = cap_of conf (view w) p k"
  have "keeps (\<lambda>w. ?J (view w)) (SendHeartbeat conf svc b)"
    unfolding SendHeartbeat_def heartbeat_replica_def heartbeat_alloc_def Let_def
    by (intro keeps_rules backend.keeps_GetActivePool [OF bb] backend.keeps_UpdateWorkerTTL [OF bb]
        backend.keeps_PutReplica [OF bb] backend.keeps_UpdateAllocTTL [OF bb] backend.keeps_reads_of_view [OF bb] stable_eq)
       (auto simp: cap_of_def d)
  from keepsD [OF this _ run] show ?thesis by simp
qed

theorem heartbeat_keeps_capacity_witness:
  "\<exists>w' out. SendHeartbeat demo demo_svc (Some (json_of_SendHeartbeatInput
     \<lparr>shi_PoolID = ''p'', shi_WorkerID = ''w1'', shi_Allocs = [''a''], shi_Datasets = [''d'']\<rparr>)) alloc_world = (w', Ret out) \<and>
     cap_of demo (demo_view w') ''p'' ''w1'' = cap_of demo (demo_view alloc_world) ''p'' ''w1''"
proof -
  obtain w' out where run: "SendHeartbeat demo demo_svc (Some (json_of_SendHeartbeatInput
     \<lparr>shi_PoolID = ''p'', shi_WorkerID = ''w1'', shi_Allocs = [''a''], shi_Datasets = [''d'']\<rparr>)) alloc_world = (w', Ret out)"
    using demo_heartbeat_run by blast
  from heartbeat_keeps_capacity [OF demo.seq_backend_axioms run] run show ?thesis by blast
qed

lemma request_enqueues:
  assumes b: "seq_item_backend svc conf view" and run: "ScheduleEval conf svc b w = (w', Ret out)"
  shows "\<exists>input pool. json_Unmarshal ScheduleEvalInput_of_json b = Inr input \<and>
     stored_pool conf (view w) (sei_PoolID input) = Some pool \<and> \<not> disbanded pool \<and>
     send_eff (pool_QueueURL pool) (Some (json_of_Eval \<lparr>Dataset = sei_DatasetID input, Size = sei_Size input, Retry = 0\<rparr>))
       (view w) = Some (view w')"
proof -
  have "wp (ScheduleEval conf svc b) (\<lambda>w' r. \<forall>out. r = Ret out \<longrightarrow>
    (\<exists>input pool. json_Unmarshal ScheduleEvalInput_of_json b = Inr input \<and>
     stored_pool conf (view w) (sei_PoolID input) = Some pool \<and> \<not> disbanded pool \<and>
     send_eff (pool_QueueURL pool) (Some (json_of_Eval \<lparr>Dataset = sei_DatasetID input, Size = sei_Size input, Retry = 0\<rparr>))
       (view w) = Some (view w'))) w"
    by (rule seq_item_backend.wp_ScheduleEval [OF b]) auto
  from wp_run [OF this run] show ?thesis by simp
qed

text \<open>
  C29: What CompleteAlloc does, by its input and what is stored: an input that does not decode,
  a pool that is not stored, and an unknown or undecodable allocation of an active pool are
  errors that change nothing; a disbanded pool makes it panic or fail and changes nothing, and
  so does an allocation without an evaluation; otherwise it does not panic, and success means
  the capacity was given back. Nobody else writes meanwhile, and reads of single items show what
  is stored.
\<close>

theorem complete_alloc_result:
  assumes b: "seq_item_backend svc conf view" and run: "CompleteAlloc conf svc b w = (w', r)"
  shows "case json_Unmarshal CompleteAllocInput_of_json b of
     Inl _ \<Rightarrow> (\<exists>e. r = Fail e) \<and> view w' = view w
   | Inr input \<Rightarrow> (case stored_pool conf (view w) (cai_PoolID input) of
       None \<Rightarrow> (\<exists>e. r = Fail e) \<and> view w' = view w
     | Some pool \<Rightarrow> if disbanded pool then (r = Panic \<or> (\<exists>e. r = Fail e)) \<and> view w' = view w
       else (case alloc_at conf (view w) (pool_PoolID pool) (cai_AllocID input) of
         None \<Rightarrow> (\<exists>e. r = Fail e) \<and> view w' = view w
       | Some it \<Rightarrow> (case unmarshal_Alloc it of
           Inl _ \<Rightarrow> (\<exists>e. r = Fail e) \<and> view w' = view w
         | Inr alloc \<Rightarrow> (case alloc_Eval alloc of
             None \<Rightarrow> (r = Panic \<or> (\<exists>e. r = Fail e)) \<and> view w' = view w
           | Some eval \<Rightarrow> r \<noteq> Panic \<and> (\<forall>out. r = Ret out \<longrightarrow> given_back conf alloc (sint (Size eval)) (view w) (view w'))))))"
    (is "?Q w' r")
proof -
  have "wp (CompleteAlloc conf svc b) ?Q w"
  proof (rule seq_item_backend.wp_CompleteAlloc [OF b], goal_cases)
    case (1 w' e)
    then show ?case by (auto split: option.split sum.split)
  next
    case (2 w' input pool)
    then show ?case by auto
  next
    case (3 w' w1 input pool it alloc r r')
    with releaseAlloc_result [OF seq_item_backend.is_seq [OF b] 3(7)] show ?case
      by (auto split: option.splits outcome.splits)
  qed
  from wp_run [OF this run] show ?thesis .
qed

theorem complete_alloc_result_witness:
  "\<exists>w'. given_back demo demo_alloc 3 (demo_view alloc_world) (demo_view w')"
proof -
  let ?b = "Some (json_of_CompleteAllocInput \<lparr>cai_PoolID = ''p'', cai_AllocID = ''a''\<rparr>)"
  obtain w' out where run: "CompleteAlloc demo demo_svc ?b alloc_world = (w', Ret out)"
    using demo_complete_run by blast
  have at: "alloc_at demo (demo_view alloc_world) (pool_PoolID demo_pool) ''a'' = Some (marshal_Alloc demo_alloc)"
    by (simp add: mem_run alloc_world_def demo_alloc_def sub_key_def)
  have e: "alloc_Eval demo_alloc = Some \<lparr>Dataset = [], Size = 3, Retry = 1\<rparr>" by (simp add: demo_alloc_def)
  have p: "stored_pool demo (demo_view alloc_world) (cai_PoolID \<lparr>cai_PoolID = ''p'', cai_AllocID = ''a''\<rparr>) = Some demo_pool"
    using alloc_world_pool by simp
  from complete_alloc_result [OF demo.seq_item_backend_axioms run] p alloc_world_pool(2) at e
    CompleteAllocInput_json.Unmarshal_to [of "\<lparr>cai_PoolID = ''p'', cai_AllocID = ''a''\<rparr>"]
  show ?thesis by (auto simp: unmarshal_marshal)
qed

subsection \<open>Routing, names and codecs\<close>

theorem mux_status:
  "Mux conf svc m path b w = (w', Ret resp) \<longleftrightarrow>
     (if m \<notin> set known_methods then w' = w \<and> resp = methodNotAllowed
      else case route conf svc path of
        None \<Rightarrow> w' = w \<and> resp = notFound
      | Some h \<Rightarrow>
          if m \<noteq> ''POST'' then w' = w \<and> resp = methodNotAllowed
          else (\<exists>out. h b w = (w', Ret out) \<and> resp = \<lparr>status = 200, resp_body = Some out\<rparr>) \<or>
            (\<exists>e. h b w = (w', Fail e) \<and> resp = \<lparr>status = 500, resp_body = Some (message_json (Error_text e))\<rparr>))"
  by (auto simp: Mux_def ret_def errh_def on_err_def bnd_def known_methods_def split: option.split prod.splits outcome.splits)

theorem queue_urls_distinct:
  "(FmtWorkerQueueURL conf (hex_EncodeToString p) (hex_EncodeToString k) =
      FmtWorkerQueueURL conf (hex_EncodeToString p') (hex_EncodeToString k') \<longleftrightarrow> p = p' \<and> k = k') \<and>
   FmtWorkerQueueURL conf (hex_EncodeToString p) k \<noteq> FmtPoolQueueURL conf (hex_EncodeToString p')"
proof -
  have "hex_EncodeToString p @ ''-'' @ x \<noteq> hex_EncodeToString p'" for x
    using dash_notin_hex [of p'] by (metis append_Cons in_set_conv_decomp)
  moreover have "hex_EncodeToString p @ ''-'' @ hex_EncodeToString k = hex_EncodeToString p' @ ''-'' @ hex_EncodeToString k' \<Longrightarrow>
      p = p' \<and> k = k'"
    using append_sep_inj [OF dash_notin_hex [of p] dash_notin_hex [of p'], of "hex_EncodeToString k" "hex_EncodeToString k'"]
      hex_inj by auto
  ultimately show ?thesis by (auto simp: naming_defs)
qed

theorem entities_roundtrip:
  "unmarshal_Pool (marshal_Pool pool) = Inr pool \<and> unmarshal_Worker (marshal_Worker worker) = Inr worker \<and>
   unmarshal_Replica (marshal_Replica replica) = Inr replica \<and> unmarshal_Alloc (marshal_Alloc alloc) = Inr alloc"
  by (simp add: unmarshal_marshal)

theorem payloads_roundtrip:
  "json_Unmarshal Eval_of_json (Some (json_of_Eval eval)) = Inr eval \<and>
   json_Unmarshal client_Alloc_of_json (Some (json_of_client_Alloc ca)) = Inr ca \<and>
   json_Unmarshal RegisterWorkerOutput_of_json (Some (json_of_RegisterWorkerOutput rwo)) = Inr rwo \<and>
   json_Unmarshal SendHeartbeatInput_of_json (Some (json_of_SendHeartbeatInput shi)) = Inr shi"
  by (simp add: Unmarshal_json)

end
