(* ===== verification/Ledger.thy ===== *)
theory Ledger
  imports Mux_Proofs
begin

section \<open>The capacity ledger\<close>

text \<open>
  What the capacities and the allocations are for: an abstract ledger with the free capacity of
  every worker and the allocations that hold the rest, its two transitions, and the lemma that the
  program's scheduling of a message and its completion of an allocation implement them. In the
  ledger no transition changes what a worker has in total.
\<close>

subsection \<open>The abstract ledger\<close>

record ledger =
  free :: "string \<times> string \<Rightarrow> int option"
  held :: "string \<times> string \<Rightarrow> (string \<times> int) option"

definition place :: "string \<Rightarrow> string \<Rightarrow> string \<Rightarrow> int \<Rightarrow> ledger \<Rightarrow> ledger option" where
  "place p k a n l = (case free l (p, k) of
     None \<Rightarrow> None
   | Some c \<Rightarrow>
      if n \<le> c \<and> held l (p, a) = None
      then Some \<lparr>free = (free l)((p, k) \<mapsto> c - n), held = (held l)((p, a) \<mapsto> (k, n))\<rparr>
      else None)"

definition give_back :: "string \<Rightarrow> string \<Rightarrow> ledger \<Rightarrow> ledger option" where
  "give_back p a l = (case held l (p, a) of
     None \<Rightarrow> None
   | Some (k, n) \<Rightarrow> (case free l (p, k) of
       None \<Rightarrow> None
     | Some c \<Rightarrow> Some \<lparr>free = (free l)((p, k) \<mapsto> c + n), held = (held l)((p, a) := None)\<rparr>))"

text \<open>What a worker has: its free capacity and the sizes of the allocations it holds.\<close>

definition holds_of :: "ledger \<Rightarrow> string \<Rightarrow> string \<Rightarrow> string set" where
  "holds_of l p k = {a. \<exists>n. held l (p, a) = Some (k, n)}"

definition worker_total :: "ledger \<Rightarrow> string \<Rightarrow> string \<Rightarrow> int" where
  "worker_total l p k = (case free l (p, k) of None \<Rightarrow> 0 | Some c \<Rightarrow> c) +
     (\<Sum>a \<in> holds_of l p k. snd (the (held l (p, a))))"

definition finite_ledger :: "ledger \<Rightarrow> bool" where
  "finite_ledger l \<longleftrightarrow> finite (dom (held l))"

lemma finite_holds: "finite_ledger l \<Longrightarrow> finite (holds_of l p k)"
  by (rule finite_surj [of "dom (held l)" _ snd]) (auto simp: finite_ledger_def holds_of_def image_iff, metis domI snd_conv)

lemma move_total:
  assumes c: "free l (p, k) = Some c" and none: "held l (p, a) = None" and f: "finite_ledger l"
    and l': "l' = \<lparr>free = (free l)((p, k) \<mapsto> c - n), held = (held l)((p, a) \<mapsto> (k, n))\<rparr>"
  shows "worker_total l' p' k' = worker_total l p' k' \<and> finite_ledger l'"
proof -
  show ?thesis
  proof (cases "p' = p \<and> k' = k")
    case True
    have h: "holds_of l' p k = insert a (holds_of l p k)" "a \<notin> holds_of l p k"
      using none by (auto simp: l' holds_of_def)
    have "(\<Sum>x \<in> holds_of l' p k. snd (the (held l' (p, x)))) = n + (\<Sum>x \<in> holds_of l p k. snd (the (held l (p, x))))"
      unfolding h(1) using h(2) finite_holds [OF f] by (simp add: l') (intro sum.cong, auto)
    with True c f show ?thesis by (simp add: worker_total_def l' finite_ledger_def)
  next
    case False
    have "holds_of l' p' k' = holds_of l p' k'"
      using False none by (auto simp: l' holds_of_def)
    moreover have "(\<Sum>x \<in> holds_of l p' k'. snd (the (held l' (p', x)))) = (\<Sum>x \<in> holds_of l p' k'. snd (the (held l (p', x))))"
      using none by (intro sum.cong) (auto simp: l' holds_of_def)
    ultimately show ?thesis using False f by (auto simp: worker_total_def l' finite_ledger_def)
  qed
qed

lemma place_total:
  assumes "place p k a n l = Some l'" and f: "finite_ledger l"
  shows "worker_total l' p' k' = worker_total l p' k' \<and> finite_ledger l'"
proof -
  from assms(1) obtain c where "free l (p, k) = Some c" "held l (p, a) = None"
    "l' = \<lparr>free = (free l)((p, k) \<mapsto> c - n), held = (held l)((p, a) \<mapsto> (k, n))\<rparr>"
    by (auto simp: place_def split: option.splits if_splits)
  from move_total [OF this(1,2) f this(3)] show ?thesis .
qed

lemma give_back_total:
  assumes "give_back p a l = Some l'" and f: "finite_ledger l"
  shows "worker_total l' p' k' = worker_total l p' k' \<and> finite_ledger l'"
proof -
  from assms(1) obtain k n c where h: "held l (p, a) = Some (k, n)" and c: "free l (p, k) = Some c"
    and l': "l' = \<lparr>free = (free l)((p, k) \<mapsto> c + n), held = (held l)((p, a) := None)\<rparr>"
    by (auto simp: give_back_def split: option.splits)
  have f': "finite_ledger l'" using f by (simp add: finite_ledger_def l')
  have s: "free l' (p, k) = Some (c + n)" "held l' (p, a) = None" by (simp_all add: l')
  have "l = \<lparr>free = (free l')((p, k) \<mapsto> (c + n) - n), held = (held l')((p, a) \<mapsto> (k, n))\<rparr>"
    using h c by (simp add: l' fun_upd_idem)
  from move_total [OF s f' this, of p' k'] f' show ?thesis by simp
qed

subsection \<open>The ledger of a store\<close>

definition holding :: "item \<Rightarrow> (string \<times> int) option" where
  "holding it = (case unmarshal_Alloc it of
     Inl _ \<Rightarrow> None
   | Inr alloc \<Rightarrow> map_option (\<lambda>e. (alloc_WorkerID alloc, sint (Size e))) (alloc_Eval alloc))"

definition ledger_of :: "Conf \<Rightarrow> store \<Rightarrow> ledger" where
  "ledger_of conf v =
     \<lparr>free = (\<lambda>(p, k). cap_of conf v p k),
      held = (\<lambda>(p, a). case alloc_at conf v p a of None \<Rightarrow> None | Some it \<Rightarrow> holding it)\<rparr>"

lemma ledger_of_cong: "tables v' = tables v \<Longrightarrow> ledger_of conf v' = ledger_of conf v"
  by (simp add: ledger_of_def cap_of_def)

lemma holding_marshal: "holding (marshal_Alloc a) = map_option (\<lambda>e. (alloc_WorkerID a, sint (Size e))) (alloc_Eval a)"
  by (simp add: holding_def unmarshal_marshal)

lemma place_claimed:
  assumes d: "tables_distinct conf" and c: "claimed conf p k n v v1"
    and a: "alloc_at conf v p (alloc_AllocID alloc) = None"
    and e: "alloc_Eval alloc = Some e" "sint (Size e) = n" "alloc_WorkerID alloc = k"
    and t: "tables v' = tables (set_alloc conf p (alloc_AllocID alloc) (Some (marshal_Alloc alloc)) v1)"
  shows "place p k (alloc_AllocID alloc) n (ledger_of conf v) = Some (ledger_of conf v')"
proof -
  from claimed_cap(1) [OF c] obtain m where m: "cap_of conf v p k = Some m" "n \<le> m" "cap_of conf v1 p k = Some (m - n)"
    by blast
  have cap: "cap_of conf v' p' k' = cap_of conf v1 p' k'" for p' k'
    using tables_neq [OF d] by (simp add: cap_of_def t)
  have free: "cap_of conf v' p' k' = (if p' = p \<and> k' = k then Some (m - n) else cap_of conf v p' k')" for p' k'
    using claimed_cap(2) [OF c, of p' k'] m(3) by (auto simp: cap)
  have at: "alloc_at conf v' p' a' =
      (if p' = p \<and> a' = alloc_AllocID alloc then Some (marshal_Alloc alloc) else alloc_at conf v p' a')" for p' a'
    using claimed_cap(3) [OF c] tables_neq [OF d] by (simp add: t)
  show ?thesis
    using m a e by (auto simp: place_def ledger_of_def free at holding_marshal fun_eq_iff)
qed

lemma give_back_stored:
  assumes d: "tables_distinct conf" and g: "given_back conf alloc n v v'"
    and at: "alloc_at conf v (alloc_PoolID alloc) (alloc_AllocID alloc) = Some it"
    and it: "unmarshal_Alloc it = Inr alloc" and e: "alloc_Eval alloc = Some e" "sint (Size e) = n"
  shows "give_back (alloc_PoolID alloc) (alloc_AllocID alloc) (ledger_of conf v) = Some (ledger_of conf v')"
proof -
  let ?p = "alloc_PoolID alloc" and ?k = "alloc_WorkerID alloc"
  from given_back_cap(1) [OF d g] obtain c where c: "cap_of conf v ?p ?k = Some c" "cap_of conf v' ?p ?k = Some (c + n)"
    by blast
  have free: "cap_of conf v' p' k' = (if p' = ?p \<and> k' = ?k then Some (c + n) else cap_of conf v p' k')" for p' k'
    using g c(2) tables_neq [OF d] by (auto simp: given_back_def cap_of_def)
  have at': "alloc_at conf v' p' a' = (if p' = ?p \<and> a' = alloc_AllocID alloc then None else alloc_at conf v p' a')" for p' a'
    using g tables_neq [OF d] by (auto simp: given_back_def)
  show ?thesis
    using c at it e by (auto simp: give_back_def ledger_of_def holding_def free at' fun_eq_iff)
qed


subsection \<open>The program refines the ledger\<close>

lemma schedule_places:
  assumes b: "seq_backend svc conf view" and run: "schedule_eval conf svc pool h eval w = (w', Ret ())"
  shows "\<exists>p k a. place p k a (sint (Size eval)) (ledger_of conf (view w)) = Some (ledger_of conf (view w'))"
proof -
  have d: "tables_distinct conf" by (rule backend.conf_tables [OF seq_backend.is_backend [OF b]])
  from wp_run [OF seq_backend.wp_schedule_eval [OF b, where Q = "\<lambda>w' r. r = Ret () \<longrightarrow>
      (\<exists>a. scheduled conf pool h eval a (view w) (view w'))"] run]
  obtain alloc where "scheduled conf pool h eval alloc (view w) (view w')" by auto
  then obtain v1 where c: "claimed conf (alloc_PoolID alloc) (alloc_WorkerID alloc) (sint (Size eval)) (view w) v1"
    and t: "tables (view w') = tables (set_alloc conf (alloc_PoolID alloc) (alloc_AllocID alloc) (Some (marshal_Alloc alloc)) v1)"
    and n: "alloc_at conf (view w) (alloc_PoolID alloc) (alloc_AllocID alloc) = None"
    and e: "alloc_Eval alloc = Some (eval\<lparr>Retry := Retry eval + 1\<rparr>)"
    by (auto simp: scheduled_def)
  have "sint (Size (eval\<lparr>Retry := Retry eval + 1\<rparr>)) = sint (Size eval)" by simp
  from place_claimed [OF d c n e this refl t] show ?thesis by blast
qed

lemma stored_alloc_ids:
  assumes "backend svc conf view rely" and "alloc_at conf (view w) p a = Some it" and "unmarshal_Alloc it = Inr alloc"
  shows "alloc_PoolID alloc = p" and "alloc_AllocID alloc = a"
proof -
  have "key_of conf (AllocsTableName conf) it = sub_key p a"
    by (rule backend.stored_by_key [OF assms(1,2)])
  then have "it ''pool'' = Some (enc_string p)" "it ''alloc'' = Some (enc_string a)"
    by (simp_all add: key_of_def key_attrs_tables [OF backend.conf_tables [OF assms(1)]] sub_key_def)
  with assms(3) show "alloc_PoolID alloc = p" "alloc_AllocID alloc = a"
    by (auto simp: unmarshal_defs sbind_Inr_iff)
qed

lemma complete_gives_back:
  assumes b: "seq_item_backend svc conf view" and run: "CompleteAlloc conf svc body w = (w', Ret out)"
  shows "\<exists>p a. give_back p a (ledger_of conf (view w)) = Some (ledger_of conf (view w'))"
proof -
  have bb: "backend svc conf view (=)" by (rule seq_backend.is_backend [OF seq_item_backend.is_seq [OF b]])
  have d: "tables_distinct conf" by (rule backend.conf_tables [OF bb])
  have "wp (CompleteAlloc conf svc body) (\<lambda>w' r. \<forall>out. r = Ret out \<longrightarrow>
      (\<exists>p a. give_back p a (ledger_of conf (view w)) = Some (ledger_of conf (view w')))) w"
  proof (rule seq_item_backend.wp_CompleteAlloc [OF b], goal_cases)
    case (3 w2 w1 input pool it alloc r r')
    show ?case
    proof (intro allI impI)
      fix out
      assume "r = Ret out"
      with 3(8) have "r' = Ret ()" by (cases r') auto
      with 3(7) have "releaseAlloc conf svc alloc w1 = (w2, Ret ())" by simp
      from releaseAlloc_result [OF seq_item_backend.is_seq [OF b] this] 3(6) obtain e where e: "alloc_Eval alloc = Some e"
        and g: "given_back conf alloc (sint (Size e)) (view w) (view w2)"
        by (auto split: option.splits)
      note ids = stored_alloc_ids [OF bb 3(4,5)]
      from give_back_stored [OF d g 3(4) [folded ids] 3(5) e refl]
      show "\<exists>p a. give_back p a (ledger_of conf (view w)) = Some (ledger_of conf (view w2))" by blast
    qed
  qed simp_all
  from wp_run [OF this run] show ?thesis by simp
qed

inductive work_step :: "Conf \<Rightarrow> 'w services \<Rightarrow> 'w \<Rightarrow> 'w \<Rightarrow> bool" for conf :: Conf and svc :: "'w services" where
  scheduled_one: "schedule_eval conf svc pool h eval w = (w', Ret ()) \<Longrightarrow> work_step conf svc w w'"
| completed_one: "CompleteAlloc conf svc b w = (w', Ret out) \<Longrightarrow> work_step conf svc w w'"

lemma work_step_total:
  assumes "seq_item_backend svc conf view" and "work_step conf svc w w'" and "finite_ledger (ledger_of conf (view w))"
  shows "worker_total (ledger_of conf (view w')) p k = worker_total (ledger_of conf (view w)) p k \<and>
     finite_ledger (ledger_of conf (view w'))"
  using assms(2)
proof cases
  case (scheduled_one pool h eval)
  from schedule_places [OF seq_item_backend.is_seq [OF assms(1)] this] place_total [OF _ assms(3)] show ?thesis by blast
next
  case (completed_one b out)
  from complete_gives_back [OF assms(1) this] give_back_total [OF _ assms(3)] show ?thesis by blast
qed

lemma work_steps_total:
  assumes b: "seq_item_backend svc conf view" and "(work_step conf svc)\<^sup>*\<^sup>* w w'" and f: "finite_ledger (ledger_of conf (view w))"
  shows "worker_total (ledger_of conf (view w')) p k = worker_total (ledger_of conf (view w)) p k \<and>
     finite_ledger (ledger_of conf (view w'))"
  using assms(2)
proof (induction rule: rtranclp_induct)
    case base
    with f show ?case by simp
  next
    case (step w1 w2)
    with work_step_total [OF b step(2)] show ?case by simp
  qed

end
