(* ===== verification/Go_Net.thy ===== *)
theory Go_Net
  imports Go_Strings Mux_Handlers "HOL-Library.AList"
begin

section \<open>Paths, query values, headers and the interface of the network libraries\<close>

text \<open>
  What the client and the gateway adapter use of \<open>path\<close>, \<open>net/url\<close> and \<open>net/http\<close>: joining paths
  and the maps of query values and headers are functions; the parsing and printing of urls and
  the construction of a request are the record \<open>net\<close>, a parameter of what uses it; \<open>Go_URL\<close> is its
  instance.
\<close>

subsection \<open>Joining paths (\<open>path.Clean\<close>, \<open>path.Join\<close>)\<close>

text \<open>
  The components of a path, taken from left to right; the components kept so far are in \<open>out\<close>,
  the last one first.
\<close>

fun clean_comps :: "bool \<Rightarrow> string list \<Rightarrow> string list \<Rightarrow> string list" where
  "clean_comps rooted out [] = rev out"
| "clean_comps rooted out (c # cs) =
     (if c = [] \<or> c = ''.'' then clean_comps rooted out cs
      else if c = ''..'' then (case out of
          [] \<Rightarrow> clean_comps rooted (if rooted then [] else [c]) cs
        | d # ds \<Rightarrow> clean_comps rooted (if d = ''..'' then c # out else ds) cs)
      else clean_comps rooted (c # out) cs)"

definition path_Clean :: "string \<Rightarrow> string" where
  "path_Clean s =
     (let rooted = HasPrefix s ''/''; r = Join (CHR ''/'') (clean_comps rooted [] (Split (CHR ''/'') s))
      in if rooted then CHR ''/'' # r else if r = [] then ''.'' else r)"

definition path_Join :: "string list \<Rightarrow> string" where
  "path_Join elems = (case dropWhile (\<lambda>e. e = []) elems of
     [] \<Rightarrow> [] | es \<Rightarrow> path_Clean (Join (CHR ''/'') es))"

text \<open>A component that cleaning keeps.\<close>

definition plain_comp :: "string \<Rightarrow> bool" where
  "plain_comp c \<longleftrightarrow> c \<noteq> [] \<and> c \<noteq> ''.'' \<and> c \<noteq> ''..'' \<and> CHR ''/'' \<notin> set c"

lemma clean_comps_plain: "\<forall>c \<in> set cs. plain_comp c \<Longrightarrow> clean_comps rooted out cs = rev out @ cs"
  by (induction cs arbitrary: out) (auto simp: plain_comp_def)

lemma Join_slash_plain:
  "\<forall>c \<in> set cs. plain_comp c \<Longrightarrow> cs \<noteq> [] \<Longrightarrow> Split (CHR ''/'') (Join (CHR ''/'') cs) = cs"
  by (rule Split_Join) (auto simp: plain_comp_def)

text \<open>Joining a name to an absolute path of plain components appends it.\<close>

lemma path_Join_base:
  assumes "\<forall>c \<in> set cs. plain_comp c" and "plain_comp name"
  shows "path_Join [CHR ''/'' # Join (CHR ''/'') cs, name] = CHR ''/'' # Join (CHR ''/'') (cs @ [name])"
proof (cases "cs = []")
  case True
  have "Split (CHR ''/'') name = [name]" using assms(2) by (intro Split_no_sep) (simp add: plain_comp_def)
  with True assms(2) show ?thesis
    by (simp add: path_Join_def path_Clean_def HasPrefix_def Let_def plain_comp_def)
next
  case False
  have "Join (CHR ''/'') [CHR ''/'' # Join (CHR ''/'') cs, name] = CHR ''/'' # Join (CHR ''/'') (cs @ [name])"
    using False by (induction cs rule: list_nonempty_induct) (simp_all add: Join_Cons)
  moreover have "clean_comps True [] (cs @ [name]) = cs @ [name]"
    using assms by (subst clean_comps_plain) auto
  moreover have "Split (CHR ''/'') (Join (CHR ''/'') (cs @ [name])) = cs @ [name]"
    using assms by (intro Join_slash_plain) auto
  ultimately show ?thesis
    by (simp add: path_Join_def path_Clean_def HasPrefix_def Let_def)
qed

lemma path_Join_nothing: "plain_comp name \<Longrightarrow> path_Join [[], name] = name"
  by (cases name)
     (auto simp: path_Join_def path_Clean_def HasPrefix_def Let_def plain_comp_def Split_no_sep)

subsection \<open>Query values and headers\<close>

text \<open>
  \<open>url.Values\<close> and \<open>http.Header\<close>: several values for a key, in order. The keys are distinct, their
  order means nothing.
\<close>

type_synonym vals = "(string \<times> string list) list"

definition Set_val :: "string \<Rightarrow> string \<Rightarrow> vals \<Rightarrow> vals" where
  "Set_val k v q = AList.update k [v] q"

text \<open>\<open>h[k] = append(h[k], v)\<close>\<close>

definition append_val :: "string \<Rightarrow> string \<Rightarrow> vals \<Rightarrow> vals" where
  "append_val k v h = AList.update k (case map_of h k of None \<Rightarrow> [v] | Some vs \<Rightarrow> vs @ [v]) h"

text \<open>
  \<open>CanonicalMIMEHeaderKey\<close>: the first letter and each letter after a hyphen in upper case, the
  others in lower case, if every byte may occur in a header name.
\<close>

definition upper_char :: "char \<Rightarrow> char" where
  "upper_char c = (let n = (of_char c :: nat) in if 97 \<le> n \<and> n \<le> 122 then char_of (n - 32) else c)"

fun canonical_from :: "bool \<Rightarrow> string \<Rightarrow> string" where
  "canonical_from up [] = []"
| "canonical_from up (c # cs) =
     (if up then upper_char c else lower_char c) # canonical_from (c = CHR ''-'') cs"

definition is_alnum :: "char \<Rightarrow> bool" where
  "is_alnum c = (let n = (of_char c :: nat) in
     48 \<le> n \<and> n \<le> 57 \<or> 65 \<le> n \<and> n \<le> 90 \<or> 97 \<le> n \<and> n \<le> 122)"

definition header_char :: "char \<Rightarrow> bool" where
  "header_char c \<longleftrightarrow> is_alnum c \<or> c \<in> set ''!#$%&*+-.^_`|~'' \<or> c = CHR 0x27"

definition CanonicalHeaderKey :: "string \<Rightarrow> string" where
  "CanonicalHeaderKey k = (if list_all header_char k then canonical_from True k else k)"

definition Add_header :: "string \<Rightarrow> string \<Rightarrow> vals \<Rightarrow> vals" where
  "Add_header k v h = append_val (CanonicalHeaderKey k) v h"

subsection \<open>The network libraries\<close>

text \<open>
  A url is its path and query, which the program reads and sets, and the rest of it. \<open>net_Parse\<close> is
  \<open>url.Parse\<close>, \<open>net_Query\<close> and \<open>net_Encode\<close> are \<open>URL.Query\<close> and \<open>Values.Encode\<close>, \<open>net_String\<close> is
  \<open>URL.String\<close>, \<open>net_NewRequest\<close> the checks of \<open>http.NewRequest\<close> on a method and a url text with
  the url it parses. \<open>net_RoutePath\<close> is the path a server's router sees for a url.
\<close>

record 'u url =
  url_Path :: string
  url_RawQuery :: string
  url_rest :: 'u

record 'u request =
  req_Method :: string
  req_URL :: "'u url"
  req_Header :: vals

record 'u net =
  net_Parse :: "string \<Rightarrow> goerr + 'u url"
  net_Query :: "'u url \<Rightarrow> vals"
  net_Encode :: "vals \<Rightarrow> string"
  net_String :: "'u url \<Rightarrow> string"
  net_NewRequest :: "string \<Rightarrow> string \<Rightarrow> goerr + 'u request"
  net_RoutePath :: "'u url \<Rightarrow> string"

end
