(* ===== verification/Gateway.thy ===== *)
theory Gateway
  imports Go_Net Payloads
begin

section \<open>The API gateway adapter (\<open>line/handle_gateway.go\<close>)\<close>

text \<open>
  \<open>HandleGateway\<close> turns the event of an Amazon API Gateway into a request for the router and the
  buffered response into the answer to the gateway. Go's \<open>map[string]string\<close> is an association
  list with distinct keys, in the order of its iteration.
\<close>

subsection \<open>The event\<close>

record GatewayRequest =
  HTTPMethod :: string
  gw_Headers :: "(string \<times> string) list"
  Resource :: string
  PathParameters :: "(string \<times> string) list"
  gw_Path :: string
  QueryStringParameters :: "(string \<times> string) list"
  gw_Body :: string
  IsBase64Encoded :: bool
  StageVariables :: "(string \<times> string) list"

fun json_bool :: "json \<Rightarrow> bool \<Rightarrow> goerr + bool" where
  "json_bool (JBool b) old = Inr b"
| "json_bool JNull old = Inr old"
| "json_bool _ old = Inl JSONTypeError"

definition GatewayRequest_of_json :: "json \<Rightarrow> goerr + GatewayRequest" where
  "GatewayRequest_of_json = decode_struct
     [''HTTPMethod'', ''Headers'', ''Resource'', ''PathParameters'', ''Path'', ''QueryStringParameters'',
      ''Body'', ''IsBase64Encoded'', ''StageVariables'']
     (\<lambda>f j x.
        if f = ''HTTPMethod'' then sbind (json_string j (HTTPMethod x)) (\<lambda>s. Inr (x\<lparr>HTTPMethod := s\<rparr>))
        else if f = ''Headers'' then sbind (json_map j (gw_Headers x)) (\<lambda>m. Inr (x\<lparr>gw_Headers := m\<rparr>))
        else if f = ''Resource'' then sbind (json_string j (Resource x)) (\<lambda>s. Inr (x\<lparr>Resource := s\<rparr>))
        else if f = ''PathParameters'' then sbind (json_map j (PathParameters x)) (\<lambda>m. Inr (x\<lparr>PathParameters := m\<rparr>))
        else if f = ''Path'' then sbind (json_string j (gw_Path x)) (\<lambda>s. Inr (x\<lparr>gw_Path := s\<rparr>))
        else if f = ''QueryStringParameters''
        then sbind (json_map j (QueryStringParameters x)) (\<lambda>m. Inr (x\<lparr>QueryStringParameters := m\<rparr>))
        else if f = ''Body'' then sbind (json_string j (gw_Body x)) (\<lambda>s. Inr (x\<lparr>gw_Body := s\<rparr>))
        else if f = ''IsBase64Encoded'' then sbind (json_bool j (IsBase64Encoded x)) (\<lambda>b. Inr (x\<lparr>IsBase64Encoded := b\<rparr>))
        else sbind (json_map j (StageVariables x)) (\<lambda>m. Inr (x\<lparr>StageVariables := m\<rparr>)))
     \<lparr>HTTPMethod = [], gw_Headers = [], Resource = [], PathParameters = [], gw_Path = [],
      QueryStringParameters = [], gw_Body = [], IsBase64Encoded = False, StageVariables = []\<rparr>"

subsection \<open>Stripping the base path\<close>

definition strip_base :: "int64 \<Rightarrow> string \<Rightarrow> string" where
  "strip_base n path =
     (if sint n > 0
      then let comps = SplitN (CHR ''/'') (n + 1) (TrimLeft (CHR ''/'') path)
           in if int (length comps) \<ge> sint n then CHR ''/'' # Join (CHR ''/'') (drop (nat (sint n)) comps)
              else ''/''
      else path)"

subsection \<open>The request and the response\<close>

definition set_params :: "(string \<times> string) list \<Rightarrow> vals \<Rightarrow> vals" where
  "set_params params q = foldl (\<lambda>q (k, v). Set_val k v q) q params"

definition add_headers :: "(string \<times> string) list \<Rightarrow> vals \<Rightarrow> vals" where
  "add_headers hs h =
     foldl (\<lambda>h (k, val). foldl (\<lambda>h v. Add_header k (TrimSpace v) h) h (Split (CHR '','') val)) h hs"

record bufferedResponse =
  br_statusCode :: nat
  br_header :: vals
  br_Buffer :: string

record GatewayResponse =
  gr_StatusCode :: nat
  gr_Body :: string
  gr_Headers :: "string \<rightharpoonup> string"

text \<open>
  The router writes to the buffered response: it sets no header, its status replaces the one the
  writer starts with, and its text is added to the buffer.
\<close>

definition serve :: "('w, text_response) prog \<Rightarrow> bufferedResponse \<Rightarrow> ('w, bufferedResponse) prog" where
  "serve mux br = bnd mux (\<lambda>r. ret (br\<lparr>br_statusCode := tr_status r, br_Buffer := br_Buffer br @ tr_text r\<rparr>))"

definition gateway_response :: "bufferedResponse \<Rightarrow> GatewayResponse" where
  "gateway_response br =
     \<lparr>gr_StatusCode = br_statusCode br, gr_Body = br_Buffer br,
      gr_Headers = (\<lambda>k. map_option (Join (CHR '','')) (map_of (br_header br) k))\<rparr>"

definition HandleGateway :: "'u net \<Rightarrow> Conf \<Rightarrow> 'w services \<Rightarrow> json \<Rightarrow> ('w, GatewayResponse) prog" where
  "HandleGateway net conf svc ev =
     bnd (wrapping ''failed to decode gateway request'' (of_sum (GatewayRequest_of_json ev))) (\<lambda>req.
     bnd (wrapping ''failed to parse request path'' (of_sum (net_Parse net (gw_Path req)))) (\<lambda>parsed.
     let loc = parsed\<lparr>url_Path := strip_base (StripBaseMappings conf) (url_Path parsed)\<rparr>;
         q = set_params (QueryStringParameters req) (net_Query net loc);
         loc = loc\<lparr>url_RawQuery := net_Encode net q\<rparr> in
     bnd (wrapping ''failed to create HTTP request''
            (of_sum (net_NewRequest net (HTTPMethod req) (net_String net loc)))) (\<lambda>r.
     let r = r\<lparr>req_Header := add_headers (gw_Headers req) (req_Header r)\<rparr>;
         w = \<lparr>br_statusCode = 200, br_header = [], br_Buffer = []\<rparr> in
     bnd (serve (Mux_text conf svc (req_Method r) (net_RoutePath net (req_URL r)) (gw_Body req)) w) (\<lambda>w.
     ret (gateway_response w)))))"

subsection \<open>The base path in closed form\<close>

text \<open>
  A limited split followed by dropping and joining is dropping components of the full split: the
  limit only saves work.
\<close>

lemma Join_drop_split_upto:
  "Join c (drop n (split_upto c (Suc n) s)) = Join c (drop n (Split c s))"
  by (simp add: split_upto_Split)

lemma length_split_upto_Suc: "length (split_upto c (Suc n) s) = min (length (Split c s)) (Suc n)"
  by (simp add: split_upto_Split)

lemma sint_Suc64: "sint n < 2 ^ 63 - 1 \<Longrightarrow> sint (n + 1 :: int64) = sint n + 1"
  using in_int64_sint [of n] sint_word_of_int64 [of "sint n + 1"]
  by (simp add: in_int64_def)

lemma strip_base_eq:
  assumes "sint n > 0" and "sint n < 2 ^ 63 - 1"
  shows "strip_base n path =
    CHR ''/'' # Join (CHR ''/'') (drop (nat (sint n)) (Split (CHR ''/'') (TrimLeft (CHR ''/'') path)))"
proof -
  define k where "k = nat (sint n)"
  have k: "nat (sint n + 1) = Suc k" "sint n = int k" using assms by (simp_all add: k_def)
  define comps where "comps = Split (CHR ''/'') (TrimLeft (CHR ''/'') path)"
  have "SplitN (CHR ''/'') (n + 1) s = split_upto (CHR ''/'') (Suc k) s" for s
    using assms k(1) by (simp add: SplitN_def sint_Suc64 del: split_upto.simps)
  then have "strip_base n path =
      (if k \<le> length comps then CHR ''/'' # Join (CHR ''/'') (drop k comps) else ''/'')"
    using assms
    by (simp add: strip_base_def Let_def k(2) Join_drop_split_upto length_split_upto_Suc comps_def
        del: split_upto.simps)
  then show ?thesis by (simp add: comps_def k_def)
qed

text \<open>A path of plain components loses exactly its first components.\<close>

lemma strip_base_plain:
  assumes "\<forall>c \<in> set (cs @ ds). plain_comp c" and "length cs = nat (sint n)" and "sint n > 0" and "sint n < 2 ^ 63 - 1"
  shows "strip_base n (CHR ''/'' # Join (CHR ''/'') (cs @ ds)) = CHR ''/'' # Join (CHR ''/'') ds"
proof -
  have ne: "cs @ ds \<noteq> []" using assms(2,3) by auto
  then obtain x xs where x: "cs @ ds = x # xs" by (cases "cs @ ds") auto
  then obtain y ys where "x = y # ys" and "y \<noteq> CHR ''/''"
    using assms(1) by (cases x) (auto simp: plain_comp_def)
  then have "TrimLeft (CHR ''/'') (CHR ''/'' # Join (CHR ''/'') (cs @ ds)) = Join (CHR ''/'') (cs @ ds)"
    by (cases xs) (simp_all add: x TrimLeft_def)
  with assms ne show ?thesis
    by (simp add: strip_base_eq Join_slash_plain)
qed

end
