(* ===== verification/Lambda.thy ===== *)
theory Lambda
  imports Gateway Release Schedule
begin

section \<open>The entry point of the Lambda functions (\<open>handler.go\<close>, \<open>line/line.go\<close>)\<close>

text \<open>
  One binary serves three Lambda functions: \<open>Handle\<close> picks the handler whose regular expression
  matches the ARN of the invoked function. The expressions are anchored suffixes, kept as the
  suffix before the dollar sign. The configuration is the one read from the environment.
\<close>

text \<open>An invocation returns a value or an error, or it blocks after starting receive loops.\<close>

datatype lambda_value = Event json | Gateway_answer GatewayResponse

datatype lambda_end = Returned "lambda_value outcome" | Blocked "Pool list"

type_synonym 'w handler = "json \<Rightarrow> 'w \<Rightarrow> ('w \<times> lambda_end) option"

fun map_outcome :: "('a \<Rightarrow> 'b) \<Rightarrow> 'a outcome \<Rightarrow> 'b outcome" where
  "map_outcome f (Ret x) = Ret (f x)"
| "map_outcome f (Fail e) = Fail e"
| "map_outcome f Panic = Panic"

definition schedule_handler :: "Conf \<Rightarrow> 'w services \<Rightarrow> 'w handler" where
  "schedule_handler conf svc ev w = map_option (\<lambda>(w', started, err). (w', case err of
     Returns e \<Rightarrow> Returned (Fail e) | BlocksForever \<Rightarrow> Blocked started)) (HandleSchedule conf svc w)"

definition release_handler :: "Conf \<Rightarrow> 'w services \<Rightarrow> 'w handler" where
  "release_handler conf svc ev w =
     map_option (\<lambda>(w', r). (w', Returned (map_outcome Event r))) (HandleRelease conf svc ev w)"

definition gateway_handler :: "'u net \<Rightarrow> Conf \<Rightarrow> 'w services \<Rightarrow> 'w handler" where
  "gateway_handler net conf svc ev w =
     (case HandleGateway net conf svc ev w of (w', r) \<Rightarrow> Some (w', Returned (map_outcome Gateway_answer r)))"

definition Handlers :: "'u net \<Rightarrow> Conf \<Rightarrow> 'w services \<Rightarrow> (string \<times> 'w handler) list" where
  "Handlers net conf svc =
     [(''-schedule'', schedule_handler conf svc),
      (''-release'', release_handler conf svc),
      (''-gateway'', gateway_handler net conf svc)]"

text \<open>
  \<open>Handle\<close>, with the order in which the run happens to iterate the map of handlers as an argument.
\<close>

fun join_comma :: "string list \<Rightarrow> string" where
  "join_comma [] = []"
| "join_comma [x] = x"
| "join_comma (x # xs) = x @ '', '' @ join_comma xs"

definition no_handler :: "string list \<Rightarrow> string \<Rightarrow> goerr" where
  "no_handler tested arn = Errorf (''none of the tested handlers ('' @ join_comma (map (\<lambda>s. s @ ''$'') tested) @
     '') matched ARN '' @ CHR 0x27 # arn @ [CHR 0x27])"

definition Handle :: "(string \<times> 'w handler) list \<Rightarrow> json \<Rightarrow> string \<Rightarrow> 'w \<Rightarrow> ('w \<times> lambda_end) option" where
  "Handle iteration ev arn w = (case find (\<lambda>(suffix, h). HasSuffix arn suffix) iteration of
     Some (suffix, h) \<Rightarrow> h ev w
   | None \<Rightarrow> Some (w, Returned (Fail (no_handler (map fst iteration) arn))))"

subsection \<open>At most one handler matches\<close>

lemma HasSuffix_append_right: "length b \<le> length a \<Longrightarrow> HasSuffix (p @ a) b \<longleftrightarrow> HasSuffix a b"
  by (auto simp: HasSuffix_def)

lemma HasSuffix_shorter:
  assumes "HasSuffix s a" and "HasSuffix s b" and "length a \<le> length b"
  shows "HasSuffix b a"
proof -
  obtain r where "s = r @ b" using assms(2) by (auto simp: HasSuffix_iff)
  with assms show ?thesis by (simp add: HasSuffix_append_right)
qed

lemma find_unique:
  assumes "x \<in> set xs" and "P x" and "\<And>y. y \<in> set xs \<Longrightarrow> P y \<Longrightarrow> y = x"
  shows "find P xs = Some x"
proof -
  obtain y where y: "find P xs = Some y"
    using assms(1,2) by (cases "find P xs") (auto simp: find_None_iff)
  then have "y \<in> set xs" "P y" by (auto simp: find_Some_iff)
  with assms(3) y show ?thesis by blast
qed

definition handler_suffixes :: "string list" where
  "handler_suffixes = [''-schedule'', ''-release'', ''-gateway'']"

lemma suffixes_disjoint:
  "list_all (\<lambda>a. list_all (\<lambda>b. HasSuffix a b \<longrightarrow> a = b) handler_suffixes) handler_suffixes"
  by code_simp

lemma suffixes_distinct: "distinct handler_suffixes"
  by code_simp

lemma map_fst_Handlers: "map fst (Handlers net conf svc) = handler_suffixes"
  by (simp only: Handlers_def handler_suffixes_def list.map fst_conv)

lemma Handlers_suffix: "(a, h) \<in> set (Handlers net conf svc) \<Longrightarrow> a \<in> set handler_suffixes"
  by (metis fst_conv imageI list.set_map map_fst_Handlers)

lemma Handlers_disjoint:
  assumes a: "(a, h) \<in> set (Handlers net conf svc)" and b: "(b, k) \<in> set (Handlers net conf svc)"
    and "HasSuffix arn a" and "HasSuffix arn b"
  shows "(a, h) = (b, k)"
proof -
  note mem = Handlers_suffix [OF a] Handlers_suffix [OF b]
  have "HasSuffix a b \<or> HasSuffix b a"
    using HasSuffix_shorter assms(3,4) nat_le_linear by blast
  with mem suffixes_disjoint have "a = b" unfolding list_all_iff by blast
  moreover have "distinct (map fst (Handlers net conf svc))"
    unfolding map_fst_Handlers by (rule suffixes_distinct)
  ultimately show ?thesis using a b eq_key_imp_eq_value by fast
qed

lemma Handle_matches:
  assumes "set iteration = set (Handlers net conf svc)" and "(a, h) \<in> set (Handlers net conf svc)"
    and "HasSuffix arn a"
  shows "Handle iteration ev arn w = h ev w"
proof -
  have "find (\<lambda>(suffix, h). HasSuffix arn suffix) iteration = Some (a, h)"
  proof (rule find_unique)
    fix y
    assume y: "y \<in> set iteration" "case y of (suffix, h) \<Rightarrow> HasSuffix arn suffix"
    obtain b k where b: "y = (b, k)" by (cases y)
    with y have "(b, k) \<in> set (Handlers net conf svc)" "HasSuffix arn b"
      unfolding assms(1) by simp_all
    then show "y = (a, h)"
      unfolding b by (rule Handlers_disjoint [OF _ assms(2) _ assms(3)])
  next
    show "(a, h) \<in> set iteration" unfolding assms(1) by (rule assms(2))
  next
    show "case (a, h) of (suffix, h) \<Rightarrow> HasSuffix arn suffix" using assms(3) by simp
  qed
  then show ?thesis by (simp add: Handle_def)
qed

lemma Handle_none:
  assumes "\<forall>(a, h) \<in> set iteration. \<not> HasSuffix arn a"
  shows "Handle iteration ev arn w = Some (w, Returned (Fail (no_handler (map fst iteration) arn)))"
proof -
  have "find (\<lambda>(suffix, h). HasSuffix arn suffix) iteration = None"
    using assms by (auto simp: find_None_iff)
  then show ?thesis by (simp add: Handle_def)
qed

lemma Handle_dispatches:
  assumes it: "set iteration = set (Handlers net conf svc)"
  shows "Handle iteration ev (p @ ''-schedule'') w = schedule_handler conf svc ev w"
    and "Handle iteration ev (p @ ''-release'') w = release_handler conf svc ev w"
    and "Handle iteration ev (p @ ''-gateway'') w = gateway_handler net conf svc ev w"
    and "\<forall>a \<in> set handler_suffixes. \<not> HasSuffix arn a \<Longrightarrow>
       Handle iteration ev arn w = Some (w, Returned (Fail (no_handler (map fst iteration) arn)))"
proof -
  have suf: "HasSuffix (p @ a) a" for a by (auto simp: HasSuffix_iff)
  have mem: "(''-schedule'', schedule_handler conf svc) \<in> set (Handlers net conf svc)"
    "(''-release'', release_handler conf svc) \<in> set (Handlers net conf svc)"
    "(''-gateway'', gateway_handler net conf svc) \<in> set (Handlers net conf svc)"
    unfolding Handlers_def by (simp_all only: list.set insert_iff simp_thms)
  show "Handle iteration ev (p @ ''-schedule'') w = schedule_handler conf svc ev w"
    by (rule Handle_matches [OF it mem(1) suf])
  show "Handle iteration ev (p @ ''-release'') w = release_handler conf svc ev w"
    by (rule Handle_matches [OF it mem(2) suf])
  show "Handle iteration ev (p @ ''-gateway'') w = gateway_handler net conf svc ev w"
    by (rule Handle_matches [OF it mem(3) suf])
  assume "\<forall>a \<in> set handler_suffixes. \<not> HasSuffix arn a"
  then have "\<forall>(a, h) \<in> set iteration. \<not> HasSuffix arn a"
    unfolding it using Handlers_suffix by blast
  then show "Handle iteration ev arn w = Some (w, Returned (Fail (no_handler (map fst iteration) arn)))"
    by (rule Handle_none)
qed

text \<open>Whatever the order of the iteration, the suffix of the ARN alone decides.\<close>

lemma Handle_by_suffix:
  assumes it: "set iteration = set (Handlers net conf svc)"
  shows "Handle iteration ev arn w =
    (if HasSuffix arn ''-schedule'' then schedule_handler conf svc ev w
     else if HasSuffix arn ''-release'' then release_handler conf svc ev w
     else if HasSuffix arn ''-gateway'' then gateway_handler net conf svc ev w
     else Some (w, Returned (Fail (no_handler (map fst iteration) arn))))"
proof -
  have "Handle iteration ev arn w = Some (w, Returned (Fail (no_handler (map fst iteration) arn)))"
    if "\<not> HasSuffix arn ''-schedule''" "\<not> HasSuffix arn ''-release''" "\<not> HasSuffix arn ''-gateway''"
    using Handle_dispatches(4) [OF it] that by (simp add: handler_suffixes_def)
  then show ?thesis
    by (auto simp: HasSuffix_iff Handle_dispatches(1-3) [OF it] simp del: append.simps append_Cons)
qed

end
