(* ===== verification/Preserve.thy ===== *)
theory Preserve
  imports Mux_Proofs Lambda
begin

section \<open>What every operation keeps\<close>

text \<open>
  The steps of the whole system: requests to the router, invocations of the Lambda functions, and
  rounds of the receive loops that they start. Their effects on the tables are few. The locale
  \<open>effect_invariant\<close> lists them as laws of a property \<open>J\<close> of the store, and \<open>kept\<close> derives from the
  laws that every operation, handler and step keeps \<open>J\<close>, however the other actors interleave.
\<close>

subsection \<open>Steps of the system\<close>

text \<open>A registration whose capacity is not negative (the code does not check it), and an event that
  carries no other.\<close>

definition good_body :: "body \<Rightarrow> bool" where
  "good_body b \<longleftrightarrow> (\<forall>input. json_Unmarshal RegisterWorkerInput_of_json b = Inr input \<longrightarrow> 0 \<le> sint (rwi_Capacity input))"

definition good_event :: "json \<Rightarrow> bool" where
  "good_event ev \<longleftrightarrow> (\<forall>rq. GatewayRequest_of_json ev = Inr rq \<longrightarrow> good_body (json_Decode (gw_Body rq)))"

inductive sys_step :: "'u net \<Rightarrow> Conf \<Rightarrow> 'w services \<Rightarrow> 'w \<Rightarrow> 'w \<Rightarrow> bool"
  for net :: "'u net" and conf :: Conf and svc :: "'w services" where
  request: "Mux conf svc m path b w = (w', r) \<Longrightarrow> (path = ''/RegisterWorker'' \<longrightarrow> good_body b) \<Longrightarrow>
     sys_step net conf svc w w'"
| round: "ReceiveEvals_round conf svc pool w = (w', r) \<Longrightarrow> sys_step net conf svc w w'"
| invoke: "mset iteration = mset (Handlers net conf svc) \<Longrightarrow> good_event ev \<Longrightarrow>
     Handle iteration ev arn w = Some (w', e) \<Longrightarrow> sys_step net conf svc w w'"

inductive_cases sys_stepE: "sys_step net conf svc w w'"

lemma Handle_result:
  assumes "mset iteration = mset (Handlers net conf svc)" and "Handle iteration ev arn w = Some (w', e)"
  obtains (none) x where "w' = w" and "e = Returned (Fail x)"
    | (schedule) started x where "HandleSchedule conf svc w = Some (w', started, x)"
        and "e = (case x of Returns err \<Rightarrow> Returned (Fail err) | BlocksForever \<Rightarrow> Blocked started)"
    | (release) r where "HandleRelease conf svc ev w = Some (w', r)" and "e = Returned (map_outcome Event r)"
    | (gateway) r where "HandleGateway net conf svc ev w = (w', r)" and "e = Returned (map_outcome Gateway_answer r)"
proof (cases "find (\<lambda>(suffix, h). HasSuffix arn suffix) iteration")
  case None
  with assms(2) have "w' = w" "e = Returned (Fail (no_handler (map fst iteration) arn))" by (simp_all add: Handle_def)
  then show ?thesis by (rule none)
next
  case (Some ah)
  obtain a h where ah: "ah = (a, h)" by fastforce
  with Some have "(a, h) \<in> set iteration" by (auto simp: find_Some_iff in_set_conv_nth)
  then have "(a, h) \<in> set (Handlers net conf svc)" using mset_eq_setD [OF assms(1)] by blast
  then have "h \<in> {schedule_handler conf svc, release_handler conf svc, gateway_handler net conf svc}"
    unfolding Handlers_def by auto
  moreover have "h ev w = Some (w', e)" using assms(2) Some ah by (simp add: Handle_def)
  ultimately show ?thesis
    using schedule release gateway
    by (auto simp: schedule_handler_def release_handler_def gateway_handler_def split: prod.splits)
qed

subsection \<open>The effects on the tables\<close>

text \<open>
  \<open>capok\<close> says which capacities and sizes may enter the store; \<open>frame\<close> that queues do not matter.
\<close>

locale effect_invariant =
  fixes conf :: Conf
    and J :: "store \<Rightarrow> bool"
    and capok :: "int64 \<Rightarrow> bool"
  assumes distinct_tables: "tables_distinct conf"
    and capok_nonneg: "0 \<le> sint i \<Longrightarrow> capok i"
    and frame: "J v \<Longrightarrow> tables v' = tables v \<Longrightarrow> J v'"
    and new_pool: "J v \<Longrightarrow> J (set_pool conf (pool_PoolID pl) (Some (marshal_Pool pl)) v)"
    and pool_ttl: "J v \<Longrightarrow> pool_at conf v p = Some it \<Longrightarrow>
      J (set_pool conf p (Some (it(''ttl'' \<mapsto> enc_int64 t))) v)"
    and new_worker: "J v \<Longrightarrow> capok (wrk_Capacity wk) \<Longrightarrow>
      J (set_worker conf (wrk_PoolID wk) (wrk_WorkerID wk) (Some (marshal_Worker wk)) v)"
    and worker_ttl: "J v \<Longrightarrow> worker_at conf v p k = Some it \<Longrightarrow>
      J (set_worker conf p k (Some (it(''ttl'' \<mapsto> enc_int64 t))) v)"
    and no_worker: "J v \<Longrightarrow> J (set_worker conf p k None v)"
    and claim: "J v \<Longrightarrow> claimed conf p k m v v' \<Longrightarrow> J v'"
    and give: "J v \<Longrightarrow> worker_at conf v p k = Some it \<Longrightarrow> it ''cap'' = Some (AN c) \<Longrightarrow> capok n \<Longrightarrow>
      J (set_worker conf p k (Some (it(''cap'' \<mapsto> AN (c + sint n)))) v)"
    and new_replica: "J v \<Longrightarrow> J (set_replica conf (rpl_PoolID r) (rpl_ReplicaID r) (Some (marshal_Replica r)) v)"
    and no_replica: "J v \<Longrightarrow> J (set_replica conf p rid None v)"
    and new_alloc: "J v \<Longrightarrow> alloc_Eval a = Some e \<Longrightarrow> capok (Size e) \<Longrightarrow>
      J (set_alloc conf (alloc_PoolID a) (alloc_AllocID a) (Some (marshal_Alloc a)) v)"
    and alloc_ttl: "J v \<Longrightarrow> alloc_at conf v p x = Some it \<Longrightarrow>
      J (set_alloc conf p x (Some (it(''ttl'' \<mapsto> enc_int64 t))) v)"
    and no_alloc: "J v \<Longrightarrow> J (set_alloc conf p x None v)"
    and stored_size: "J v \<Longrightarrow> tables v (AllocsTableName conf) key = Some it \<Longrightarrow> unmarshal_Alloc it = Inr a \<Longrightarrow>
      alloc_Eval a = Some e \<Longrightarrow> capok (Size e)"

text \<open>The insertions with the key given separately.\<close>

context effect_invariant
begin

lemma insertions:
  "J v \<Longrightarrow> pool_PoolID pl = p \<Longrightarrow> J (set_pool conf p (Some (marshal_Pool pl)) v)"
  "J v \<Longrightarrow> wrk_PoolID wk = p \<Longrightarrow> wrk_WorkerID wk = k \<Longrightarrow> capok (wrk_Capacity wk) \<Longrightarrow>
     J (set_worker conf p k (Some (marshal_Worker wk)) v)"
  "J v \<Longrightarrow> rpl_PoolID r = p \<Longrightarrow> rpl_ReplicaID r = k \<Longrightarrow> J (set_replica conf p k (Some (marshal_Replica r)) v)"
  using new_pool new_worker new_replica by blast+

end

locale kept = fresh_backend svc conf view rely + effect_invariant conf J capok
  for svc :: "'w services" and conf view rely J capok +
  assumes stable_J: "stable J rely"
begin

lemma frames:
  "J v \<Longrightarrow> send_eff u b v = Some v' \<Longrightarrow> J v'"
  "J v \<Longrightarrow> J (set_queue u q v)"
  "J v \<Longrightarrow> J (create_queue u v)"
  "J v \<Longrightarrow> J (remove_message u h v)"
  "J v \<Longrightarrow> J (v\<lparr>handles := hs\<rparr>)"
  by (auto intro: frame simp: tables_send_eff)

lemma freed_kept: "J v \<Longrightarrow> J (freed conf a v)"
  unfolding freed_def by (rule no_alloc)

end

subsection \<open>The scheduler and the release function\<close>

context kept
begin

lemma keeps_schedule_eval:
  assumes size: "capok (Size eval)"
  shows "keeps (holds J) (schedule_eval conf svc pool h eval)"
proof -
  note s = stable_J
  have sch: "keeps (holds J) (Schedule conf svc eval pool rs)" for rs
    unfolding Schedule_def
    by (intro keeps_rules keeps_reads_of_view s)
       (auto intro!: keeps_rules keeps_reads_of_view s intro: claim split: list.split)
  have alloc: "alloc_Eval a = Some (eval\<lparr>Retry := Retry eval + 1\<rparr>)" if "Schedule conf svc eval pool rs w = (w', Ret a)" for rs w w' a
    using that unfolding Schedule_def
    by (auto simp: bnd_def ret_def fails_def split: prod.splits outcome.splits list.splits)
  show ?thesis
    unfolding schedule_eval_def
  proof (rule keeps_bnd)
    show "keeps (holds J) (if Dataset eval \<noteq> [] then FindReplicas conf svc eval pool else ret [])"
      unfolding FindReplicas_def by (intro keeps_rules keeps_reads_of_view s)
  next
    fix rs
    show "keeps (holds J) (bnd (Schedule conf svc eval pool rs) (\<lambda>alloc.
       bnd (PutNewAlloc conf svc alloc) (\<lambda>_.
       bnd (call0 (sqs_SendMessage svc (FmtWorkerQueueURL conf (pool_PoolID pool) (alloc_WorkerID alloc))
              (alloc_message pool alloc))) (\<lambda>_.
       call0 (sqs_DeleteMessage svc (pool_QueueURL pool) h)))))"
    proof (rule keeps_bnd_post [where P = "\<lambda>a. alloc_Eval a = Some (eval\<lparr>Retry := Retry eval + 1\<rparr>)", OF sch])
      show "\<And>w w' a. Schedule conf svc eval pool rs w = (w', Ret a) \<Longrightarrow> alloc_Eval a = Some (eval\<lparr>Retry := Retry eval + 1\<rparr>)"
        by (rule alloc)
    next
      fix a :: Alloc
      assume a: "alloc_Eval a = Some (eval\<lparr>Retry := Retry eval + 1\<rparr>)"
      have c: "capok (Size (eval\<lparr>Retry := Retry eval + 1\<rparr>))" using size by simp
      show "keeps (holds J) (bnd (PutNewAlloc conf svc a) (\<lambda>_.
         bnd (call0 (sqs_SendMessage svc (FmtWorkerQueueURL conf (pool_PoolID pool) (alloc_WorkerID a))
            (alloc_message pool a))) (\<lambda>_. call0 (sqs_DeleteMessage svc (pool_QueueURL pool) h))))"
        by (intro keeps_bnd keeps_PutNewAlloc keeps_send keeps_ack s) (auto intro: frames new_alloc [OF _ a c])
    qed
  qed
qed

lemma keeps_round: "keeps (holds J) (ReceiveEvals_round conf svc pool)"
proof -
  have "capok (Size (normal_size e))" for e using normal_size_pos [of e] by (intro capok_nonneg) linarith
  then show ?thesis
    unfolding ReceiveEvals_round_def schedule_msg_def
    by (intro keeps_rules keeps_receive keeps_schedule_eval stable_J) (auto intro: frames)
qed

lemma keeps_release_pool: "keeps (holds J) (release_pool conf svc it)"
proof -
  note s = stable_J
  have a: "keeps (holds J) (releaseAllocs conf svc pool)" for pool
    by (rule keeps_releaseAllocs [OF s]) (auto intro: frames freed_kept give stored_size)
  have r: "keeps (holds J) (releaseReplicas conf svc pool)" for pool
    by (rule keeps_releaseReplicas [OF s]) (rule no_replica)
  have k: "keeps (holds J) (releaseWorkers conf svc pool)" for pool
    by (rule keeps_releaseWorkers [OF s]) (auto intro: frames no_worker)
  show ?thesis
    unfolding release_pool_def by (intro keeps_rules a r k)
qed

end

subsection \<open>The HTTP operations\<close>

context kept
begin

lemma keeps_random_id: "keeps (holds J) (random_id svc)"
  unfolding random_id_def by (intro keeps_rules keeps_reads_of_view stable_J)

lemma keeps_CreatePool: "keeps (holds J) (CreatePool conf svc b)"
  unfolding CreatePool_def Let_def
  by (intro keeps_rules keeps_random_id keeps_create stable_J) (auto intro: frames insertions)

lemma keeps_RegisterWorker:
  assumes g: "good_body b"
  shows "keeps (holds J) (RegisterWorker conf svc b)"
proof (cases "json_Unmarshal RegisterWorkerInput_of_json b")
  case (Inl e)
  then show ?thesis by (simp add: RegisterWorker_def decodeInput_def wrapping_def of_sum_def keeps_fails)
next
  case (Inr input)
  with g have c: "capok (rwi_Capacity input)" by (intro capok_nonneg) (simp add: good_body_def)
  show ?thesis
    unfolding RegisterWorker_def decodeInput_def Inr of_sum_def sum.case wrapping_def [of _ "ret _"] on_err_ret bnd_ret Let_def
    by (intro keeps_rules keeps_random_id keeps_create keeps_reads_of_view stable_J) (auto intro: frames insertions simp: c)
qed

lemma keeps_DisbandPool: "keeps (holds J) (DisbandPool conf svc b)"
  unfolding DisbandPool_def
  by (intro keeps_rules keeps_remove keeps_reads_of_view stable_J) (auto intro: frames pool_ttl)

lemma keeps_SendHeartbeat: "keeps (holds J) (SendHeartbeat conf svc b)"
  unfolding SendHeartbeat_def heartbeat_replica_def heartbeat_alloc_def Let_def
  by (intro keeps_rules keeps_reads_of_view stable_J) (auto intro: insertions worker_ttl alloc_ttl)

lemma keeps_ScheduleEval: "keeps (holds J) (ScheduleEval conf svc b)"
  unfolding ScheduleEval_def active_pool_def Let_def
  by (intro keeps_rules keeps_send stable_J) (auto intro: frames)

lemma keeps_CompleteAlloc: "keeps (holds J) (CompleteAlloc conf svc b)"
proof -
  note s = stable_J
  let ?P = "\<lambda>a. \<forall>e. alloc_Eval a = Some e \<longrightarrow> capok (Size e)"
  have rel: "keeps (holds J) (releaseAlloc conf svc a)" if "?P a" for a
    by (rule keeps_releaseAlloc [OF s freed_kept]) (use that in \<open>auto intro: give\<close>)
  have get: "?P a" if "J (view w)" and "wrapping m (GetAlloc conf svc pk) w = (w', Ret a)" for w w' a m pk
  proof -
    from that(2) obtain w1 it where g: "db_GetItem svc (AllocsTableName conf) (marshal_AllocPK pk) w = (w1, Inr (Some it))"
      and u: "unmarshal_Alloc it = Inr a"
      by (auto simp: GetAlloc_def bnd_def of_sum_def fails_def ret_def call_def
          dest!: wrapping_Ret call_Ret split: prod.splits outcome.splits option.splits sum.splits)
    from get [OF g] s that(1) have "J (view w1)" by (metis stableD)
    with get_fresh [OF g] u show ?thesis by (metis stored_size)
  qed
  show ?thesis
    unfolding CompleteAlloc_def active_pool_def
    by (intro keeps_rules s keeps_bnd_post [where P = ?P and p = "wrapping _ (GetAlloc _ _ _)"])
       (use rel get in \<open>auto intro!: keeps_rules s\<close>)
qed

lemma keeps_Mux:
  assumes g: "path = ''/RegisterWorker'' \<Longrightarrow> good_body b"
  shows "keeps (holds J) (Mux conf svc m path b)"
proof -
  have "keeps (holds J) (h b)" if "route conf svc path = Some h" for h
    using that g
    by (auto simp: route_def split: if_splits
        intro: keeps_CreatePool keeps_RegisterWorker keeps_DisbandPool keeps_SendHeartbeat
          keeps_ScheduleEval keeps_CompleteAlloc)
  then show ?thesis
    unfolding Mux_def errh_def by (auto intro!: keeps_rules split: option.split)
qed

end

subsection \<open>The handlers and the steps\<close>

lemma wrapping_of_sum:
  "wrapping m (of_sum (Inr x)) = ret x" "wrapping m (of_sum (Inl e)) = fails (Wrapped e m)"
  by (simp_all add: wrapping_def of_sum_def)

context kept
begin

lemma J_HandleRelease:
  assumes I: "J (view w)" and r: "HandleRelease conf svc ev w = Some (w', r)"
  shows "J (view w')"
proof -
  from r obtain err where "ScanPages svc (PoolsTableName conf)
      (\<lambda>its _ w. (fst (each (release_pool conf svc) its w), ())) None () w = Some (w', (), err)"
    by (auto simp: HandleRelease_def split: prod.splits option.splits)
  then show ?thesis
  proof (rule ScanPages_invariant [where I = "\<lambda>w _. J (view w)"], goal_cases)
    case (2 start w w' acc x)
    with stable_J scan show ?case by (metis stableD)
  next
    case (3 its acc w w' acc')
    have "keeps (holds J) (each (release_pool conf svc) its)"
      by (intro keeps_each keeps_release_pool)
    with 3 show ?case by (auto simp: keeps_def)
  qed (rule I)
qed

lemma J_scan:
  assumes I: "J (view w)"
    and r: "ScanPages svc t (\<lambda>its acc w. (w, g its acc)) None acc w = Some (w', x)"
  shows "J (view w')"
proof -
  obtain acc' err where "ScanPages svc t (\<lambda>its acc w. (w, g its acc)) None acc w = Some (w', acc', err)"
    using r by (cases x) simp
  then show ?thesis
  proof (rule ScanPages_invariant [where I = "\<lambda>w _. J (view w)"], goal_cases)
    case (2 start w w' acc x)
    with stable_J scan show ?case by (metis stableD)
  qed (use I in auto)
qed

lemma J_HandleSchedule:
  assumes "J (view w)" and r: "HandleSchedule conf svc w = Some (w', x)"
  shows "J (view w')"
proof -
  from r obtain y where "ScanPages svc (PoolsTableName conf) (\<lambda>its started w. (w, spawn_pools its started)) None [] w = Some (w', y)"
    by (auto simp: HandleSchedule_def)
  with assms(1) show ?thesis by (rule J_scan)
qed

lemma keeps_HandleGateway:
  assumes g: "good_event ev"
  shows "keeps (holds J) (HandleGateway net conf svc ev)"
proof (cases "GatewayRequest_of_json ev")
  case (Inl e)
  then show ?thesis by (simp add: HandleGateway_def wrapping_of_sum keeps_fails)
next
  case (Inr rq)
  with g have "good_body (json_Decode (gw_Body rq))" by (simp add: good_event_def)
  then show ?thesis
    unfolding HandleGateway_def Inr wrapping_of_sum bnd_ret serve_def Let_def
    by (intro keeps_rules keeps_Mux_text keeps_Mux)
qed

lemma J_sys_step:
  assumes "sys_step net conf svc w w'" and "J (view w)"
  shows "J (view w')"
  using assms(1)
proof cases
  case (request m path b r)
  with keeps_Mux [of path b m] assms(2) show ?thesis by (auto dest: keepsD)
next
  case (round pool r)
  with keeps_round assms(2) show ?thesis by (auto dest: keepsD)
next
  case (invoke iteration ev arn e)
  from invoke(1,3) show ?thesis
  proof (cases rule: Handle_result)
    case (gateway r)
    with keeps_HandleGateway [OF invoke(2)] assms(2) show ?thesis by (auto dest: keepsD)
  qed (use assms(2) J_HandleRelease [OF assms(2)] J_HandleSchedule [OF assms(2)] in blast)+
qed

lemma J_sys_steps: "(sys_step net conf svc)\<^sup>*\<^sup>* w w' \<Longrightarrow> J (view w) \<Longrightarrow> J (view w')"
  by (induction rule: rtranclp_induct) (auto intro: J_sys_step)

end

end
