(* ===== verification/System.thy ===== *)
theory System
  imports Preserve
begin

section \<open>The whole system\<close>

text \<open>
  The invariant that no stored capacity and no size of a stored allocation is negative, kept by
  every step, and the panics of the router.
\<close>

subsection \<open>The invariant\<close>

text \<open>An item that decodes to an allocation with an evaluation of a size that is not negative.\<close>

definition alloc_ok :: "item \<Rightarrow> bool" where
  "alloc_ok it \<longleftrightarrow> (\<exists>a e. unmarshal_Alloc it = Inr a \<and> alloc_Eval a = Some e \<and> 0 \<le> sint (Size e))"

definition allocs_ok :: "Conf \<Rightarrow> store \<Rightarrow> bool" where
  "allocs_ok conf v \<longleftrightarrow> (\<forall>k it. tables v (AllocsTableName conf) k = Some it \<longrightarrow> alloc_ok it)"

definition sound :: "Conf \<Rightarrow> store \<Rightarrow> bool" where
  "sound conf v \<longleftrightarrow> caps_nonneg conf v \<and> allocs_ok conf v"

lemma allocs_ok_cong:
  "tables v' (AllocsTableName conf) = tables v (AllocsTableName conf) \<Longrightarrow> allocs_ok conf v' = allocs_ok conf v"
  by (simp add: allocs_ok_def)

lemma sound_other:
  assumes "tables_distinct conf"
  shows "sound conf (set_pool conf p x v) = sound conf v"
    and "sound conf (set_replica conf p r x v) = sound conf v"
    and "sound conf (set_queue u q v) = sound conf v"
    and "sound conf (create_queue u v) = sound conf v"
    and "sound conf (remove_message u h v) = sound conf v"
    and "sound conf (v\<lparr>handles := hs\<rparr>) = sound conf v"
  using tables_neq [OF assms] caps_nonneg_other [OF assms]
  by (auto simp: sound_def intro!: arg_cong2 [of _ _ _ _ "(\<and>)"] allocs_ok_cong)

lemma sound_send: "send_eff u b v = Some v' \<Longrightarrow> sound conf v' = sound conf v"
  by (auto simp: sound_def caps_nonneg_def allocs_ok_def tables_send_eff)

lemma sound_set_worker:
  assumes "tables_distinct conf" and "sound conf v"
    and "\<And>it c. x = Some it \<Longrightarrow> it ''cap'' = Some (AN c) \<Longrightarrow> 0 \<le> c"
  shows "sound conf (set_worker conf p k x v)"
  using assms tables_neq [OF assms(1)]
  by (auto simp: sound_def caps_nonneg_def allocs_ok_def)

lemma sound_set_alloc:
  assumes "tables_distinct conf" and "sound conf v"
    and "\<And>it. x = Some it \<Longrightarrow> alloc_ok it"
  shows "sound conf (set_alloc conf p a x v)"
  using assms tables_neq [OF assms(1)]
  by (auto simp: sound_def caps_nonneg_def allocs_ok_def)

lemma sound_cap: "sound conf v \<Longrightarrow> tables v (WorkersTableName conf) k = Some it \<Longrightarrow> it ''cap'' = Some (AN c) \<Longrightarrow> 0 \<le> c"
  by (auto simp: sound_def caps_nonneg_def)

lemma sound_alloc: "sound conf v \<Longrightarrow> tables v (AllocsTableName conf) k = Some it \<Longrightarrow> alloc_ok it"
  by (auto simp: sound_def allocs_ok_def)

lemma alloc_okD:
  assumes "alloc_ok it" and "unmarshal_Alloc it = Inr alloc"
  shows "\<exists>e. alloc_Eval alloc = Some e \<and> 0 \<le> sint (Size e)"
  using assms by (auto simp: alloc_ok_def)

lemma sound_size:
  assumes "sound conf v" and "tables v (AllocsTableName conf) k = Some it" and "unmarshal_Alloc it = Inr alloc"
    and "alloc_Eval alloc = Some e"
  shows "0 \<le> sint (Size e)"
  using alloc_okD [OF sound_alloc [OF assms(1,2)] assms(3)] assms(4) by simp

lemma alloc_ok_marshal: "alloc_ok (marshal_Alloc a) \<longleftrightarrow> (\<exists>e. alloc_Eval a = Some e \<and> 0 \<le> sint (Size e))"
  by (simp add: alloc_ok_def unmarshal_marshal)

lemma alloc_ok_ttl: "alloc_ok it \<Longrightarrow> alloc_ok (it(''ttl'' \<mapsto> enc_int64 t))"
  by (auto simp: alloc_ok_def unmarshal_Alloc_def sbind_Inr_iff dec_field_def enc_int64_def ParseInt64_def)

lemma sound_claimed: "tables_distinct conf \<Longrightarrow> sound conf v \<Longrightarrow> claimed conf p k n v v' \<Longrightarrow> sound conf v'"
  by (auto simp: claimed_def intro!: sound_set_worker)

subsection \<open>Every step keeps it\<close>

lemma stored_cap: "marshal_Worker wk ''cap'' = Some (AN c) \<longleftrightarrow> c = sint (wrk_Capacity wk)"
  by (auto simp: marshal_Worker_def enc_int64_def)

lemma sound_effects:
  assumes d: "tables_distinct conf"
  shows "effect_invariant conf (sound conf) (\<lambda>c. 0 \<le> sint c)"
proof (unfold_locales, goal_cases)
  case (3 v v')
  then show ?case by (simp add: sound_def caps_nonneg_def allocs_ok_def)
next
  case (7 v p k it t)
  then show ?case by (intro sound_set_worker [OF d]) (auto intro: sound_cap)
next
  case (10 v p k it c n)
  then show ?case by (intro sound_set_worker [OF d]) (auto intro!: add_nonneg_nonneg intro: sound_cap)
next
  case (16 v key it a e)
  then show ?case by (rule sound_size)
qed (auto simp: d sound_other [OF d] alloc_ok_marshal stored_cap intro!: sound_set_worker [OF d] sound_set_alloc [OF d] alloc_ok_ttl
      intro: sound_claimed [OF d] sound_alloc)

sublocale fresh_backend \<subseteq> sound_store: effect_invariant conf "sound conf" "\<lambda>c. 0 \<le> sint c"
  by (rule sound_effects [OF conf_tables])

lemma sound_kept:
  assumes "fresh_backend svc conf view rely" and "stable (sound conf) rely"
  shows "kept svc conf view rely (sound conf) (\<lambda>c. 0 \<le> sint c)"
  using assms sound_effects [OF fresh_backend.fresh_conf_tables [OF assms(1)]]
  by (simp add: kept_def kept_axioms_def)

lemma sys_step_sound:
  assumes "fresh_backend svc conf view rely" and "stable (sound conf) rely"
    and "sys_step net conf svc w w'" and "sound conf (view w)"
  shows "sound conf (view w')"
  by (rule kept.J_sys_step [OF sound_kept [OF assms(1,2)] assms(3,4)])

interpretation demo_sound: kept demo_svc demo demo_view "(=)" "sound demo" "\<lambda>c. 0 \<le> sint c"
  by (rule sound_kept [OF demo.is_fresh stable_eq])

subsection \<open>Panics of the router\<close>

text \<open>A stored pool that is disbanded.\<close>

definition some_disbanded :: "Conf \<Rightarrow> store \<Rightarrow> bool" where
  "some_disbanded conf v \<longleftrightarrow> (\<exists>p pool. stored_pool conf v p = Some pool \<and> disbanded pool)"

context seq_item_backend
begin

lemma panic_CreatePool: "wp (CreatePool conf svc b) (\<lambda>w' r. r = Panic \<longrightarrow> some_disbanded conf (view w)) w"
  by (rule wp_CreatePool) simp_all

lemma panic_RegisterWorker:
  "wp (RegisterWorker conf svc b) (\<lambda>w' r. r = Panic \<longrightarrow> some_disbanded conf (view w)) w"
  by (rule wp_RegisterWorker) (auto simp: some_disbanded_def)

lemma panic_DisbandPool: "wp (DisbandPool conf svc b) (\<lambda>w' r. r = Panic \<longrightarrow> some_disbanded conf (view w)) w"
  by (rule wp_DisbandPool) auto

lemma panic_ScheduleEval:
  "wp (ScheduleEval conf svc b) (\<lambda>w' r. r = Panic \<longrightarrow> some_disbanded conf (view w)) w"
  by (rule wp_ScheduleEval) (auto simp: some_disbanded_def)

lemma panic_CompleteAlloc:
  assumes "sound conf (view w)"
  shows "wp (CompleteAlloc conf svc b) (\<lambda>w' r. r = Panic \<longrightarrow> some_disbanded conf (view w)) w"
proof (rule wp_CompleteAlloc, goal_cases)
  case (3 w' w1 input pool it alloc r r')
  then obtain e where e: "alloc_Eval alloc = Some e"
    using alloc_okD [OF sound_alloc [OF assms] 3(5)] by blast
  then have "r' \<noteq> Panic" using panic_freeD [OF panic_free_releaseAlloc [OF e] 3(7)] by simp
  then show ?case using 3(8) by (auto split: outcome.splits)
qed (auto simp: some_disbanded_def)

lemma panic_SendHeartbeat:
  "wp (SendHeartbeat conf svc b) (\<lambda>w' r. r = Panic \<longrightarrow> some_disbanded conf (view w)) w"
proof -
  let ?Q = "\<lambda>(w' :: 'w) (r :: json outcome). r = Panic \<longrightarrow> some_disbanded conf (view w)"
  have np: "panic_free (heartbeat_replica conf svc pool k n d)" "panic_free (heartbeat_alloc conf svc pool n a)"
    "panic_free (UpdateWorkerTTL conf svc t pk)" for pool k n d a t pk
    unfolding heartbeat_replica_def heartbeat_alloc_def PutReplica_def UpdateAllocTTL_def UpdateWorkerTTL_def
      cond_failed_as_def Let_def
    by (intro panic_rules)+
  have tail: "wp p ?Q w1" if "panic_free p" for p w1
    using that by (auto simp: wp_def panic_free_def split: prod.splits) (metis snd_conv)
  show ?thesis
  proof (cases "json_Unmarshal SendHeartbeatInput_of_json b")
    case (Inl e)
    then show ?thesis by (simp add: SendHeartbeat_def wp_bnd wp_decodeInput)
  next
    case (Inr input)
    show ?thesis
      unfolding SendHeartbeat_def wp_bnd [of "decodeInput _ _"] wp_decodeInput Inr sum.case outcome.case
        wp_bnd [of "wrapping _ (GetActivePool _ _ _)"] wp_wrapping
    proof (rule wp_GetActive, unfold outcome.case, goal_cases)
      case (2 w1 pool)
      show ?case
      proof (cases "disbanded pool")
        case True
        with 2 have "some_disbanded conf (view w)" by (auto simp: some_disbanded_def)
        then show ?thesis by (simp add: wp_def split: prod.split)
      next
        case False
        then show ?thesis by (auto intro!: tail panic_rules np)
      qed
    qed simp
  qed
qed

lemma panic_Mux:
  assumes "sound conf (view w)" and "Mux conf svc m path b w = (w', Panic)"
  shows "some_disbanded conf (view w)"
proof -
  have "wp h (\<lambda>w' r. r = Panic \<longrightarrow> some_disbanded conf (view w)) w" if "route conf svc path = Some f" "h = f b" for f h
    using that panic_CreatePool panic_RegisterWorker panic_DisbandPool panic_SendHeartbeat panic_ScheduleEval
      panic_CompleteAlloc [OF assms(1)]
    by (auto simp: route_def wp_def split: if_splits)
  then show ?thesis
    using assms(2)
    by (fastforce simp: Mux_def errh_def on_err_def bnd_def ret_def wp_def split: if_splits option.splits prod.splits outcome.splits)
qed

lemma panic_Mux_text:
  assumes "sound conf (view w)" and "Mux_text conf svc m path t w = (w', Panic)"
  shows "some_disbanded conf (view w)"
  using Mux_text_run [of conf svc m path t w] panic_Mux [OF assms(1), of m path "json_Decode t"] assms(2)
  by (metis prod.collapse snd_conv)

lemma panic_HandleGateway:
  assumes "sound conf (view w)" and "HandleGateway net conf svc ev w = (w', Panic)"
  shows "some_disbanded conf (view w)"
  using assms(2)
  by (auto simp: HandleGateway_def serve_def bnd_def wrapping_def on_err_def of_sum_def ret_def fails_def Let_def
      intro: panic_Mux_text [OF assms(1)] split: sum.splits prod.splits outcome.splits)

lemma panic_Handle:
  assumes "sound conf (view w)" and "mset iteration = mset (Handlers net conf svc)"
    and "Handle iteration ev arn w = Some (w', Returned Panic)"
  shows "some_disbanded conf (view w)"
  using assms(2,3)
proof (cases rule: Handle_result)
  case (gateway r)
  then show ?thesis using panic_HandleGateway [OF assms(1)] by (cases r) auto
qed (auto simp: HandleRelease_def split: prod.splits option.splits schedule_end.splits)

end

end
