(* ===== verification/Typed_Store.thy ===== *)
theory Typed_Store
  imports Preserve
begin

section \<open>The types of the stored items\<close>

text \<open>
  DynamoDB has no schema beyond the keys. What the code may rely on, and its decoders do, is that
  every item of a table has exactly the attributes of its struct, with values of their types. The
  capacity of a worker is the exception: the database adds to it without a bound, so it is a number
  but need not fit into the \<open>int64\<close> of the struct.
\<close>

definition pool_typed :: "item \<Rightarrow> bool" where
  "pool_typed it \<longleftrightarrow> it \<in> range marshal_Pool"

definition replica_typed :: "item \<Rightarrow> bool" where
  "replica_typed it \<longleftrightarrow> it \<in> range marshal_Replica"

definition alloc_typed :: "item \<Rightarrow> bool" where
  "alloc_typed it \<longleftrightarrow> it \<in> range marshal_Alloc"

definition worker_typed :: "item \<Rightarrow> bool" where
  "worker_typed it \<longleftrightarrow> (\<exists>wk c. it = (marshal_Worker wk)(''cap'' \<mapsto> AN c))"

definition table_typed :: "(item \<Rightarrow> bool) \<Rightarrow> string \<Rightarrow> store \<Rightarrow> bool" where
  "table_typed T t v \<longleftrightarrow> (\<forall>k it. tables v t k = Some it \<longrightarrow> T it)"

definition well_typed :: "Conf \<Rightarrow> store \<Rightarrow> bool" where
  "well_typed conf v \<longleftrightarrow> table_typed pool_typed (PoolsTableName conf) v \<and>
     table_typed worker_typed (WorkersTableName conf) v \<and>
     table_typed replica_typed (ReplicasTableName conf) v \<and>
     table_typed alloc_typed (AllocsTableName conf) v"

lemmas typed_defs = pool_typed_def replica_typed_def alloc_typed_def worker_typed_def

lemma table_typed_set:
  "table_typed T t v \<Longrightarrow> (\<And>it. t = t' \<Longrightarrow> x = Some it \<Longrightarrow> T it) \<Longrightarrow> table_typed T t (set_item t' k x v)"
  by (auto simp: table_typed_def)

lemma well_typed_set:
  assumes d: "tables_distinct conf" and w: "well_typed conf v"
  shows "(\<And>it. x = Some it \<Longrightarrow> pool_typed it) \<Longrightarrow> well_typed conf (set_pool conf p x v)"
    and "(\<And>it. x = Some it \<Longrightarrow> worker_typed it) \<Longrightarrow> well_typed conf (set_worker conf p k x v)"
    and "(\<And>it. x = Some it \<Longrightarrow> replica_typed it) \<Longrightarrow> well_typed conf (set_replica conf p k x v)"
    and "(\<And>it. x = Some it \<Longrightarrow> alloc_typed it) \<Longrightarrow> well_typed conf (set_alloc conf p k x v)"
  using w tables_neq [OF d] unfolding well_typed_def by (auto intro!: table_typed_set)

lemma well_typedD:
  assumes "well_typed conf v"
  shows "tables v (PoolsTableName conf) key = Some it \<Longrightarrow> pool_typed it"
    and "tables v (WorkersTableName conf) key = Some it \<Longrightarrow> worker_typed it"
    and "tables v (ReplicasTableName conf) key = Some it \<Longrightarrow> replica_typed it"
    and "tables v (AllocsTableName conf) key = Some it \<Longrightarrow> alloc_typed it"
  using assms by (auto simp: well_typed_def table_typed_def)

subsection \<open>The writes of the program\<close>

lemma typed_marshal:
  "pool_typed (marshal_Pool pl)" "replica_typed (marshal_Replica r)" "alloc_typed (marshal_Alloc a)"
  by (simp_all add: typed_defs)

lemma typed_Worker: "worker_typed (marshal_Worker wk)"
proof -
  have "marshal_Worker wk = (marshal_Worker wk)(''cap'' \<mapsto> AN (sint (wrk_Capacity wk)))"
    by (simp add: marshal_Worker_def enc_int64_def fun_eq_iff)
  then show ?thesis unfolding worker_typed_def by blast
qed

lemma typed_workerI: "worker_typed ((marshal_Worker wk)(''cap'' \<mapsto> AN c))"
  unfolding worker_typed_def by blast

lemma typed_workerE:
  assumes "worker_typed it"
  obtains wk c where "it = (marshal_Worker wk)(''cap'' \<mapsto> AN c)"
  using assms unfolding worker_typed_def by blast

lemma typed_ttl:
  "pool_typed it \<Longrightarrow> pool_typed (it(''ttl'' \<mapsto> enc_int64 t))"
  "alloc_typed it \<Longrightarrow> alloc_typed (it(''ttl'' \<mapsto> enc_int64 t))"
  "worker_typed it \<Longrightarrow> worker_typed (it(''ttl'' \<mapsto> enc_int64 t))"
proof -
  have p: "(marshal_Pool pl)(''ttl'' \<mapsto> enc_int64 t) = marshal_Pool (pl\<lparr>pool_TTL := t\<rparr>)" for pl
    by (auto simp: marshal_Pool_def)
  have a: "(marshal_Alloc al)(''ttl'' \<mapsto> enc_int64 t) = marshal_Alloc (al\<lparr>alloc_TTL := t\<rparr>)" for al
    by (auto simp: marshal_Alloc_def)
  have k: "(marshal_Worker wk)(''cap'' \<mapsto> c, ''ttl'' \<mapsto> enc_int64 t) = (marshal_Worker (wk\<lparr>wrk_TTL := t\<rparr>))(''cap'' \<mapsto> c)" for wk c
    by (auto simp: marshal_Worker_def)
  show "pool_typed it \<Longrightarrow> pool_typed (it(''ttl'' \<mapsto> enc_int64 t))"
    "alloc_typed it \<Longrightarrow> alloc_typed (it(''ttl'' \<mapsto> enc_int64 t))"
    "worker_typed it \<Longrightarrow> worker_typed (it(''ttl'' \<mapsto> enc_int64 t))"
    by (auto simp: pool_typed_def alloc_typed_def p a elim!: typed_workerE) (simp add: k typed_workerI)
qed

lemma typed_cap: "worker_typed it \<Longrightarrow> worker_typed (it(''cap'' \<mapsto> AN c))"
  by (auto elim!: typed_workerE intro: typed_workerI)

lemma typed_effects:
  assumes d: "tables_distinct conf"
  shows "effect_invariant conf (well_typed conf) (\<lambda>_. True)"
proof (unfold_locales, goal_cases)
  case (3 v v')
  then show ?case by (simp add: well_typed_def table_typed_def)
next
  case (9 v p k m v')
  then show ?case
    by (auto simp: claimed_def intro!: well_typed_set [OF d] typed_cap dest: well_typedD)
qed (auto simp: d intro!: well_typed_set [OF d] typed_marshal typed_Worker typed_ttl typed_cap dest: well_typedD)

sublocale fresh_backend \<subseteq> typed_store: effect_invariant conf "well_typed conf" "\<lambda>_. True"
  by (rule typed_effects [OF conf_tables])

lemma typed_kept:
  assumes "fresh_backend svc conf view rely" and "stable (well_typed conf) rely"
  shows "kept svc conf view rely (well_typed conf) (\<lambda>_. True)"
  using assms typed_effects [OF fresh_backend.fresh_conf_tables [OF assms(1)]]
  by (simp add: kept_def kept_axioms_def)

interpretation demo_typed: kept demo_svc demo demo_view "(=)" "well_typed demo" "\<lambda>_. True"
  by (rule typed_kept [OF demo.is_fresh stable_eq])

subsection \<open>What the decoders make of a typed store\<close>

lemma typed_decodes:
  "pool_typed it \<Longrightarrow> \<exists>pl. unmarshal_Pool it = Inr pl"
  "replica_typed it \<Longrightarrow> \<exists>r. unmarshal_Replica it = Inr r"
  "alloc_typed it \<Longrightarrow> \<exists>a. unmarshal_Alloc it = Inr a"
  by (auto simp: typed_defs unmarshal_marshal)

lemma typed_worker_decodes:
  assumes "worker_typed it"
  shows "\<exists>c. it ''cap'' = Some (AN c) \<and> ((\<exists>wk. unmarshal_Worker it = Inr wk \<and> sint (wrk_Capacity wk) = c) \<longleftrightarrow> in_int64 c)"
proof -
  from assms obtain wk c where it: "it = (marshal_Worker wk)(''cap'' \<mapsto> AN c)"
    by (auto simp: worker_typed_def)
  have "unmarshal_Worker it = (if in_int64 c then Inr (wk\<lparr>wrk_Capacity := word_of_int c\<rparr>)
      else Inl (OtherErr ''value out of range''))"
    by (simp add: it unmarshal_Worker_def dec_field_def marshal_Worker_def ParseInt64_def)
  then show ?thesis by (auto simp: it sint_word_of_int64)
qed

end
