(* ===== verification/Overcommit.thy ===== *)
theory Overcommit
  imports Ledger System Typed_Store
begin

section \<open>No step creates capacity\<close>

text \<open>
  Every step of the system but a registration, whatever its outcome, leaves a worker at most what
  it had in total. Errors between two writes lose capacity, a deleted worker gives up all of its
  free capacity, but nothing adds any: an allocation is given back at most once, since it is read
  and deleted under its key and a query returns each item once.
\<close>

subsection \<open>Ledgers that shrink\<close>

definition shrinks :: "ledger \<Rightarrow> ledger \<Rightarrow> bool" where
  "shrinks l l' \<longleftrightarrow> (finite_ledger l \<longrightarrow> finite_ledger l' \<and> (\<forall>p k. worker_total l' p k \<le> worker_total l p k))"

lemma shrinks_refl [simp]: "shrinks l l"
  by (simp add: shrinks_def)

lemma shrinks_trans: "shrinks l l1 \<Longrightarrow> shrinks l1 l2 \<Longrightarrow> shrinks l l2"
  unfolding shrinks_def by (meson order_trans)

lemma shrinks_free:
  assumes "free l' = (free l)((p, k) := x)" and "held l' = held l"
    and "(case x of None \<Rightarrow> 0 | Some c \<Rightarrow> c) \<le> (case free l (p, k) of None \<Rightarrow> 0 | Some c \<Rightarrow> c)"
  shows "shrinks l l'"
  using assms by (auto simp: shrinks_def finite_ledger_def worker_total_def holds_of_def)

lemma shrinks_held:
  assumes f: "free l' = free l" and h: "held l' = (held l)((p, a) := None)"
    and n: "\<And>k n. held l (p, a) = Some (k, n) \<Longrightarrow> 0 \<le> n"
  shows "shrinks l l'"
  unfolding shrinks_def
proof (intro impI conjI allI)
  fix p' k'
  assume fin: "finite_ledger l"
  show "finite_ledger l'" using fin by (simp add: finite_ledger_def h)
  have sub: "holds_of l' p' k' \<subseteq> holds_of l p' k'" by (auto simp: holds_of_def h split: if_splits)
  have "(\<Sum>x \<in> holds_of l' p' k'. snd (the (held l' (p', x)))) = (\<Sum>x \<in> holds_of l' p' k'. snd (the (held l (p', x))))"
    by (intro sum.cong) (auto simp: holds_of_def h split: if_splits)
  also have "\<dots> \<le> (\<Sum>x \<in> holds_of l p' k'. snd (the (held l (p', x))))"
  proof (rule sum_mono2 [OF finite_holds [OF fin] sub])
    fix x
    assume "x \<in> holds_of l p' k' - holds_of l' p' k'"
    then have "p' = p \<and> x = a" "\<exists>n. held l (p', x) = Some (k', n)" by (auto simp: holds_of_def h split: if_splits)
    with n show "0 \<le> snd (the (held l (p', x)))" by auto
  qed
  finally show "worker_total l' p' k' \<le> worker_total l p' k'" by (simp add: worker_total_def f)
qed

subsection \<open>The effects on the ledger of a store\<close>

lemma ledger_set_other:
  assumes "tables_distinct conf"
  shows "ledger_of conf (set_pool conf p x v) = ledger_of conf v"
    and "ledger_of conf (set_replica conf p r x v) = ledger_of conf v"
  using tables_neq [OF assms] by (simp_all add: ledger_of_def cap_of_def)

lemma ledger_set_worker:
  assumes "tables_distinct conf"
  shows "free (ledger_of conf (set_worker conf p k x v)) =
      (free (ledger_of conf v))((p, k) := free (ledger_of conf (set_worker conf p k x v)) (p, k))"
    and "held (ledger_of conf (set_worker conf p k x v)) = held (ledger_of conf v)"
  using tables_neq [OF assms] by (auto simp: ledger_of_def cap_of_def fun_eq_iff)

lemma ledger_set_alloc:
  assumes "tables_distinct conf"
  shows "free (ledger_of conf (set_alloc conf p a x v)) = free (ledger_of conf v)"
    and "held (ledger_of conf (set_alloc conf p a x v)) =
      (held (ledger_of conf v))((p, a) := (case x of None \<Rightarrow> None | Some it \<Rightarrow> holding it))"
  using tables_neq [OF assms] by (auto simp: ledger_of_def cap_of_def fun_eq_iff)

text \<open>The stores in which nobody has more than \<open>N\<close>.\<close>

definition within :: "Conf \<Rightarrow> (string \<Rightarrow> string \<Rightarrow> int) \<Rightarrow> store \<Rightarrow> bool" where
  "within conf N v \<longleftrightarrow> sound conf v \<and> well_typed conf v \<and> finite_ledger (ledger_of conf v) \<and>
     (\<forall>p k. worker_total (ledger_of conf v) p k \<le> N p k)"

lemma within_shrinks:
  "within conf N v \<Longrightarrow> sound conf v' \<Longrightarrow> well_typed conf v' \<Longrightarrow> shrinks (ledger_of conf v) (ledger_of conf v') \<Longrightarrow>
     within conf N v'"
  unfolding within_def shrinks_def by (meson order_trans)

lemma within_frame: "within conf N v \<Longrightarrow> tables v' = tables v \<Longrightarrow> within conf N v'"
  by (simp add: within_def ledger_of_def cap_of_def sound_def caps_nonneg_def allocs_ok_def well_typed_def table_typed_def)

lemma held_nonneg:
  assumes s: "sound conf v" and "held (ledger_of conf v) (p, a) = Some (k, n)"
  shows "0 \<le> n"
proof -
  from assms(2) obtain it where "alloc_at conf v p a = Some it" "holding it = Some (k, n)"
    by (auto simp: ledger_of_def split: option.splits)
  with sound_alloc [OF s] show ?thesis by (fastforce simp: alloc_ok_def holding_def split: sum.splits)
qed

lemma free_nonneg: "sound conf v \<Longrightarrow> 0 \<le> (case free (ledger_of conf v) (p, k) of None \<Rightarrow> 0 | Some c \<Rightarrow> c)"
  by (auto simp: ledger_of_def cap_of_def intro: sound_cap split: option.split attr.split)

lemma shrinks_claimed:
  assumes d: "tables_distinct conf" and c: "claimed conf p k n v v'" and n: "0 \<le> n"
  shows "shrinks (ledger_of conf v) (ledger_of conf v')"
proof -
  from c obtain it m where at: "worker_at conf v p k = Some it" "it ''cap'' = Some (AN m)"
    and v': "v' = set_worker conf p k (Some (it(''cap'' \<mapsto> AN (m - n)))) v"
    by (auto simp: claimed_def)
  show ?thesis
    unfolding v' by (rule shrinks_free [OF ledger_set_worker [OF d]]) (use n at in \<open>simp add: ledger_of_def cap_of_def\<close>)
qed

lemma shrinks_freed:
  assumes "tables_distinct conf" and "sound conf v"
  shows "shrinks (ledger_of conf v) (ledger_of conf (set_alloc conf p a None v))"
  by (rule shrinks_held [OF ledger_set_alloc(1) [OF assms(1)]])
     (use held_nonneg [OF assms(2)] in \<open>auto simp: ledger_set_alloc [OF assms(1)]\<close>)

lemma shrinks_no_worker:
  assumes "tables_distinct conf" and "sound conf v"
  shows "shrinks (ledger_of conf v) (ledger_of conf (set_worker conf p k None v))"
  by (rule shrinks_free [OF ledger_set_worker [OF assms(1)]])
     (use free_nonneg [OF assms(2), of p k] in \<open>simp add: ledger_of_def cap_of_def\<close>)

lemma ledger_worker_ttl:
  assumes "tables_distinct conf" and "worker_at conf v p k = Some it"
  shows "ledger_of conf (set_worker conf p k (Some (it(''ttl'' \<mapsto> x))) v) = ledger_of conf v"
  using assms(2) tables_neq [OF assms(1)] by (auto simp: ledger_of_def cap_of_def fun_eq_iff)

lemma holding_ttl: "alloc_typed it \<Longrightarrow> holding (it(''ttl'' \<mapsto> enc_int64 t)) = holding it"
proof -
  have "(marshal_Alloc al)(''ttl'' \<mapsto> enc_int64 t) = marshal_Alloc (al\<lparr>alloc_TTL := t\<rparr>)" for al
    by (auto simp: marshal_Alloc_def)
  then show "alloc_typed it \<Longrightarrow> holding (it(''ttl'' \<mapsto> enc_int64 t)) = holding it"
    by (auto simp: alloc_typed_def holding_marshal)
qed

lemma ledger_alloc_ttl:
  assumes d: "tables_distinct conf" and "well_typed conf v" and "alloc_at conf v p a = Some it"
  shows "ledger_of conf (set_alloc conf p a (Some (it(''ttl'' \<mapsto> enc_int64 t))) v) = ledger_of conf v"
  using assms(3) holding_ttl [OF well_typedD(4) [OF assms(2,3)]] tables_neq [OF d]
  by (auto simp: ledger_of_def cap_of_def fun_eq_iff)

lemma shrinks_released:
  assumes d: "tables_distinct conf" and s: "sound conf v"
    and at: "alloc_at conf v (alloc_PoolID a) (alloc_AllocID a) = Some it" "unmarshal_Alloc it = Inr a"
    and e: "alloc_Eval a = Some e"
    and v': "v' = v \<or> v' = freed conf a v \<or> given_back conf a (sint (Size e)) v v'"
    and f: "finite_ledger (ledger_of conf v)"
  shows "shrinks (ledger_of conf v) (ledger_of conf v')"
  using v'
proof (elim disjE)
  assume "given_back conf a (sint (Size e)) v v'"
  from give_back_total [OF give_back_stored [OF d this at e refl] f] show ?thesis by (simp add: shrinks_def)
qed (use shrinks_freed [OF d s] in \<open>simp_all add: freed_def\<close>)


subsection \<open>The program\<close>

context seq_fresh_backend
begin

lemma keeps_within:
  assumes s: "keeps (holds (sound conf)) p" and t: "keeps (holds (well_typed conf)) p"
    and r: "\<And>w. within conf N (view w) \<Longrightarrow> wp p (\<lambda>w' _. shrinks (ledger_of conf (view w)) (ledger_of conf (view w'))) w"
  shows "keeps (holds (within conf N)) p"
proof (rule keepsI)
  fix w w' x
  assume I: "within conf N (view w)" and run: "p w = (w', x)"
  then have "sound conf (view w)" "well_typed conf (view w)" by (simp_all add: within_def)
  with keepsD [OF s _ run] keepsD [OF t _ run] have "sound conf (view w')" "well_typed conf (view w')" by simp_all
  then show "within conf N (view w')" by (rule within_shrinks [OF I]) (rule wp_run [OF r [OF I] run])
qed

lemma kept_sound: "kept svc conf view (=) (sound conf) (\<lambda>c. 0 \<le> sint c)"
  by (rule sound_kept [OF is_fresh stable_eq])

lemma kept_typed: "kept svc conf view (=) (well_typed conf) (\<lambda>_. True)"
  by (rule typed_kept [OF is_fresh stable_eq])

lemma shrinks_attempted:
  assumes n: "0 \<le> sint (Size eval)" and f: "finite_ledger (ledger_of conf v)"
  shows "attempted conf eval v v' \<Longrightarrow> shrinks (ledger_of conf v) (ledger_of conf v')"
    and "scheduled conf pool h eval alloc v v' \<Longrightarrow> shrinks (ledger_of conf v) (ledger_of conf v')"
proof -
  have place: "shrinks (ledger_of conf v) (ledger_of conf v')"
    if "claimed conf (alloc_PoolID alloc) (alloc_WorkerID alloc) (sint (Size eval)) v v1"
      "alloc_Eval alloc = Some (eval\<lparr>Retry := Retry eval + 1\<rparr>)"
      "alloc_at conf v (alloc_PoolID alloc) (alloc_AllocID alloc) = None"
      "tables v' = tables (set_alloc conf (alloc_PoolID alloc) (alloc_AllocID alloc) (Some (marshal_Alloc alloc)) v1)"
    for alloc v1
  proof -
    have "sint (Size (eval\<lparr>Retry := Retry eval + 1\<rparr>)) = sint (Size eval)" by simp
    from place_total [OF place_claimed [OF conf_tables that(1,3,2) this refl that(4)] f]
    show ?thesis by (simp add: shrinks_def)
  qed
  show "attempted conf eval v v' \<Longrightarrow> shrinks (ledger_of conf v) (ledger_of conf v')"
    using place shrinks_claimed [OF conf_tables _ n] by (auto simp: attempted_def)
  show "scheduled conf pool h eval alloc v v' \<Longrightarrow> shrinks (ledger_of conf v) (ledger_of conf v')"
    using place by (auto simp: scheduled_def)
qed

lemma within_schedule_eval:
  assumes n: "0 \<le> sint (Size eval)"
  shows "keeps (holds (within conf N)) (schedule_eval conf svc pool h eval)"
proof (rule keeps_within)
  fix w
  assume "within conf N (view w)"
  then have f: "finite_ledger (ledger_of conf (view w))" by (simp add: within_def)
  show "wp (schedule_eval conf svc pool h eval) (\<lambda>w' _. shrinks (ledger_of conf (view w)) (ledger_of conf (view w'))) w"
    by (rule wp_schedule_eval) (rule shrinks_attempted [OF n f], assumption)+
qed (use kept.keeps_schedule_eval [OF kept_sound] kept.keeps_schedule_eval [OF kept_typed] n in blast)+

lemma within_round: "keeps (holds (within conf N)) (ReceiveEvals_round conf svc pool)"
proof -
  have "0 \<le> sint (Size (normal_size e))" for e using normal_size_pos [of e] by linarith
  then show ?thesis
    unfolding ReceiveEvals_round_def schedule_msg_def
    by (intro keeps_rules keeps_receive within_schedule_eval stable_eq) (auto elim: within_frame)
qed

end

subsection \<open>The release function\<close>

lemma within_typed: "within conf N v \<Longrightarrow> well_typed conf v"
  by (simp add: within_def)

lemma within_set_other:
  assumes d: "tables_distinct conf" and w: "within conf N v"
  shows "(\<And>it. x = Some it \<Longrightarrow> pool_typed it) \<Longrightarrow> within conf N (set_pool conf p x v)"
    and "(\<And>it. y = Some it \<Longrightarrow> replica_typed it) \<Longrightarrow> within conf N (set_replica conf p r y v)"
  using w well_typed_set(1,3) [OF d within_typed [OF w]] by (simp_all add: within_def ledger_set_other [OF d] sound_other [OF d])

lemma within_no_worker:
  assumes d: "tables_distinct conf" and w: "within conf N v"
  shows "within conf N (set_worker conf p k None v)"
  using w shrinks_no_worker [OF d] unfolding within_def
  by (intro within_shrinks [unfolded within_def, OF w [unfolded within_def]] conjI)
     (auto intro!: sound_set_worker [OF d] well_typed_set [OF d])

lemma alloc_key_of:
  assumes d: "tables_distinct conf" and t: "alloc_typed it" and u: "unmarshal_Alloc it = Inr a"
  shows "key_of conf (AllocsTableName conf) it = sub_key (alloc_PoolID a) (alloc_AllocID a)"
proof -
  from t obtain b where b: "it = marshal_Alloc b" by (auto simp: alloc_typed_def)
  with u have "b = a" by (simp add: unmarshal_marshal)
  with b show ?thesis by (simp add: key_of_tables [OF d])
qed

lemma tables_requeued: "requeued conf pool eval v v' \<Longrightarrow> tables v' = tables v"
  by (auto simp: requeued_def tables_send_eff)

context seq_fresh_backend
begin

text \<open>
  One expired allocation that is still stored: what was within \<open>N\<close> stays so, and no entry of the
  allocation table changes but the one under its key.
\<close>

lemma within_release_expired:
  assumes I: "within conf N (view w)"
    and at: "tables (view w) (AllocsTableName conf) (key_of conf (AllocsTableName conf) it0) = Some it0"
    and it: "unmarshal_Alloc it = unmarshal_Alloc it0"
  shows "wp (release_expired conf svc pool it) (\<lambda>w' r. r \<noteq> Panic \<and> within conf N (view w') \<and>
     (\<forall>k. k \<noteq> key_of conf (AllocsTableName conf) it0 \<longrightarrow>
        tables (view w') (AllocsTableName conf) k = tables (view w) (AllocsTableName conf) k)) w"
proof (cases "unmarshal_Alloc it0")
  case (Inl e)
  with I it show ?thesis by (simp add: release_expired_def wp_ret)
next
  case (Inr a)
  note d = conf_tables
  from I have g: "sound conf (view w)" "well_typed conf (view w)" "finite_ledger (ledger_of conf (view w))"
    by (simp_all add: within_def)
  note key = alloc_key_of [OF d well_typedD(4) [OF g(2) at] Inr]
  have rel: "wp (logged (releaseAlloc conf svc a)) (\<lambda>w' r. r \<noteq> Panic \<and> within conf N (view w') \<and>
     (\<forall>k. k \<noteq> sub_key (alloc_PoolID a) (alloc_AllocID a) \<longrightarrow>
        tables (view w') (AllocsTableName conf) k = tables (view w) (AllocsTableName conf) k)) w1"
    if e: "alloc_Eval a = Some e" and w1: "within conf N (view w1)" "tables (view w1) = tables (view w)" for e w1
  proof -
    from w1(1) have g1: "sound conf (view w1)" "well_typed conf (view w1)" "finite_ledger (ledger_of conf (view w1))"
      by (simp_all add: within_def)
    have at1: "alloc_at conf (view w1) (alloc_PoolID a) (alloc_AllocID a) = Some it0"
      using at by (simp add: w1(2) key)
    have nn: "0 \<le> sint (Size e)" by (rule sound_size [OF g(1) at Inr e])
    have "keeps (holds (sound conf)) (releaseAlloc conf svc a)"
      by (rule keeps_releaseAlloc [OF stable_eq])
         (use e nn in \<open>auto intro: effect_invariant.no_alloc [OF sound_effects [OF d]] effect_invariant.give [OF sound_effects [OF d]]
            simp: freed_def\<close>)
    moreover have "keeps (holds (well_typed conf)) (releaseAlloc conf svc a)"
      by (rule keeps_releaseAlloc [OF stable_eq])
         (auto intro: effect_invariant.no_alloc [OF typed_effects [OF d]] effect_invariant.give [OF typed_effects [OF d]]
            simp: freed_def)
    ultimately have keep: "wp (releaseAlloc conf svc a) (\<lambda>w' r. sound conf (view w') \<and> well_typed conf (view w')) w1"
      using g1 by (intro wp_conj) (auto simp: keeps_wp)
    have "wp (releaseAlloc conf svc a) (\<lambda>w' r. r \<noteq> Panic \<and> (view w' = view w1 \<or> view w' = freed conf a (view w1) \<or>
        given_back conf a (sint (Size e)) (view w1) (view w'))) w1"
      by (rule wp_releaseAlloc) (use e in auto)
    from wp_conj [OF keep this]
    have "wp (releaseAlloc conf svc a) (\<lambda>w' r. r \<noteq> Panic \<and> within conf N (view w') \<and>
       (\<forall>k. k \<noteq> sub_key (alloc_PoolID a) (alloc_AllocID a) \<longrightarrow>
          tables (view w') (AllocsTableName conf) k = tables (view w) (AllocsTableName conf) k)) w1"
    proof (rule wp_mono, elim conjE, intro conjI allI impI)
      fix w' :: 'w and r :: "unit outcome"
      assume s: "sound conf (view w')" "well_typed conf (view w')" and v: "view w' = view w1 \<or> view w' = freed conf a (view w1) \<or>
        given_back conf a (sint (Size e)) (view w1) (view w')"
      show "within conf N (view w')"
        by (rule within_shrinks [OF w1(1) s shrinks_released [OF d g1(1) at1 Inr e v g1(3)]])
      fix k
      assume "k \<noteq> sub_key (alloc_PoolID a) (alloc_AllocID a)"
      with v show "tables (view w') (AllocsTableName conf) k = tables (view w) (AllocsTableName conf) k"
        using table_names by (auto simp: given_back_def w1(2) [symmetric])
    qed
    then show ?thesis unfolding wp_logged by (rule wp_mono) (auto split: outcome.split)
  qed
  show ?thesis
  proof (cases "alloc_WorkerID a = [] \<or> alloc_Eval a = None")
    case True
    with I it Inr show ?thesis by (auto simp: release_expired_def wp_ret split: option.split)
  next
    case False
    then obtain e where e: "alloc_Eval a = Some e" "alloc_WorkerID a \<noteq> []" by auto
    show ?thesis
      unfolding release_expired_def it Inr sum.case e(1) option.case wp_bnd key
      using e(2)
      by (auto simp: wp_bnd intro!: wp_reschedule rel [OF e(1)] within_frame [OF I] dest: tables_requeued)
  qed
qed

lemma within_each_expired:
  assumes "within conf N (view w)" and "distinct (map (key_of conf (AllocsTableName conf)) its)"
    and "\<And>it. it \<in> set its \<Longrightarrow> \<exists>it0. key_of conf (AllocsTableName conf) it0 = key_of conf (AllocsTableName conf) it \<and>
      tables (view w) (AllocsTableName conf) (key_of conf (AllocsTableName conf) it) = Some it0 \<and>
      unmarshal_Alloc it = unmarshal_Alloc it0"
  shows "wp (each (release_expired conf svc pool) its) (\<lambda>w' r. within conf N (view w')) w"
  using assms
proof (induction its arbitrary: w)
  case (Cons it its)
  let ?K = "key_of conf (AllocsTableName conf)"
  from Cons.prems(3) [of it] obtain it0 where i0: "?K it0 = ?K it"
    "tables (view w) (AllocsTableName conf) (?K it) = Some it0" "unmarshal_Alloc it = unmarshal_Alloc it0" by auto
  have "wp (release_expired conf svc pool it) (\<lambda>w' r. r \<noteq> Panic \<and> within conf N (view w') \<and>
     (\<forall>k. k \<noteq> ?K it \<longrightarrow> tables (view w') (AllocsTableName conf) k = tables (view w) (AllocsTableName conf) k)) w"
    using within_release_expired [OF Cons.prems(1) _ i0(3), of pool] i0(1,2) by simp
  then show ?case
    unfolding each.simps wp_bnd
  proof (rule wp_mono, elim conjE)
    fix w' :: 'w and r :: "unit outcome"
    assume I: "within conf N (view w')" and
      o: "\<forall>k. k \<noteq> ?K it \<longrightarrow> tables (view w') (AllocsTableName conf) k = tables (view w) (AllocsTableName conf) k"
    have "wp (each (release_expired conf svc pool) its) (\<lambda>w' r. within conf N (view w')) w'"
    proof (rule Cons.IH [OF I])
      fix x
      assume x: "x \<in> set its"
      with Cons.prems(2) have "?K x \<noteq> ?K it" by (metis distinct.simps(2) list.map(2) list.set_map rev_image_eqI)
      with Cons.prems(3) [of x] x o show "\<exists>it0. ?K it0 = ?K x \<and>
        tables (view w') (AllocsTableName conf) (?K x) = Some it0 \<and> unmarshal_Alloc x = unmarshal_Alloc it0" by simp
    qed (use Cons.prems(2) in simp)
    with I show "case r of Ret x \<Rightarrow> wp (each (release_expired conf svc pool) its) (\<lambda>w' r. within conf N (view w')) w'
      | Fail e \<Rightarrow> within conf N (view w') | Panic \<Rightarrow> within conf N (view w')"
      by (simp split: outcome.split)
  qed
qed (simp add: wp_ret)

end

context seq_fresh_backend
begin

lemma within_releaseAllocs: "keeps (holds (within conf N)) (releaseAllocs conf svc pool)"
  unfolding releaseAllocs_def
proof (rule keeps_bnd)
  fix now
  let ?q = "expired_allocs conf pool now" and ?K = "key_of conf (AllocsTableName conf)"
  show "keeps (holds (within conf N)) (bnd (wrapping ''failed to query allocations'' (call (db_Query svc ?q)))
      (each (release_expired conf svc pool)))"
    unfolding keeps_wp wp_bnd wp_wrapping
  proof (intro allI impI wp_query, unfold outcome.case)
    fix w w' its
    assume I: "within conf N (view w)" and v: "view w' = view w" and q: "db_Query svc ?q w = (w', Inr its)"
    show "wp (each (release_expired conf svc pool) its) (\<lambda>w' r. within conf N (view w')) w'"
    proof (rule within_each_expired)
      show "within conf N (view w')" using I v by simp
      show "distinct (map ?K its)" using query_distinct [OF q] by simp
      fix it
      assume "it \<in> set its"
      from query_fresh [OF q this] obtain k it0 where k: "tables (view w') (AllocsTableName conf) k = Some it0"
        and it: "it = projected conf (AllocsTableName conf) (Some (AllocsTTLIdxName conf)) it0"
        by auto
      from stored_by_key [OF k] k show "\<exists>it0. ?K it0 = ?K it \<and> tables (view w') (AllocsTableName conf) (?K it) = Some it0 \<and>
          unmarshal_Alloc it = unmarshal_Alloc it0"
        by (auto simp: it key_of_projected projected_alloc [OF conf_tables])
    qed
  qed simp_all
qed (intro keeps_reads_of_view stable_eq)

lemma within_release_pool: "keeps (holds (within conf N)) (release_pool conf svc it)"
proof -
  note d = conf_tables
  have r: "keeps (holds (within conf N)) (releaseReplicas conf svc pool)" for pool
    by (rule keeps_releaseReplicas [OF stable_eq])
       (auto intro!: within_set_other [OF d])
  have k: "keeps (holds (within conf N)) (releaseWorkers conf svc pool)" for pool
    by (rule keeps_releaseWorkers [OF stable_eq]) (auto intro: within_no_worker [OF d] elim: within_frame)
  show ?thesis
    unfolding release_pool_def by (intro keeps_rules within_releaseAllocs r k)
qed

lemma within_HandleRelease:
  assumes I: "within conf N (view w)" and r: "HandleRelease conf svc ev w = Some (w', r)"
  shows "within conf N (view w')"
proof -
  from r obtain err where "ScanPages svc (PoolsTableName conf)
      (\<lambda>its _ w. (fst (each (release_pool conf svc) its w), ())) None () w = Some (w', (), err)"
    by (auto simp: HandleRelease_def split: prod.splits option.splits)
  then show ?thesis
  proof (rule ScanPages_invariant [where I = "\<lambda>w _. within conf N (view w)"], goal_cases)
    case (2 start w w' acc x)
    with scan show ?case by metis
  next
    case (3 its acc w w' acc')
    have "keeps (holds (within conf N)) (each (release_pool conf svc) its)"
      by (intro keeps_each within_release_pool)
    with 3 show ?case by (auto simp: keeps_def)
  qed (rule I)
qed

end

subsection \<open>The operations of the router\<close>

context seq_fresh_backend
begin

lemma within_CreatePool: "keeps (holds (within conf N)) (CreatePool conf svc b)"
  unfolding CreatePool_def Let_def random_id_def
  by (intro keeps_rules keeps_create keeps_reads_of_view stable_eq)
     (auto intro!: within_set_other [OF conf_tables] typed_marshal elim: within_frame)

lemma within_DisbandPool: "keeps (holds (within conf N)) (DisbandPool conf svc b)"
  unfolding DisbandPool_def
  by (intro keeps_rules keeps_remove keeps_reads_of_view stable_eq)
     (auto intro!: within_set_other [OF conf_tables] typed_ttl elim: within_frame dest: within_typed well_typedD)

lemma within_ScheduleEval: "keeps (holds (within conf N)) (ScheduleEval conf svc b)"
  unfolding ScheduleEval_def active_pool_def Let_def
  by (intro keeps_rules keeps_send stable_eq) (auto elim: within_frame dest: tables_send_eff)

lemma within_ttls:
  assumes w: "within conf N v"
  shows "worker_at conf v p k = Some it \<Longrightarrow> within conf N (set_worker conf p k (Some (it(''ttl'' \<mapsto> enc_int64 t))) v)"
    and "alloc_at conf v p a = Some it \<Longrightarrow> within conf N (set_alloc conf p a (Some (it(''ttl'' \<mapsto> enc_int64 t))) v)"
  using w conf_tables
    effect_invariant.worker_ttl [OF sound_effects] effect_invariant.worker_ttl [OF typed_effects]
    effect_invariant.alloc_ttl [OF sound_effects] effect_invariant.alloc_ttl [OF typed_effects]
  by (simp_all add: within_def ledger_worker_ttl ledger_alloc_ttl)

lemma within_SendHeartbeat: "keeps (holds (within conf N)) (SendHeartbeat conf svc b)"
proof -
  have r: "within conf N (set_replica conf p k (Some (marshal_Replica r)) v)" if "within conf N v" for p k r v
    using that by (intro within_set_other [OF conf_tables]) (auto simp: typed_marshal)
  show ?thesis
    unfolding SendHeartbeat_def heartbeat_replica_def heartbeat_alloc_def Let_def
    by (intro keeps_rules keeps_reads_of_view stable_eq) (auto intro: within_ttls r)
qed

lemma within_CompleteAlloc: "keeps (holds (within conf N)) (CompleteAlloc conf svc b)"
proof (rule keeps_within)
  fix w
  assume I: "within conf N (view w)"
  then have g: "sound conf (view w)" "well_typed conf (view w)" "finite_ledger (ledger_of conf (view w))"
    by (simp_all add: within_def)
  show "wp (CompleteAlloc conf svc b) (\<lambda>w' _. shrinks (ledger_of conf (view w)) (ledger_of conf (view w'))) w"
  proof (rule wp_CompleteAlloc, goal_cases)
    case (3 w' w1 input pool it alloc r r')
    from sound_alloc [OF g(1) 3(4)] 3(5) obtain e where e: "alloc_Eval alloc = Some e" by (auto dest: alloc_okD)
    note ids = stored_alloc_ids [OF is_backend 3(4,5)]
    from releaseAlloc_result [OF seq_backend_axioms 3(7)] e 3(6)
    have "view w' = view w \<or> view w' = freed conf alloc (view w) \<or>
        given_back conf alloc (sint (Size e)) (view w) (view w')"
      by (auto split: outcome.splits)
    from shrinks_released [OF conf_tables g(1) 3(4) [folded ids] 3(5) e this g(3)] show ?case .
  qed simp_all
qed (use kept.keeps_CompleteAlloc [OF kept_sound] kept.keeps_CompleteAlloc [OF kept_typed] in blast)+

lemma within_Mux:
  assumes "path \<noteq> ''/RegisterWorker''"
  shows "keeps (holds (within conf N)) (Mux conf svc m path b)"
proof -
  have "keeps (holds (within conf N)) (h b)" if "route conf svc path = Some h" for h
    using that assms
    by (auto simp: route_def split: if_splits
        intro: within_CreatePool within_DisbandPool within_SendHeartbeat within_ScheduleEval within_CompleteAlloc)
  then show ?thesis
    unfolding Mux_def errh_def by (auto intro!: keeps_rules split: option.split)
qed

end

subsection \<open>Any sequence of steps\<close>

inductive no_registration :: "Conf \<Rightarrow> 'w services \<Rightarrow> 'w \<Rightarrow> 'w \<Rightarrow> bool" for conf :: Conf and svc :: "'w services" where
  request: "Mux conf svc m path b w = (w', r) \<Longrightarrow> path \<noteq> ''/RegisterWorker'' \<Longrightarrow> no_registration conf svc w w'"
| round: "ReceiveEvals_round conf svc pool w = (w', r) \<Longrightarrow> no_registration conf svc w w'"
| release: "HandleRelease conf svc ev w = Some (w', r) \<Longrightarrow> no_registration conf svc w w'"

lemma within_steps:
  assumes b: "seq_fresh_backend svc conf view" and "(no_registration conf svc)\<^sup>*\<^sup>* w w'" and I: "within conf N (view w)"
  shows "within conf N (view w')"
  using assms(2)
proof (induction rule: rtranclp_induct)
  case (step w1 w2)
  from step(2) show ?case
  proof cases
    case (request m path b r)
    with keepsD [OF seq_fresh_backend.within_Mux [OF b] step(3)] show ?thesis by blast
  next
    case (round pool r)
    with keepsD [OF seq_fresh_backend.within_round [OF b] step(3)] show ?thesis by blast
  next
    case (release ev r)
    with seq_fresh_backend.within_HandleRelease [OF b step(3)] show ?thesis by blast
  qed
qed (rule I)

text \<open>The sizes of the allocations that a worker holds.\<close>

definition held_by :: "ledger \<Rightarrow> string \<Rightarrow> string \<Rightarrow> int" where
  "held_by l p k = (\<Sum>a \<in> holds_of l p k. snd (the (held l (p, a))))"

lemma held_by_le: "sound conf v \<Longrightarrow> held_by (ledger_of conf v) p k \<le> worker_total (ledger_of conf v) p k"
  using free_nonneg [of conf v p k] by (simp add: held_by_def worker_total_def)

lemma held_by_total: "held_by l p k + (case free l (p, k) of None \<Rightarrow> 0 | Some c \<Rightarrow> c) = worker_total l p k"
  by (simp add: held_by_def worker_total_def)

end
