(* ===== verification/Go_URL.thy ===== *)
theory Go_URL
  imports Go_Net "HOL-Library.Char_ord" "HOL-Library.List_Lexorder"
begin

section \<open>Urls (\<open>net/url\<close>) and requests (\<open>net/http\<close>)\<close>

text \<open>
  What the client and the gateway adapter use of \<open>net/url\<close> and \<open>net/http\<close>: parsing and printing
  urls, query values, and the construction of a request. The result is an instance of the interface
  \<open>net\<close>, so that the way of a request from the client to the router can be followed without
  assumptions on the libraries. The part of a url between \<open>//\<close> and the path (user and host) is left
  to a parameter.
\<close>

subsection \<open>Escaping\<close>

datatype encoding = encodePath | encodeQueryComponent | encodeFragment

definition shouldEscape :: "char \<Rightarrow> encoding \<Rightarrow> bool" where
  "shouldEscape c mode =
     (if is_alnum c \<or> c \<in> set ''-_.~'' then False
      else if c \<in> set ''$&+,/:;=?@''
      then (case mode of encodePath \<Rightarrow> c = CHR ''?'' | encodeQueryComponent \<Rightarrow> True | encodeFragment \<Rightarrow> False)
      else True)"

definition upper_hex :: "nat \<Rightarrow> char" where
  "upper_hex d = ''0123456789ABCDEF'' ! d"

fun escape :: "encoding \<Rightarrow> string \<Rightarrow> string" where
  "escape mode [] = []"
| "escape mode (c # cs) =
     (if c = CHR '' '' \<and> mode = encodeQueryComponent then CHR ''+'' # escape mode cs
      else if shouldEscape c mode
      then CHR ''%'' # upper_hex (of_char c div 16) # upper_hex (of_char c mod 16) # escape mode cs
      else c # escape mode cs)"

definition EscapeError :: "string \<Rightarrow> goerr" where
  "EscapeError s = OtherErr (''invalid URL escape '' @ [CHR 0x22] @ take 3 s @ [CHR 0x22])"

fun unescape :: "encoding \<Rightarrow> string \<Rightarrow> goerr + string" where
  "unescape mode [] = Inr []"
| "unescape mode (c # cs) =
     (if c = CHR ''%'' then
        (case cs of
           a # b # rest \<Rightarrow> (case (unhex a, unhex b) of
               (Some x, Some y) \<Rightarrow> sbind (unescape mode rest) (\<lambda>t. Inr (char_of (16 * x + y) # t))
             | _ \<Rightarrow> Inl (EscapeError (c # cs)))
         | _ \<Rightarrow> Inl (EscapeError (c # cs)))
      else sbind (unescape mode cs) (\<lambda>t.
        Inr ((if c = CHR ''+'' \<and> mode = encodeQueryComponent then CHR '' '' else c) # t)))"

subsection \<open>Query values\<close>

text \<open>\<open>strings.IndexAny(key, "&;")\<close> cuts the query into pairs.\<close>

fun query_parts :: "string \<Rightarrow> string list" where
  "query_parts [] = [[]]"
| "query_parts (c # cs) =
     (if c = CHR ''&'' \<or> c = CHR '';'' then [] # query_parts cs
      else (case query_parts cs of [] \<Rightarrow> [[c]] | p # ps \<Rightarrow> (c # p) # ps))"

definition add_pair :: "vals \<Rightarrow> string \<Rightarrow> vals" where
  "add_pair m part =
     (if part = [] then m
      else case cut_at (CHR ''='') part of (key, rest) \<Rightarrow>
        (case (unescape encodeQueryComponent key, unescape encodeQueryComponent (case rest of None \<Rightarrow> [] | Some v \<Rightarrow> v)) of
           (Inr k, Inr v) \<Rightarrow> append_val k v m
         | _ \<Rightarrow> m))"

definition ParseQuery :: "string \<Rightarrow> vals" where
  "ParseQuery query = foldl add_pair [] (query_parts query)"

text \<open>\<open>Values.Encode\<close>: the keys in ascending order of their bytes.\<close>

definition encoded_pairs :: "vals \<Rightarrow> string list" where
  "encoded_pairs v = concat (map (\<lambda>k. map (\<lambda>x. escape encodeQueryComponent k @ CHR ''='' # escape encodeQueryComponent x)
      (case map_of v k of None \<Rightarrow> [] | Some xs \<Rightarrow> xs)) (sort (map fst v)))"

definition Encode :: "vals \<Rightarrow> string" where
  "Encode v = Join (CHR ''&'') (encoded_pairs v)"

subsection \<open>Urls\<close>

text \<open>
  The user and host of a url: \<open>au_parse\<close> is \<open>parseAuthority\<close>, \<open>au_text\<close> the text that \<open>String\<close>
  prints for it, \<open>au_none\<close> a url without one, \<open>au_user\<close> and \<open>au_host\<close> whether there is a user and
  whether the host is not empty.
\<close>

record 'a authority =
  au_parse :: "string \<Rightarrow> goerr + 'a"
  au_text :: "'a \<Rightarrow> string"
  au_none :: 'a
  au_user :: "'a \<Rightarrow> bool"
  au_host :: "'a \<Rightarrow> bool"

record 'a url_parts =
  Scheme :: string
  Opaque :: string
  Authority :: 'a
  RawPath :: string
  ForceQuery :: bool
  Fragment :: string

type_synonym 'a go_url = "'a url_parts url"

definition is_alpha :: "char \<Rightarrow> bool" where
  "is_alpha c \<longleftrightarrow> is_alnum c \<and> \<not> is_digit c"

text \<open>\<open>getscheme\<close>, with the characters read so far.\<close>

fun getscheme :: "string \<Rightarrow> string \<Rightarrow> string \<Rightarrow> goerr + string \<times> string" where
  "getscheme raw seen [] = Inr ([], raw)"
| "getscheme raw seen (c # cs) =
     (if is_alpha c then getscheme raw (seen @ [c]) cs
      else if is_digit c \<or> c \<in> set ''+-.'' then
        (if seen = [] then Inr ([], raw) else getscheme raw (seen @ [c]) cs)
      else if c = CHR '':'' then
        (if seen = [] then Inl (Errorf ''missing protocol scheme'') else Inr (seen, cs))
      else Inr ([], raw))"

definition to_lower :: "string \<Rightarrow> string" where
  "to_lower = map lower_char"

text \<open>\<open>split(s, c, true)\<close>: the parts before and after the first \<open>c\<close>; nothing after it if there is none.\<close>

definition url_split :: "char \<Rightarrow> string \<Rightarrow> string \<times> string" where
  "url_split c s = (case cut_at c s of (a, None) \<Rightarrow> (a, []) | (a, Some r) \<Rightarrow> (a, r))"

definition colon_first :: "string \<Rightarrow> bool" where
  "colon_first s \<longleftrightarrow> CHR '':'' \<in> set (fst (cut_at (CHR ''/'') s))"

definition set_path :: "'a go_url \<Rightarrow> string \<Rightarrow> goerr + 'a go_url" where
  "set_path u rest = sbind (unescape encodePath rest) (\<lambda>path.
     Inr (u\<lparr>url_Path := path,
       url_rest := (url_rest u)\<lparr>RawPath := (if rest = escape encodePath path then [] else rest)\<rparr>\<rparr>))"

definition zero_url :: "'a authority \<Rightarrow> 'a go_url" where
  "zero_url au = \<lparr>url_Path = [], url_RawQuery = [],
     url_rest = \<lparr>Scheme = [], Opaque = [], Authority = au_none au, RawPath = [], ForceQuery = False, Fragment = []\<rparr>\<rparr>"

text \<open>\<open>parse(rawurl, false)\<close>\<close>

definition parse_hier :: "'a authority \<Rightarrow> 'a go_url \<Rightarrow> string \<Rightarrow> goerr + 'a go_url" where
  "parse_hier au u rest =
     (let scheme = Scheme (url_rest u) in
      if \<not> HasPrefix rest ''/'' \<and> scheme \<noteq> [] then Inr (u\<lparr>url_rest := (url_rest u)\<lparr>Opaque := rest\<rparr>\<rparr>)
      else if \<not> HasPrefix rest ''/'' \<and> colon_first rest
      then Inl (Errorf ''first path segment in URL cannot contain colon'')
      else if (scheme \<noteq> [] \<or> \<not> HasPrefix rest ''///'') \<and> HasPrefix rest ''//''
      then (case cut_at (CHR ''/'') (drop 2 rest) of (a, r) \<Rightarrow>
        sbind (au_parse au a) (\<lambda>x.
          set_path (u\<lparr>url_rest := (url_rest u)\<lparr>Authority := x\<rparr>\<rparr>) (case r of None \<Rightarrow> [] | Some p \<Rightarrow> CHR ''/'' # p)))
      else set_path u rest)"

definition parse :: "'a authority \<Rightarrow> string \<Rightarrow> goerr + 'a go_url" where
  "parse au raw =
     (if raw = ''*'' then Inr ((zero_url au)\<lparr>url_Path := ''*''\<rparr>)
      else sbind (getscheme raw [] raw) (\<lambda>(scheme, rest).
        let u = zero_url au; u = u\<lparr>url_rest := (url_rest u)\<lparr>Scheme := to_lower scheme\<rparr>\<rparr> in
        if rest \<noteq> [] \<and> last rest = CHR ''?'' \<and> length (filter (\<lambda>c. c = CHR ''?'') rest) = 1
        then parse_hier au (u\<lparr>url_rest := (url_rest u)\<lparr>ForceQuery := True\<rparr>\<rparr>) (butlast rest)
        else (case url_split (CHR ''?'') rest of (rest, query) \<Rightarrow> parse_hier au (u\<lparr>url_RawQuery := query\<rparr>) rest)))"

definition url_Parse :: "'a authority \<Rightarrow> string \<Rightarrow> goerr + 'a go_url" where
  "url_Parse au raw = (case url_split (CHR ''#'') raw of (s, frag) \<Rightarrow>
     (case parse au s of
        Inl e \<Rightarrow> Inl (Wrapped e (''parse '' @ s))
      | Inr u \<Rightarrow>
         (if frag = [] then Inr u
          else case unescape encodeFragment frag of
              Inl e \<Rightarrow> Inl (Wrapped e (''parse '' @ raw))
            | Inr f \<Rightarrow> Inr (u\<lparr>url_rest := (url_rest u)\<lparr>Fragment := f\<rparr>\<rparr>))))"

definition validEncodedPath :: "string \<Rightarrow> bool" where
  "validEncodedPath s \<longleftrightarrow> list_all (\<lambda>c. c \<in> set ''!$&()*+,;=:@[]%'' \<or> c = CHR 0x27 \<or> \<not> shouldEscape c encodePath) s"

definition EscapedPath :: "'a go_url \<Rightarrow> string" where
  "EscapedPath u =
     (if RawPath (url_rest u) \<noteq> [] \<and> validEncodedPath (RawPath (url_rest u)) \<and>
         unescape encodePath (RawPath (url_rest u)) = Inr (url_Path u)
      then RawPath (url_rest u)
      else if url_Path u = ''*'' then ''*'' else escape encodePath (url_Path u))"

definition url_String :: "'a authority \<Rightarrow> 'a go_url \<Rightarrow> string" where
  "url_String au u =
     (let r = url_rest u;
          head = (if Scheme r = [] then [] else Scheme r @ '':'');
          hier = (let auth = (if Scheme r \<noteq> [] \<or> au_host au (Authority r) \<or> au_user au (Authority r)
                     then ''//'' @ au_text au (Authority r) else []);
                   path = EscapedPath u;
                   slash = (if path \<noteq> [] \<and> hd path \<noteq> CHR ''/'' \<and> au_host au (Authority r) then ''/'' else []);
                   dot = (if head @ auth @ slash = [] \<and> colon_first path then ''./'' else [])
               in auth @ slash @ dot @ path)
      in head @ (if Opaque r \<noteq> [] then Opaque r else hier) @
         (if ForceQuery r \<or> url_RawQuery u \<noteq> [] then CHR ''?'' # url_RawQuery u else []) @
         (if Fragment r \<noteq> [] then CHR ''#'' # escape encodeFragment (Fragment r) else []))"

subsection \<open>Requests\<close>

definition http_NewRequest :: "'a authority \<Rightarrow> string \<Rightarrow> string \<Rightarrow> goerr + 'a url_parts request" where
  "http_NewRequest au http_method urlStr =
     (let m = (if http_method = [] then ''GET'' else http_method) in
      if \<not> list_all header_char m then Inl (Errorf (''net/http: invalid method '' @ [CHR 0x22] @ m @ [CHR 0x22]))
      else sbind (url_Parse au urlStr) (\<lambda>u. Inr \<lparr>req_Method = m, req_URL = u, req_Header = []\<rparr>))"

text \<open>The router takes the raw path of a url if it has one.\<close>

definition RoutePath :: "'a go_url \<Rightarrow> string" where
  "RoutePath u = (if RawPath (url_rest u) \<noteq> [] then RawPath (url_rest u) else url_Path u)"

text \<open>The libraries as an instance of the interface.\<close>

definition go_net :: "'a authority \<Rightarrow> 'a url_parts net" where
  "go_net au =
     \<lparr>net_Parse = url_Parse au, net_Query = (\<lambda>u. ParseQuery (url_RawQuery u)), net_Encode = Encode,
      net_String = url_String au, net_NewRequest = http_NewRequest au, net_RoutePath = RoutePath\<rparr>"

end
