(* ===== verification/Client.thy ===== *)
theory Client
  imports Go_Net Payloads
begin

section \<open>The client (\<open>line/client/client.go\<close>)\<close>

text \<open>
  The client turns an input into a \<open>POST\<close> to the endpoint of its type, decodes the response into
  the output and reports a status above 399 as an error. \<open>http.Client.Do\<close> is a parameter: the
  response (its status and its text) or a transport error.
\<close>

type_synonym ('u, 'w) transport = "'u request \<Rightarrow> string \<Rightarrow> 'w \<Rightarrow> 'w \<times> (goerr + text_response)"

record ('u, 'w) Client =
  ep :: "'u url"
  http_Do :: "('u, 'w) transport"

definition NewClient :: "'u net \<Rightarrow> ('u, 'w) transport \<Rightarrow> string \<Rightarrow> goerr + ('u, 'w) Client" where
  "NewClient net tr endpoint = (case net_Parse net endpoint of
     Inl e \<Rightarrow> Inl (Wrapped e ''failed to parse provided API endpoint'')
   | Inr u \<Rightarrow> Inr \<lparr>ep = u, http_Do = tr\<rparr>)"

text \<open>
  The value behind \<open>in interface{}\<close>: a pointer to one of the six inputs, or a value of another
  type, given by the text of its type and its JSON.
\<close>

datatype request_input =
    CreatePool_in CreatePoolInput
  | DisbandPool_in DisbandPoolInput
  | RegisterWorker_in RegisterWorkerInput
  | SendHeartbeat_in SendHeartbeatInput
  | ScheduleEval_in ScheduleEvalInput
  | CompleteAlloc_in CompleteAllocInput
  | Other_in string json

fun endpoint_of :: "request_input \<Rightarrow> goerr + string" where
  "endpoint_of (CreatePool_in _) = Inr ''CreatePool''"
| "endpoint_of (DisbandPool_in _) = Inr ''DisbandPool''"
| "endpoint_of (RegisterWorker_in _) = Inr ''RegisterWorker''"
| "endpoint_of (SendHeartbeat_in _) = Inr ''SendHeartbeat''"
| "endpoint_of (ScheduleEval_in _) = Inr ''ScheduleEval''"
| "endpoint_of (CompleteAlloc_in _) = Inr ''CompleteAlloc''"
| "endpoint_of (Other_in ty _) = Inl (Errorf (''no known endpoint for '' @ ty))"

fun encode_in :: "request_input \<Rightarrow> json" where
  "encode_in (CreatePool_in x) = json_of_empty x"
| "encode_in (DisbandPool_in x) = json_of_DisbandPoolInput x"
| "encode_in (RegisterWorker_in x) = json_of_RegisterWorkerInput x"
| "encode_in (SendHeartbeat_in x) = json_of_SendHeartbeatInput x"
| "encode_in (ScheduleEval_in x) = json_of_ScheduleEvalInput x"
| "encode_in (CompleteAlloc_in x) = json_of_CompleteAllocInput x"
| "encode_in (Other_in _ j) = j"

text \<open>
  \<open>doRequest\<close>: the response is decoded before its status is looked at, so a body that does not
  decode hides the status. The messages of the errors quote the whole text of the response; the
  code quotes what the decoder has read of it, a prefix if the response is long.
\<close>

definition quoted :: "string \<Rightarrow> string" where
  "quoted s = CHR 0x27 # s @ [CHR 0x27]"

definition doRequest ::
  "'u net \<Rightarrow> ('u, 'w) Client \<Rightarrow> request_input \<Rightarrow> (json \<Rightarrow> goerr + 'o) \<Rightarrow> ('w, 'o) prog" where
  "doRequest net c inp out_of_json =
     bnd (of_sum (endpoint_of inp)) (\<lambda>name.
     let loc = (ep c)\<lparr>url_Path := path_Join [url_Path (ep c), name]\<rparr> in
     bnd (wrapping ''failed to create HTTP request'' (of_sum (net_NewRequest net ''POST'' (net_String net loc)))) (\<lambda>req.
     bnd (wrapping ''failed to execute HTTP request'' (call (http_Do c req (json_Encode (encode_in inp))))) (\<lambda>resp.
     bnd (wrapping (''unable to decode response body: '' @ quoted (tr_text resp))
            (of_sum (json_Unmarshal out_of_json (json_Decode (tr_text resp))))) (\<lambda>out.
     if tr_status resp > 399
     then fails (Errorf (''unexpected response code '' @ quoted (int_text (int (tr_status resp))) @
            '' from server, url: '' @ quoted (net_String net loc) @
            '' response: '' @ quoted (tr_text resp)))
     else ret out))))"

text \<open>Every operation wraps the error of the request.\<close>

definition client_CreatePool :: "'u net \<Rightarrow> ('u, 'w) Client \<Rightarrow> CreatePoolInput \<Rightarrow> ('w, CreatePoolOutput) prog" where
  "client_CreatePool net c inp =
     wrapping ''failed to do HTTP request'' (doRequest net c (CreatePool_in inp) CreatePoolOutput_of_json)"

definition client_RegisterWorker ::
  "'u net \<Rightarrow> ('u, 'w) Client \<Rightarrow> RegisterWorkerInput \<Rightarrow> ('w, RegisterWorkerOutput) prog" where
  "client_RegisterWorker net c inp =
     wrapping ''failed to do HTTP request'' (doRequest net c (RegisterWorker_in inp) RegisterWorkerOutput_of_json)"

definition client_DisbandPool :: "'u net \<Rightarrow> ('u, 'w) Client \<Rightarrow> DisbandPoolInput \<Rightarrow> ('w, DisbandPoolOutput) prog" where
  "client_DisbandPool net c inp =
     wrapping ''failed to do HTTP request'' (doRequest net c (DisbandPool_in inp) empty_of_json)"

definition client_SendHeartbeat ::
  "'u net \<Rightarrow> ('u, 'w) Client \<Rightarrow> SendHeartbeatInput \<Rightarrow> ('w, SendHeartbeatOutput) prog" where
  "client_SendHeartbeat net c inp =
     wrapping ''failed to do HTTP request'' (doRequest net c (SendHeartbeat_in inp) empty_of_json)"

definition client_ScheduleEval ::
  "'u net \<Rightarrow> ('u, 'w) Client \<Rightarrow> ScheduleEvalInput \<Rightarrow> ('w, ScheduleEvalOutput) prog" where
  "client_ScheduleEval net c inp =
     wrapping ''failed to do HTTP request'' (doRequest net c (ScheduleEval_in inp) empty_of_json)"

definition client_CompleteAlloc ::
  "'u net \<Rightarrow> ('u, 'w) Client \<Rightarrow> CompleteAllocInput \<Rightarrow> ('w, CompleteAllocOutput) prog" where
  "client_CompleteAlloc net c inp =
     wrapping ''failed to do HTTP request'' (doRequest net c (CompleteAlloc_in inp) empty_of_json)"

lemmas client_ops =
  client_CreatePool_def client_RegisterWorker_def client_DisbandPool_def client_SendHeartbeat_def
  client_ScheduleEval_def client_CompleteAlloc_def

text \<open>
  \<open>ReceiveAllocs\<close> reads the queue of a worker; the first message that does not decode makes it
  fail. The messages stay in the queue, they are only hidden for a while.
\<close>

record ReceiveAllocsInput =
  WorkerQueueURL :: string
  MaxNumberOfMessages :: int64
  WaitTimeSeconds :: int64

definition ReceiveAllocs :: "'w services \<Rightarrow> ReceiveAllocsInput \<Rightarrow> ('w, client_Alloc list) prog" where
  "ReceiveAllocs svc inp =
     bnd (wrapping ''failed to receive allocs''
            (call (sqs_ReceiveMessage svc (WorkerQueueURL inp) None (Some (WaitTimeSeconds inp))
               (MaxNumberOfMessages inp)))) (\<lambda>msgs.
     wrapping ''unable to decode alloc message'' (of_sum (decode_all client_Alloc_of_json (map msg_Body msgs))))"

subsection \<open>What the client makes of a response\<close>

definition client_result :: "(json \<Rightarrow> goerr + 'o) \<Rightarrow> goerr + text_response \<Rightarrow> 'o option" where
  "client_result out_of_json r = (case r of
     Inl _ \<Rightarrow> None
   | Inr resp \<Rightarrow> (case json_Unmarshal out_of_json (json_Decode (tr_text resp)) of
       Inl _ \<Rightarrow> None | Inr out \<Rightarrow> if tr_status resp > 399 then None else Some out))"

lemma doRequest_result:
  assumes "endpoint_of inp = Inr name"
    and "net_NewRequest net ''POST''
           (net_String net ((ep c)\<lparr>url_Path := path_Join [url_Path (ep c), name]\<rparr>)) = Inr req"
    and "http_Do c req (json_Encode (encode_in inp)) w = (w', r)"
  shows "\<exists>e. wrapping m (doRequest net c inp out_of_json) w =
      (w', case client_result out_of_json r of Some out \<Rightarrow> Ret out | None \<Rightarrow> Fail e)"
  using assms
  by (auto simp: doRequest_def client_result_def prog_run Let_def split: sum.split)

end
