(* ===== verification/Front_Properties.thy ===== *)
theory Front_Properties
  imports Client Lambda Mux_Properties JSON_Text
begin

section \<open>Client, gateway and router together\<close>

text \<open>
  The way of a request from \<open>client.go\<close> through the API gateway and \<open>HandleGateway\<close> to the router
  and back. \<open>routes_plain\<close> states what \<open>net/url\<close> and \<open>net/http\<close> do with paths of unreserved
  characters; \<open>gateway_serves\<close> states the proxy integration of the API gateway.
\<close>

subsection \<open>What the libraries and the API gateway do\<close>

definition unreserved :: "char \<Rightarrow> bool" where
  "unreserved c \<longleftrightarrow> is_alnum c \<or> c \<in> set ''-_.~''"

definition plain_seg :: "string \<Rightarrow> bool" where
  "plain_seg c \<longleftrightarrow> plain_comp c \<and> list_all unreserved c"

definition abs_path :: "string list \<Rightarrow> string" where
  "abs_path cs = CHR ''/'' # Join (CHR ''/'') cs"

text \<open>
  \<open>url.Parse\<close> takes a plain path for the path; a request for the printed url, with its path
  replaced by a plain one and encoded query values added, is routed by that path.
\<close>

definition routes_plain :: "'u net \<Rightarrow> bool" where
  "routes_plain net \<longleftrightarrow> (\<forall>cs. list_all plain_seg cs \<longrightarrow> (\<exists>u. net_Parse net (abs_path cs) = Inr u \<and> url_Path u = abs_path cs \<and>
     (\<forall>ds q. list_all plain_seg ds \<longrightarrow> (\<exists>r.
        net_NewRequest net ''POST'' (net_String net (u\<lparr>url_Path := abs_path ds, url_RawQuery := net_Encode net q\<rparr>)) = Inr r \<and>
        req_Method r = ''POST'' \<and> net_RoutePath net (req_URL r) = abs_path ds))))"

text \<open>A request for the client's endpoint with a plain path is routed by that path.\<close>

definition endpoint_routes :: "'u net \<Rightarrow> ('u, 'w) Client \<Rightarrow> bool" where
  "endpoint_routes net c \<longleftrightarrow> (\<forall>cs. list_all plain_seg cs \<longrightarrow> (\<exists>r.
     net_NewRequest net ''POST'' (net_String net ((ep c)\<lparr>url_Path := abs_path cs\<rparr>)) = Inr r \<and>
     req_Method r = ''POST'' \<and> net_RoutePath net (req_URL r) = abs_path cs))"

text \<open>
  The API gateway drops the name of the stage, the first \<open>k\<close> components of the path, and hands the
  method, the rest of the path and the text of the body to the function. It passes the answer on; a function
  that failed or crashed gives a transport error or a response with a status above 399.
\<close>

definition gateway_serves ::
  "'u net \<Rightarrow> Conf \<Rightarrow> 'w services \<Rightarrow> ('u, 'w) Client \<Rightarrow> nat \<Rightarrow> bool" where
  "gateway_serves net conf svc c k \<longleftrightarrow>
     (\<forall>req cs t w. list_all plain_seg cs \<longrightarrow> net_RoutePath net (req_URL req) = abs_path cs \<longrightarrow>
       (\<exists>ev rq x. GatewayRequest_of_json ev = Inr rq \<and> HTTPMethod rq = req_Method req \<and>
          gw_Path rq = abs_path (drop k cs) \<and> gw_Body rq = t \<and>
          http_Do c req t w = (fst (HandleGateway net conf svc ev w), x) \<and>
          (case snd (HandleGateway net conf svc ev w) of
             Ret g \<Rightarrow> x = Inr \<lparr>tr_status = gr_StatusCode g, tr_text = gr_Body g\<rparr>
           | _ \<Rightarrow> (\<forall>resp. x = Inr resp \<longrightarrow> tr_status resp > 399))))"

subsection \<open>The operation behind an input\<close>

fun operation :: "Conf \<Rightarrow> 'w services \<Rightarrow> request_input \<Rightarrow> body \<Rightarrow> ('w, json) prog" where
  "operation conf svc (CreatePool_in _) b = CreatePool conf svc b"
| "operation conf svc (DisbandPool_in _) b = DisbandPool conf svc b"
| "operation conf svc (RegisterWorker_in _) b = RegisterWorker conf svc b"
| "operation conf svc (SendHeartbeat_in _) b = SendHeartbeat conf svc b"
| "operation conf svc (ScheduleEval_in _) b = ScheduleEval conf svc b"
| "operation conf svc (CompleteAlloc_in _) b = CompleteAlloc conf svc b"
| "operation conf svc (Other_in ty _) b = fails (Errorf ty)"

lemma Mux_operation:
  assumes "endpoint_of inp = Inr name"
  shows "Mux_text conf svc ''POST'' (abs_path [name]) t = errh_text (operation conf svc inp (json_Decode t))"
  using assms by (cases inp) (auto simp: Mux_text_def known_methods_def route_def abs_path_def)

lemma plain_endpoint: "endpoint_of inp = Inr name \<Longrightarrow> plain_seg name"
  by (cases inp) (auto simp: plain_seg_def plain_comp_def unreserved_def is_alnum_def)

lemma errh_text_eq: "errh_text fn w = (case fn w of
    (w', Ret out) \<Rightarrow> (w', Ret \<lparr>tr_status = 200, tr_text = encodeOutput out\<rparr>)
  | (w', Fail e) \<Rightarrow> (w', Ret \<lparr>tr_status = 500, tr_text = json_Encode (message_json (Error_text e))\<rparr>)
  | (w', Panic) \<Rightarrow> (w', Panic))"
  by (simp add: errh_text_def on_err_def bnd_def ret_def split: prod.split outcome.split)

subsection \<open>The gateway adapter on a plain path\<close>

lemma plain_segD: "list_all plain_seg cs \<Longrightarrow> \<forall>c \<in> set cs. plain_comp c"
  by (auto simp: list_all_iff plain_seg_def)

lemma strip_base_abs:
  assumes "list_all plain_seg cs" and "nat (sint n) \<le> length cs" and "0 \<le> sint n" and "sint n < 2 ^ 63 - 1"
  shows "strip_base n (abs_path cs) = abs_path (drop (nat (sint n)) cs)"
proof (cases "sint n = 0")
  case True
  then show ?thesis by (simp add: strip_base_def)
next
  case False
  with assms strip_base_plain [of "take (nat (sint n)) cs" "drop (nat (sint n)) cs" n] plain_segD [OF assms(1)]
  show ?thesis by (simp add: abs_path_def)
qed

lemma HandleGateway_plain:
  assumes net: "routes_plain net" and rq: "GatewayRequest_of_json ev = Inr rq"
    and "HTTPMethod rq = ''POST''" and "gw_Path rq = abs_path cs" and cs: "list_all plain_seg cs"
    and n: "nat (sint (StripBaseMappings conf)) \<le> length cs" "0 \<le> sint (StripBaseMappings conf)"
      "sint (StripBaseMappings conf) < 2 ^ 63 - 1"
  shows "HandleGateway net conf svc ev w =
    (case Mux_text conf svc ''POST'' (abs_path (drop (nat (sint (StripBaseMappings conf))) cs)) (gw_Body rq) w of
       (w', Ret r) \<Rightarrow> (w', Ret \<lparr>gr_StatusCode = tr_status r, gr_Body = tr_text r, gr_Headers = Map.empty\<rparr>)
     | (w', Fail e) \<Rightarrow> (w', Fail e) | (w', Panic) \<Rightarrow> (w', Panic))"
proof -
  have ds: "list_all plain_seg (drop (nat (sint (StripBaseMappings conf))) cs)"
    using cs by (auto simp: list_all_iff dest: in_set_dropD)
  obtain u where u: "net_Parse net (abs_path cs) = Inr u" "url_Path u = abs_path cs"
    and r: "\<And>q. \<exists>r. net_NewRequest net ''POST'' (net_String net
        (u\<lparr>url_Path := abs_path (drop (nat (sint (StripBaseMappings conf))) cs), url_RawQuery := net_Encode net q\<rparr>)) = Inr r \<and>
        req_Method r = ''POST'' \<and> net_RoutePath net (req_URL r) = abs_path (drop (nat (sint (StripBaseMappings conf))) cs)"
    using net cs ds unfolding routes_plain_def by blast
  define q where "q = set_params (QueryStringParameters rq)
      (net_Query net (u\<lparr>url_Path := abs_path (drop (nat (sint (StripBaseMappings conf))) cs)\<rparr>))"
  obtain r where "net_NewRequest net ''POST'' (net_String net
        (u\<lparr>url_Path := abs_path (drop (nat (sint (StripBaseMappings conf))) cs), url_RawQuery := net_Encode net q\<rparr>)) = Inr r"
      "req_Method r = ''POST''" "net_RoutePath net (req_URL r) = abs_path (drop (nat (sint (StripBaseMappings conf))) cs)"
    using r by blast
  then show ?thesis
    using rq assms(3,4) u strip_base_abs [OF cs n]
    by (simp add: HandleGateway_def q_def [symmetric] Let_def serve_def gateway_response_def prog_run
        split: prod.split outcome.split)
qed
lemma client_request:
  assumes e: "endpoint_of inp = Inr name" and base: "list_all plain_seg base" and ep: "url_Path (ep c) = abs_path base"
    and routes: "endpoint_routes net c"
  shows "\<exists>req. net_NewRequest net ''POST''
        (net_String net ((ep c)\<lparr>url_Path := path_Join [url_Path (ep c), name]\<rparr>)) = Inr req \<and>
      req_Method req = ''POST'' \<and> net_RoutePath net (req_URL req) = abs_path (base @ [name])"
proof -
  have "path_Join [url_Path (ep c), name] = abs_path (base @ [name])"
    using path_Join_base [OF plain_segD [OF base], of name] plain_endpoint [OF e]
    by (simp add: ep abs_path_def plain_seg_def)
  moreover have "list_all plain_seg (base @ [name])" using base plain_endpoint [OF e] by simp
  ultimately show ?thesis using routes by (simp add: endpoint_routes_def)
qed

text \<open>The client's result for what the transport hands back of an operation's outcome.\<close>

lemma client_result_errh:
  assumes "case errh_text fn w of (w', Ret r) \<Rightarrow> x = Inr r | (w', _) \<Rightarrow> (\<forall>resp. x = Inr resp \<longrightarrow> tr_status resp > 399)"
  shows "client_result out_of_json x = Some out \<longleftrightarrow> (\<exists>j. snd (fn w) = Ret j \<and> json_Unmarshal out_of_json (json_Decode (encodeOutput j)) = Inr out)"
proof (cases "fn w")
  case (Pair w' r)
  then show ?thesis
  proof (cases r)
    case (Ret j)
    with Pair assms show ?thesis
      by (cases "json_Unmarshal out_of_json (json_Decode (encodeOutput j))") (simp_all add: errh_text_eq client_result_def)
  next
    case (Fail e)
    with Pair assms show ?thesis
      by (simp add: errh_text_eq client_result_def split: sum.split)
  next
    case Panic
    with Pair assms have bad: "\<forall>resp. x = Inr resp \<longrightarrow> 399 < tr_status resp" by (simp only: errh_text_eq prod.case outcome.case)
    have "client_result out_of_json x = None"
    proof (cases x)
      case (Inr resp)
      with bad have "399 < tr_status resp" by blast
      then show ?thesis by (simp add: Inr client_result_def split: sum.split)
    qed (simp add: client_result_def)
    with Pair Panic show ?thesis by simp
  qed
qed

text \<open>
  A request through the API gateway, the adapter and the router, for any network library that routes
  plain paths.
\<close>

lemma client_through:
  assumes "endpoint_of inp = Inr name"
    and "url_Path (ep c) = abs_path base" and "list_all plain_seg base" and "endpoint_routes net c"
    and "gateway_serves net conf svc c k" and "routes_plain net"
    and "length base = k + nat (sint (StripBaseMappings conf))"
    and "0 \<le> sint (StripBaseMappings conf)" and "sint (StripBaseMappings conf) < 2 ^ 63 - 1"
    and "json_Decode (json_Encode (encode_in inp)) = Some (encode_in inp)"
  shows "\<exists>x. wrapping ''failed to do HTTP request'' (doRequest net c inp out_of_json) w =
      (fst (operation conf svc inp (Some (encode_in inp)) w), x) \<and>
    (\<forall>out. x = Ret out \<longleftrightarrow>
      (\<exists>j. snd (operation conf svc inp (Some (encode_in inp)) w) = Ret j \<and>
         json_Unmarshal out_of_json (json_Decode (encodeOutput j)) = Inr out)) \<and>
    x \<noteq> Panic"
proof -
  let ?b = "Some (encode_in inp)" and ?n = "nat (sint (StripBaseMappings conf))"
  obtain req where req: "net_NewRequest net ''POST''
        (net_String net ((ep c)\<lparr>url_Path := path_Join [url_Path (ep c), name]\<rparr>)) = Inr req"
      "req_Method req = ''POST''" "net_RoutePath net (req_URL req) = abs_path (base @ [name])"
    using client_request [OF assms(1,3,2,4)] by blast
  have plain: "list_all plain_seg (base @ [name])" using assms(1,3) plain_endpoint by simp
  obtain ev rq x where gw: "GatewayRequest_of_json ev = Inr rq" "HTTPMethod rq = ''POST''"
      "gw_Path rq = abs_path (drop k (base @ [name]))" "gw_Body rq = json_Encode (encode_in inp)"
      "http_Do c req (json_Encode (encode_in inp)) w = (fst (HandleGateway net conf svc ev w), x)"
      "case snd (HandleGateway net conf svc ev w) of
         Ret g \<Rightarrow> x = Inr \<lparr>tr_status = gr_StatusCode g, tr_text = gr_Body g\<rparr>
       | _ \<Rightarrow> (\<forall>resp. x = Inr resp \<longrightarrow> tr_status resp > 399)"
    using assms(5) [unfolded gateway_serves_def, rule_format, OF plain req(3), of "json_Encode (encode_in inp)" w] unfolding req(2)
    by (elim exE conjE) (rule that)
  have "list_all plain_seg (drop k (base @ [name]))"
    using plain by (auto simp: list_all_iff dest: in_set_dropD)
  moreover have "?n \<le> length (drop k (base @ [name]))" "drop ?n (drop k (base @ [name])) = [name]"
    using assms(7) by simp_all
  ultimately have run: "HandleGateway net conf svc ev w = (case errh_text (operation conf svc inp ?b) w of
       (w', Ret r) \<Rightarrow> (w', Ret \<lparr>gr_StatusCode = tr_status r, gr_Body = tr_text r, gr_Headers = Map.empty\<rparr>)
     | (w', Fail e) \<Rightarrow> (w', Fail e) | (w', Panic) \<Rightarrow> (w', Panic))"
    using HandleGateway_plain [OF assms(6) gw(1,2,3) _ _ assms(8,9), where svc = svc and w = w]
    by (simp add: Mux_operation [OF assms(1)] gw(4) assms(10))
  obtain e where "wrapping ''failed to do HTTP request'' (doRequest net c inp out_of_json) w =
      (fst (HandleGateway net conf svc ev w),
       case client_result out_of_json x of Some out \<Rightarrow> Ret out | None \<Rightarrow> Fail e)"
    using doRequest_result [OF assms(1) req(1) gw(5)] by blast
  moreover have "fst (HandleGateway net conf svc ev w) = fst (operation conf svc inp ?b w)"
    by (simp add: run errh_text_eq split: prod.split outcome.split)
  moreover have "client_result out_of_json x = Some out \<longleftrightarrow>
      (\<exists>j. snd (operation conf svc inp ?b w) = Ret j \<and>
        json_Unmarshal out_of_json (json_Decode (encodeOutput j)) = Inr out)" for out
    using gw(6) by (intro client_result_errh) (auto simp: run split: prod.splits outcome.splits)
  ultimately show ?thesis
    by (auto split: option.splits)
qed
text \<open>
  A network library that keeps the text of a url as its path, and an API gateway in front of the
  demonstration deployment: its event holds the text of the request as the body.
\<close>

definition demo_net :: "unit net" where
  "demo_net = \<lparr>net_Parse = (\<lambda>s. Inr \<lparr>url_Path = s, url_RawQuery = [], url_rest = ()\<rparr>),
     net_Query = (\<lambda>u. []), net_Encode = (\<lambda>q. []), net_String = url_Path,
     net_NewRequest = (\<lambda>m s. Inr \<lparr>req_Method = m,
        req_URL = \<lparr>url_Path = s, url_RawQuery = [], url_rest = ()\<rparr>, req_Header = []\<rparr>),
     net_RoutePath = url_Path\<rparr>"

definition demo_event :: "string \<Rightarrow> string \<Rightarrow> string \<Rightarrow> json" where
  "demo_event m p b = JObj [(''httpMethod'', JStr m), (''path'', JStr p), (''body'', JStr b), (''headers'', JNull)]"

text \<open>The path without its first component.\<close>

definition unstage :: "string \<Rightarrow> string" where
  "unstage p = abs_path (drop 1 (Split (CHR ''/'') (drop 1 p)))"

definition demo_transport :: "'u net \<Rightarrow> ('u, mem) transport" where
  "demo_transport net req t w =
     (case HandleGateway net demo demo_svc
         (demo_event (req_Method req) (unstage (net_RoutePath net (req_URL req))) t) w of
        (w', Ret g) \<Rightarrow> (w', Inr \<lparr>tr_status = gr_StatusCode g, tr_text = gr_Body g\<rparr>)
      | (w', _) \<Rightarrow> (w', Inl (OtherErr ''EOF'')))"

lemma unstage_abs: "list_all plain_seg cs \<Longrightarrow> unstage (abs_path cs) = abs_path (drop 1 cs)"
  using Join_slash_plain [OF plain_segD, of cs] by (cases "cs = []") (simp_all add: unstage_def abs_path_def)

text \<open>The keys of an event differ from the names of the fields in the case of letters only.\<close>

lemma demo_fields:
  "find_field [''HTTPMethod'', ''Headers'', ''Resource'', ''PathParameters'', ''Path'', ''QueryStringParameters'',
      ''Body'', ''IsBase64Encoded'', ''StageVariables''] ''httpMethod'' = Some ''HTTPMethod''"
  "find_field [''HTTPMethod'', ''Headers'', ''Resource'', ''PathParameters'', ''Path'', ''QueryStringParameters'',
      ''Body'', ''IsBase64Encoded'', ''StageVariables''] ''path'' = Some ''Path''"
  "find_field [''HTTPMethod'', ''Headers'', ''Resource'', ''PathParameters'', ''Path'', ''QueryStringParameters'',
      ''Body'', ''IsBase64Encoded'', ''StageVariables''] ''body'' = Some ''Body''"
  "find_field [''HTTPMethod'', ''Headers'', ''Resource'', ''PathParameters'', ''Path'', ''QueryStringParameters'',
      ''Body'', ''IsBase64Encoded'', ''StageVariables''] ''headers'' = Some ''Headers''"
  by code_simp+

lemma demo_event_decodes:
  "GatewayRequest_of_json (demo_event m p b) = Inr
     \<lparr>HTTPMethod = m, gw_Headers = [], Resource = [], PathParameters = [], gw_Path = p,
      QueryStringParameters = [], gw_Body = b, IsBase64Encoded = False, StageVariables = []\<rparr>"
  by (simp add: GatewayRequest_of_json_def demo_event_def demo_fields)

lemma demo_gateway:
  assumes "http_Do c = demo_transport net"
  shows "gateway_serves net demo demo_svc c 1"
proof -
  have "\<exists>ev rq x. GatewayRequest_of_json ev = Inr rq \<and> HTTPMethod rq = req_Method req \<and>
          gw_Path rq = abs_path (drop 1 cs) \<and> gw_Body rq = t \<and>
          http_Do c req t w = (fst (HandleGateway net demo demo_svc ev w), x) \<and>
          (case snd (HandleGateway net demo demo_svc ev w) of
             Ret g \<Rightarrow> x = Inr \<lparr>tr_status = gr_StatusCode g, tr_text = gr_Body g\<rparr>
           | _ \<Rightarrow> (\<forall>resp. x = Inr resp \<longrightarrow> tr_status resp > 399))"
    if "list_all plain_seg cs" "net_RoutePath net (req_URL req) = abs_path cs" for req cs w t
    by (rule exI [of _ "demo_event (req_Method req) (abs_path (drop 1 cs)) t"])
       (auto simp: demo_event_decodes that unstage_abs assms demo_transport_def split: prod.splits outcome.splits)
  then show ?thesis by (simp add: gateway_serves_def)
qed

subsection \<open>Base path mappings\<close>

theorem strip_base_drops:
  assumes "list_all plain_seg cs" and "0 \<le> sint n" and "sint n < 2 ^ 63 - 1"
  shows "strip_base n (abs_path cs) = abs_path (drop (nat (sint n)) cs)"
proof (cases "nat (sint n) \<le> length cs")
  case True
  with assms show ?thesis by (intro strip_base_abs)
next
  case False
  then have n: "sint n > 0" by simp
  have "length (Split (CHR ''/'') (TrimLeft (CHR ''/'') (abs_path cs))) \<le> nat (sint n)"
  proof (cases "cs = []")
    case True
    with n show ?thesis by (simp add: abs_path_def TrimLeft_def)
  next
    case ne: False
    with strip_base_plain [of cs "[]" 1] Join_slash_plain [OF plain_segD [OF assms(1)] ne] plain_segD [OF assms(1)]
    have "TrimLeft (CHR ''/'') (abs_path cs) = Join (CHR ''/'') cs"
      by (cases cs; cases "hd cs"; cases "tl cs")
         (auto simp: abs_path_def TrimLeft_def plain_comp_def)
    with False Join_slash_plain [OF plain_segD [OF assms(1)] ne] show ?thesis by simp
  qed
  with False strip_base_eq [OF n assms(3)] show ?thesis by (simp add: abs_path_def)
qed

theorem strip_base_drops_witness:
  "strip_base 1 (abs_path [''v1'', ''CreatePool'']) = abs_path [''CreatePool'']"
proof -
  have "list_all plain_seg [''v1'', ''CreatePool'']"
    by (simp add: plain_seg_def plain_comp_def unreserved_def is_alnum_def)
  from strip_base_drops [OF this, of 1] show ?thesis by simp
qed

subsection \<open>The choice of the handler\<close>

theorem handle_dispatch:
  assumes "mset iteration = mset (Handlers net conf svc)"
  shows "Handle iteration ev (p @ ''-schedule'') w = schedule_handler conf svc ev w \<and>
    Handle iteration ev (p @ ''-release'') w = release_handler conf svc ev w \<and>
    Handle iteration ev (p @ ''-gateway'') w = gateway_handler net conf svc ev w \<and>
    ((\<forall>a \<in> set handler_suffixes. \<not> HasSuffix arn a) \<longrightarrow>
       Handle iteration ev arn w = Some (w, Returned (Fail (no_handler (map fst iteration) arn))))"
proof -
  have it: "set iteration = set (Handlers net conf svc)"
    using assms by (rule mset_eq_setD)
  show ?thesis
    by (intro conjI impI Handle_dispatches [OF it])
qed

theorem handle_dispatch_witness:
  "Handle (rev (Handlers demo_net demo demo_svc)) JNull ''arn:line-gateway'' demo_world =
     gateway_handler demo_net demo demo_svc JNull demo_world"
  using handle_dispatch [of "rev (Handlers demo_net demo demo_svc)" demo_net demo demo_svc JNull "''arn:line''"]
  by simp

subsection \<open>Allocations on their way to a worker\<close>

theorem receive_allocs_decodes:
  assumes "sqs_ReceiveMessage svc (WorkerQueueURL inp) None (Some (WaitTimeSeconds inp)) (MaxNumberOfMessages inp) w =
      (w', Inr msgs)"
    and "map msg_Body msgs = map (\<lambda>(pool, alloc). alloc_message pool alloc) sent"
  shows "ReceiveAllocs svc inp w = (w', Ret (map (\<lambda>(pool, alloc).
      \<lparr>ca_PoolID = pool_PoolID pool, ca_AllocID = alloc_AllocID alloc, ca_WorkerID = alloc_WorkerID alloc\<rparr>) sent))"
proof -
  have "map msg_Body msgs = map (\<lambda>x. Some (json_of_client_Alloc x)) (map (\<lambda>(pool, alloc).
      \<lparr>ca_PoolID = pool_PoolID pool, ca_AllocID = alloc_AllocID alloc, ca_WorkerID = alloc_WorkerID alloc\<rparr>) sent)"
    unfolding assms(2) by (simp add: alloc_message_def case_prod_unfold)
  then have "decode_all client_Alloc_of_json (map msg_Body msgs) = Inr (map (\<lambda>(pool, alloc).
      \<lparr>ca_PoolID = pool_PoolID pool, ca_AllocID = alloc_AllocID alloc, ca_WorkerID = alloc_WorkerID alloc\<rparr>) sent)"
    by (simp only: client_Alloc_json.decode_all_to)
  then show ?thesis
    unfolding ReceiveAllocs_def prog_run assms(1) by simp
qed
text \<open>A world in which a worker's queue holds the message for an allocation.\<close>

definition told_world :: mem where
  "told_world = demo_world\<lparr>m_queues := [''wq'' \<mapsto> [alloc_message demo_pool demo_alloc]]\<rparr>"

theorem receive_allocs_decodes_witness:
  "\<exists>w'. ReceiveAllocs demo_svc \<lparr>WorkerQueueURL = ''wq'', MaxNumberOfMessages = 1, WaitTimeSeconds = 0\<rparr> told_world =
     (w', Ret [\<lparr>ca_PoolID = ''p'', ca_AllocID = alloc_AllocID demo_alloc, ca_WorkerID = alloc_WorkerID demo_alloc\<rparr>])"
proof -
  have "\<exists>w' h. sqs_ReceiveMessage demo_svc ''wq'' None (Some 0) 1 told_world =
      (w', Inr [\<lparr>msg_ReceiptHandle = h, msg_Body = alloc_message demo_pool demo_alloc\<rparr>])"
    by (simp add: told_world_def mem_run)
  then obtain w' h where "sqs_ReceiveMessage demo_svc ''wq'' None (Some 0) 1 told_world =
      (w', Inr [\<lparr>msg_ReceiptHandle = h, msg_Body = alloc_message demo_pool demo_alloc\<rparr>])"
    by blast
  then show ?thesis
    using receive_allocs_decodes [of demo_svc "\<lparr>WorkerQueueURL = ''wq'', MaxNumberOfMessages = 1, WaitTimeSeconds = 0\<rparr>"
        told_world w' "[\<lparr>msg_ReceiptHandle = h, msg_Body = alloc_message demo_pool demo_alloc\<rparr>]" "[(demo_pool, demo_alloc)]"]
    by (simp add: demo_pool_def)
qed

end
