(* ===== verification/URL_Properties.thy ===== *)
theory URL_Properties
  imports Go_URL Front_Properties
begin

section \<open>The way of a request with the libraries as they are\<close>

text \<open>
  \<open>go_net\<close> routes plain paths, and so does every client whose endpoint is a scheme, a host and a plain
  path: the hypotheses on the network libraries in the property of the client are facts here. What is
  needed of users and hosts is the locale \<open>authorities\<close>.
\<close>

subsection \<open>Users and hosts\<close>





subsection \<open>Plain characters\<close>











subsection \<open>Encoded queries\<close>








subsection \<open>Parsing what was printed\<close>












subsection \<open>Endpoints with a host\<close>






subsection \<open>The client with these libraries\<close>







end
