(* ===== verification/Agent.thy ===== *)
theory Agent
  imports Go_Strings Payloads "HOL-Library.Signed_Division"
begin

section \<open>The worker agent (\<open>work/main.go\<close>): data and pure parts\<close>

text \<open>
  The agent runs on a worker: it takes tasks from a queue, starts a container for each with the
  docker command line, polls \<open>docker ps\<close>, ships the output of the containers to a log service and
  reports their states to a workflow service. This theory holds its data, the parsers of the lines
  it reads and the arguments and messages it prints. SHA-1 and the parsing of times are parameters
  (\<open>sha1\<close>: the hexadecimal digest of a string).
\<close>

subsection \<open>Data\<close>

record TaskContainer =
  tc_cid :: string
  tc_tid :: string
  tc_pid :: string
  tc_token :: string

record TaskStatus =
  ts_container :: TaskContainer
  ts_code :: int64
  ts_err :: "goerr option"
  ts_mounts :: "string list"

text \<open>The time of a log event is its \<open>UnixNano\<close>.\<close>

record TaskLogEvent =
  le_container :: TaskContainer
  le_t :: int64
  le_msg :: string

record work_Conf =
  w_Deployment :: string
  w_StateMachineARN :: string
  w_RunActivityARN :: string
  w_WorkersTableName :: string
  w_WorkersTableCapIdx :: string
  w_AWSAccessKeyID :: string
  w_AWSSecretAccessKey :: string
  w_AWSRegion :: string
  w_PoolQueueURL :: string

record Agent =
  ag_LogGroupName :: string
  ag_WorkerID :: string
  ag_QueueURL :: string

definition new_agent :: "work_Conf \<Rightarrow> Agent" where
  "new_agent conf = \<lparr>ag_LogGroupName = ''foobar'', ag_WorkerID = [], ag_QueueURL = w_PoolQueueURL conf\<rparr>"

text \<open>\<open>cap := 5\<close> and \<open>bufSize := 30\<close>\<close>

definition agent_cap :: nat where "agent_cap = 5"
definition bufSize :: nat where "bufSize = 30"

subsection \<open>The lines of \<open>docker ps\<close>\<close>

definition tab :: char where "tab = CHR 0x09"

definition is_running :: "string \<Rightarrow> bool" where
  "is_running s \<longleftrightarrow> HasPrefix s ''Up'' \<or> HasPrefix s ''Restarting'' \<or> s = ''Removal In Progress'' \<or> s = ''Created''"

definition exit_status :: "string \<Rightarrow> int64 \<times> goerr option" where
  "exit_status s =
     (let right = TrimPrefix s ''Exited ('';
          lefts = SplitN (CHR '')'') 2 right
      in if length lefts \<noteq> 2 then (255, Some (Errorf (''unexpected exited format: '' @ s)))
         else case Atoi (lefts ! 0) of
             Inl e \<Rightarrow> (255, Some (Errorf (''unexpected status code, not a number: '' @ s)))
           | Inr code \<Rightarrow> (code, None))"

definition container_status :: "string \<Rightarrow> int64 \<times> goerr option" where
  "container_status s =
     (if is_running s then (- 1, None)
      else if s = ''Dead'' then (255, Some (Errorf ''failed to remove container''))
      else if HasPrefix s ''Exited'' then exit_status s
      else (255, Some (Errorf (''unexpected status: '' @ s))))"

text \<open>A line has six fields: container, status, token, project, task and mounts.\<close>

definition ps_line :: "string \<Rightarrow> TaskStatus option" where
  "ps_line line =
     (let fields = SplitN tab 6 line
      in if length fields \<noteq> 6 then None
         else case container_status (fields ! 1) of (code, err) \<Rightarrow>
           Some \<lparr>ts_container = \<lparr>tc_cid = fields ! 0, tc_tid = fields ! 4, tc_pid = fields ! 3, tc_token = fields ! 2\<rparr>,
                 ts_code = code, ts_err = err, ts_mounts = Split (CHR '','') (fields ! 5)\<rparr>)"

subsection \<open>The lines of \<open>docker logs -t\<close>\<close>

text \<open>A line is a time stamp, a space and the output; \<open>parse_time\<close> is \<open>time.Parse\<close> with \<open>UnixNano\<close>.\<close>

definition log_line :: "(string \<Rightarrow> goerr + int64) \<Rightarrow> TaskContainer \<Rightarrow> string \<Rightarrow> TaskLogEvent option" where
  "log_line parse_time tc line =
     (let fields = SplitN (CHR '' '') 2 line
      in if length fields < 2 then None
         else if fields ! 1 = [] then None
         else case parse_time (fields ! 0) of
             Inl e \<Rightarrow> None
           | Inr t \<Rightarrow> Some \<lparr>le_container = tc, le_t = t, le_msg = fields ! 1\<rparr>)"

definition scan_logs :: "(string \<Rightarrow> goerr + int64) \<Rightarrow> TaskContainer \<Rightarrow> string list \<Rightarrow> TaskLogEvent list" where
  "scan_logs parse_time tc ls = List.map_filter (log_line parse_time tc) ls"

text \<open>
  \<open>cloudwatchlogs.InputLogEvent\<close>: the time in milliseconds (Go's integer division rounds towards
  zero) and the message.
\<close>

record InputLogEvent =
  Timestamp :: int64
  Message :: string

definition go_div :: "int64 \<Rightarrow> int \<Rightarrow> int64" where
  "go_div a b = word_of_int (sint a sdiv b)"

definition input_log_event :: "TaskLogEvent \<Rightarrow> InputLogEvent" where
  "input_log_event ev =
     \<lparr>Timestamp = go_div (go_div (le_t ev) 1000) 1000,
      Message = ''{\"t\": '' @ int_text (sint (le_t ev)) @ '', \"line\": \"'' @ le_msg ev @ ''\"}''\<rparr>"

definition stream_name :: "Agent \<Rightarrow> TaskContainer \<Rightarrow> string" where
  "stream_name worker tc = tc_tid tc @ ''-'' @ ag_WorkerID worker @ ''-'' @ tc_cid tc"

subsection \<open>Tasks\<close>

text \<open>
  \<open>payload.Task\<close>, with the fields that the agent reads; the decoder checks the others.
  \<open>bad_time\<close> is the error of decoding a document into a \<open>time.Time\<close>.
\<close>

record Task =
  task_ProjectID :: string
  task_TaskID :: string
  task_InputID :: string
  task_Image :: string
  task_Environment :: "(string \<times> string) list"
  task_ActivityToken :: string

definition Task_of_json :: "(json \<Rightarrow> goerr option) \<Rightarrow> json \<Rightarrow> goerr + Task" where
  "Task_of_json bad_time = decode_struct
     [''project_id'', ''task_id'', ''input_id'', ''output_id'', ''worker_id'', ''image'', ''environment'',
      ''created_at'', ''activity_token'']
     (\<lambda>f j x.
        if f = ''project_id'' then sbind (json_string j (task_ProjectID x)) (\<lambda>s. Inr (x\<lparr>task_ProjectID := s\<rparr>))
        else if f = ''task_id'' then sbind (json_string j (task_TaskID x)) (\<lambda>s. Inr (x\<lparr>task_TaskID := s\<rparr>))
        else if f = ''input_id'' then sbind (json_string j (task_InputID x)) (\<lambda>s. Inr (x\<lparr>task_InputID := s\<rparr>))
        else if f = ''image'' then sbind (json_string j (task_Image x)) (\<lambda>s. Inr (x\<lparr>task_Image := s\<rparr>))
        else if f = ''environment'' then sbind (json_map j (task_Environment x)) (\<lambda>m. Inr (x\<lparr>task_Environment := m\<rparr>))
        else if f = ''activity_token'' then sbind (json_string j (task_ActivityToken x)) (\<lambda>s. Inr (x\<lparr>task_ActivityToken := s\<rparr>))
        else if f = ''created_at'' then (case bad_time j of Some e \<Rightarrow> Inl e | None \<Rightarrow> Inr x)
        else sbind (json_string j []) (\<lambda>s. Inr x))
     \<lparr>task_ProjectID = [], task_TaskID = [], task_InputID = [], task_Image = [], task_Environment = [],
      task_ActivityToken = []\<rparr>"

text \<open>The arguments of \<open>docker run\<close>; the environment comes in the order of its iteration.\<close>

definition run_args :: "(string \<Rightarrow> string) \<Rightarrow> Task \<Rightarrow> string list" where
  "run_args sha1 task =
     [''run'', ''-d'',
      ''--name=task-'' @ sha1 (task_ActivityToken task),
      ''--label=nerd-project='' @ task_ProjectID task,
      ''--label=nerd-task='' @ task_TaskID task,
      ''--label=nerd-token='' @ task_ActivityToken task,
      ''-v=/in'', ''-v=/out'',
      ''-e=NERD_PROJECT_ID='' @ task_ProjectID task,
      ''-e=NERD_TASK_ID='' @ task_TaskID task] @
     (if task_InputID task \<noteq> [] then [''-e=NERD_DATASET_INPUT='' @ task_InputID task] else []) @
     map (\<lambda>(key, val). ''-e='' @ key @ ''='' @ val) (task_Environment task) @
     [task_Image task]"

definition ps_args :: "string list" where
  "ps_args =
     [''ps'', ''-a'', ''--no-trunc'', ''--filter=label=nerd-token'',
      ''--format={{.ID}}'' @ [tab] @ ''{{.Status}}'' @ [tab] @ ''{{.Label \"nerd-token\"}}'' @ [tab] @
      ''{{.Label \"nerd-project\"}}'' @ [tab] @ ''{{.Label \"nerd-task\"}}'' @ [tab] @ ''{{.Mounts}}'']"

subsection \<open>Reading the line of a container\<close>

text \<open>The line that \<open>docker ps\<close> prints with the format of \<open>ps_args\<close>.\<close>

definition ps_text :: "TaskContainer \<Rightarrow> string \<Rightarrow> string \<Rightarrow> string" where
  "ps_text tc st mounts = Join tab [tc_cid tc, st, tc_token tc, tc_pid tc, tc_tid tc, mounts]"

definition no_tab :: "string \<Rightarrow> bool" where
  "no_tab s \<longleftrightarrow> tab \<notin> set s"

lemma split_upto_cut:
  "c \<notin> set a \<Longrightarrow> split_upto c (Suc (Suc n)) (a @ c # s) = a # split_upto c (Suc n) s"
  by (simp add: cut_at_Some)

lemma ps_line_text:
  assumes "no_tab (tc_cid tc)" "no_tab st" "no_tab (tc_token tc)" "no_tab (tc_pid tc)" "no_tab (tc_tid tc)"
  shows "ps_line (ps_text tc st mounts) = Some \<lparr>ts_container = tc, ts_code = fst (container_status st),
      ts_err = snd (container_status st), ts_mounts = Split (CHR '','') mounts\<rparr>"
proof -
  have "SplitN tab 6 (ps_text tc st mounts) = [tc_cid tc, st, tc_token tc, tc_pid tc, tc_tid tc, mounts]"
    using assms unfolding no_tab_def ps_text_def SplitN_def
    by (simp add: numeral_eq_Suc cut_at_Some)
  then show ?thesis by (simp add: ps_line_def Let_def split: prod.split)
qed

text \<open>A status is classified by its first word.\<close>

lemma paren_notin_int_text: "CHR '')'' \<notin> set (int_text i)"
proof -
  have "\<not> is_digit (CHR '')'')" by code_simp
  then have "CHR '')'' \<notin> set (nat_text n)" for n
    using nat_text_digits [of n] by (auto simp: list_all_iff)
  then show ?thesis by (simp add: int_text_def)
qed

lemma exit_status_text:
  "exit_status (''Exited ('' @ int_text (sint code) @ '')'' @ rest) = (code, None)"
proof -
  have "TrimPrefix (''Exited ('' @ int_text (sint code) @ '')'' @ rest) ''Exited ('' =
      int_text (sint code) @ '')'' @ rest"
    by (rule TrimPrefix_append)
  moreover have "SplitN (CHR '')'') 2 (int_text (sint code) @ '')'' @ rest) = [int_text (sint code), rest]"
    using paren_notin_int_text [of "sint code"] by (simp add: SplitN_def numeral_eq_Suc cut_at_Some)
  ultimately show ?thesis
    unfolding exit_status_def Let_def by (simp only:) (simp add: Atoi_int_text)
qed

lemma not_running_exited: "\<not> is_running (''Exited'' @ r)"
  by (auto simp: is_running_def HasPrefix_def)

lemma container_status_cases:
  "is_running st \<Longrightarrow> container_status st = (- 1, None)"
  "container_status ''Dead'' = (255, Some (Errorf ''failed to remove container''))"
  "container_status (''Exited ('' @ int_text (sint code) @ '')'' @ rest) = (code, None)"
  using not_running_exited [of "'' ('' @ int_text (sint code) @ '')'' @ rest"]
    exit_status_text [of code rest] HasPrefix_append [of "''Exited''" "'' ('' @ int_text (sint code) @ '')'' @ rest"]
  by (simp_all add: container_status_def is_running_def HasPrefix_def)

text \<open>Without a readable exit code the status is the error 255.\<close>

lemma container_status_error:
  "snd (container_status st) \<noteq> None \<Longrightarrow> fst (container_status st) = 255"
  by (auto simp: container_status_def exit_status_def Let_def split: if_splits sum.splits)

end
