(* ===== verification/Texts.thy ===== *)
theory Texts
  imports Mux_Properties Agent JSON_Text
begin

section \<open>The texts that the parts of the program exchange\<close>

text \<open>
  Queues and HTTP carry texts. An evaluation is read from the text of a request, written to the
  queue of its pool, read by the scheduler, stored, and written again when it is retried; here it is
  shown to be the same evaluation on every hop. The log messages of the agent are put together
  without an encoder, and are documents for some lines only.
\<close>

subsection \<open>Strings that were read from a text\<close>

lemma decode_fields_inv:
  assumes "\<And>f j x x'. utf8_json j \<Longrightarrow> P x \<Longrightarrow> set_f f j x = Inr x' \<Longrightarrow> P x'"
  shows "list_all (\<lambda>(k, j). utf8_json j) kvs \<Longrightarrow> P x \<Longrightarrow> decode_fields names set_f kvs x = Inr x' \<Longrightarrow> P x'"
proof (induction kvs arbitrary: x)
  case (Cons kj kvs)
  show ?case
  proof (cases "find_field names (fst kj)")
    case None
    with Cons show ?thesis by (cases kj) simp
  next
    case (Some f)
    with Cons.prems obtain y where "set_f f (snd kj) x = Inr y" "decode_fields names set_f kvs y = Inr x'"
      by (cases kj) (auto simp: sbind_Inr_iff)
    with Cons assms [of "snd kj" x f y] show ?thesis by (simp add: case_prod_beta)
  qed
qed simp

lemma decode_struct_inv:
  assumes "\<And>f j x x'. utf8_json j \<Longrightarrow> P x \<Longrightarrow> set_f f j x = Inr x' \<Longrightarrow> P x'"
    and "utf8_json j" "P zero" "decode_struct names set_f zero j = Inr x"
  shows "P x"
proof (cases j)
  case (JObj kvs)
  with assms(2) have "list_all (\<lambda>(k, j). utf8_json j) kvs" by (auto simp: list_all_iff)
  with JObj assms decode_fields_inv [of P set_f kvs zero names x] show ?thesis by simp
qed (use assms in auto)

lemma json_string_utf8: "json_string j old = Inr s \<Longrightarrow> utf8_json j \<Longrightarrow> utf8 old \<Longrightarrow> utf8 s"
  by (cases j) auto

lemma ScheduleEvalInput_utf8: "ScheduleEvalInput_of_json j = Inr x \<Longrightarrow> utf8_json j \<Longrightarrow> utf8 (sei_DatasetID x)"
  unfolding ScheduleEvalInput_of_json_def
  by (rule decode_struct_inv [where P = "\<lambda>x. utf8 (sei_DatasetID x)"])
     (auto simp: sbind_Inr_iff dest: json_string_utf8 split: if_splits)

lemma Eval_utf8: "Eval_of_json j = Inr e \<Longrightarrow> utf8_json j \<Longrightarrow> utf8 (Dataset e)"
  unfolding Eval_of_json_def
  by (rule decode_struct_inv [where P = "\<lambda>x. utf8 (Dataset x)"])
     (auto simp: sbind_Inr_iff dest: json_string_utf8 split: if_splits)

subsection \<open>Evaluations\<close>

lemma utf8_key: "list_all (\<lambda>c. byte c < 128) k \<Longrightarrow> utf8 k"
  by (rule utf8_ascii)

lemma json_of_Eval_utf8: "utf8 (Dataset e) \<Longrightarrow> utf8_json (json_of_Eval e)"
  by (simp add: json_of_Eval_def utf8_ascii byte_def del: utf8.simps)

lemma Eval_text: "utf8 (Dataset e) \<Longrightarrow> json_Unmarshal Eval_of_json (json_Parse (json_Marshal (json_of_Eval e))) = Inr e"
  by (simp add: Parse_Marshal json_of_Eval_utf8 Eval_json.Unmarshal_to)

text \<open>The text that a scheduling or release pass writes for an evaluation it has read.\<close>

lemma eval_text_kept:
  assumes "json_Unmarshal Eval_of_json (json_Parse t) = Inr e"
  shows "json_Unmarshal Eval_of_json (json_Parse (json_Marshal (json_of_Eval (e\<lparr>Retry := n\<rparr>)))) = Inr (e\<lparr>Retry := n\<rparr>)"
proof -
  from assms obtain j where "json_Parse t = Some j" "Eval_of_json j = Inr e"
    by (auto simp: json_Unmarshal_def split: option.splits)
  then have "utf8 (Dataset e)" using Eval_utf8 Parse_utf8 by blast
  then show ?thesis by (intro Eval_text) simp
qed

text \<open>
  C28: A successful ScheduleEval for the text of a request puts exactly one text on the queue of
  the stored, active pool, and the scheduler reads back from it the evaluation of the request,
  whatever characters the data set has; nothing else changes. Nobody else writes meanwhile, and
  reads of single items show what is stored.
\<close>

theorem schedule_request_arrives:
  assumes b: "seq_item_backend svc conf view" and run: "ScheduleEval conf svc (json_Decode t) w = (w', Ret out)"
  shows "\<exists>input pool eval. json_Unmarshal ScheduleEvalInput_of_json (json_Decode t) = Inr input \<and>
     stored_pool conf (view w) (sei_PoolID input) = Some pool \<and> \<not> disbanded pool \<and>
     eval = \<lparr>Dataset = sei_DatasetID input, Size = sei_Size input, Retry = 0\<rparr> \<and>
     send_eff (pool_QueueURL pool) (json_Parse (json_Marshal (json_of_Eval eval))) (view w) = Some (view w') \<and>
     json_Unmarshal Eval_of_json (json_Parse (json_Marshal (json_of_Eval eval))) = Inr eval"
proof -
  obtain input pool where i: "json_Unmarshal ScheduleEvalInput_of_json (json_Decode t) = Inr input"
    and p: "stored_pool conf (view w) (sei_PoolID input) = Some pool" "\<not> disbanded pool"
    and s: "send_eff (pool_QueueURL pool)
      (Some (json_of_Eval \<lparr>Dataset = sei_DatasetID input, Size = sei_Size input, Retry = 0\<rparr>)) (view w) = Some (view w')"
    using request_enqueues [OF b run] by blast
  from i obtain j where "json_Decode t = Some j" "ScheduleEvalInput_of_json j = Inr input"
    by (auto simp: json_Unmarshal_def split: option.splits)
  then have "utf8 (sei_DatasetID input)" using ScheduleEvalInput_utf8 Decode_utf8 by blast
  then have "json_Parse (json_Marshal (json_of_Eval \<lparr>Dataset = sei_DatasetID input, Size = sei_Size input, Retry = 0\<rparr>)) =
      Some (json_of_Eval \<lparr>Dataset = sei_DatasetID input, Size = sei_Size input, Retry = 0\<rparr>)"
    by (intro Parse_Marshal json_of_Eval_utf8) simp
  with i p s show ?thesis by (auto simp: Eval_json.Unmarshal_to)
qed

theorem schedule_request_arrives_witness:
  "\<exists>w' eval (pool :: Pool). send_eff (pool_QueueURL pool) (json_Parse (json_Marshal (json_of_Eval eval))) (demo_view busy_world) =
       Some (demo_view w') \<and>
     json_Unmarshal Eval_of_json (json_Parse (json_Marshal (json_of_Eval eval))) = Inr eval"
proof -
  let ?j = "json_of_ScheduleEvalInput \<lparr>sei_PoolID = ''p'', sei_DatasetID = [], sei_Size = 1\<rparr>"
  have "utf8_json ?j" by (simp add: json_of_ScheduleEvalInput_def utf8_ascii byte_def del: utf8.simps)
  then have t: "json_Decode (json_Encode ?j) = Some ?j" by (rule Decode_Encode)
  obtain w' out where "ScheduleEval demo demo_svc (Some ?j) busy_world = (w', Ret out)"
    using demo_enqueue_run by blast
  then have "ScheduleEval demo demo_svc (json_Decode (json_Encode ?j)) busy_world = (w', Ret out)" by (simp only: t)
  from schedule_request_arrives [OF demo.seq_item_backend_axioms this] show ?thesis by blast
qed

subsection \<open>The messages of the log\<close>

definition plain_char :: "char \<Rightarrow> bool" where
  "plain_char c \<longleftrightarrow> 32 \<le> byte c \<and> c \<noteq> quote \<and> c \<noteq> backslash"

definition ascii :: "string \<Rightarrow> bool" where
  "ascii s \<longleftrightarrow> list_all (\<lambda>c. byte c < 128) s"

lemma p_chars_plain: "list_all plain_char s \<Longrightarrow> ascii s \<Longrightarrow> p_chars (s @ quote # t) = Some (s, t)"
proof (induction s)
  case (Cons c s)
  then have "p_char (c # s @ quote # t) = Some ([c], s @ quote # t)"
    by (intro p_char_ascii) (simp_all add: plain_char_def ascii_def)
  with Cons p_chars_step [OF _ _ this] show ?case by (simp add: plain_char_def ascii_def)
qed (simp add: p_chars.simps)

text \<open>An escape is longer than what it stands for.\<close>

lemma enc_rune_length: "length (enc_rune r) \<le> 4"
  by (simp add: enc_rune_def)

lemma hex4_length: "hex4 s = Some x \<Longrightarrow> 4 \<le> length s"
  by (auto simp: hex4_def split: list.splits)

lemma low_surrogate_length: "low_surrogate x s = Some z \<Longrightarrow> 6 \<le> length s"
  by (auto simp: low_surrogate_def dest!: hex4_length split: if_splits bind_splits)

lemma p_escape_length: "p_escape s = Some (u, r) \<Longrightarrow> length u + length r \<le> length s"
proof -
  assume p: "p_escape s = Some (u, r)"
  then obtain e t where s: "s = e # t" by (cases s) (simp_all add: p_escape_def)
  show ?thesis
  proof (cases "e = CHR ''u''")
    case True
    with p s obtain x where x: "hex4 t = Some x" by (auto simp: p_escape_def split: option.splits)
    have "(\<exists>r'. u = enc_rune r') \<and> (r = drop 4 t \<or> r = drop 10 t)"
      using p by (auto simp: s True x p_escape_def split: if_splits option.splits)
    then have "length u \<le> 4" "length r \<le> length t - 4" using enc_rune_length by auto
    with hex4_length [OF x] show ?thesis by (simp add: s)
  next
    case False
    with p s have "length u = 1" "r = t" by (auto simp: p_escape_def split: option.splits)
    then show ?thesis by (simp add: s)
  qed
qed

lemma p_escape_subset: "p_escape s = Some (u, r) \<Longrightarrow> set r \<subseteq> set s"
  using set_drop_subset by (cases s) (fastforce simp: p_escape_def split: if_splits option.splits)+

lemma p_char_subset: "p_char s = Some (u, r) \<Longrightarrow> set r \<subseteq> set s"
  using p_escape_subset set_drop_subset
  by (cases s) (fastforce simp: p_char_def Let_def split: if_splits)+

lemma p_char_ascii_cases:
  assumes "p_char s = Some (u, r)" and "ascii s" and "hd s \<noteq> quote"
  shows "(plain_char (hd s) \<and> s = u @ r \<and> u = [hd s]) \<or> length u + length r < length s"
proof -
  obtain c cs where s: "s = c # cs" using assms(1) by (cases s) (simp_all add: p_char_def)
  show ?thesis
  proof (cases "c = backslash")
    case True
    with assms(1) p_escape_length [of cs u r] show ?thesis by (simp add: s p_char_def)
  next
    case False
    with assms(1) have "32 \<le> byte c" by (simp add: s p_char_def split: if_splits)
    with False assms p_char_ascii [of c cs] show ?thesis by (simp add: s plain_char_def ascii_def)
  qed
qed

lemma p_chars_ascii:
  "p_chars s = Some (x, r) \<Longrightarrow> ascii s \<Longrightarrow>
     (list_all plain_char x \<and> s = x @ quote # r) \<or> length x + length r + 1 < length s"
proof (induction s arbitrary: x rule: p_chars.induct)
  case (1 s)
  show ?case
  proof (cases "hd s = quote")
    case True
    with 1(2) have "x = []" "r = tl s" "s \<noteq> []" by (auto simp: p_chars.simps [of s] split: if_splits)
    with True show ?thesis by (cases s) simp_all
  next
    case False
    with 1(2) obtain u q y where q: "s \<noteq> []" "p_char s = Some (u, q)" "p_chars q = Some (y, r)" "x = u @ y"
      by (auto simp: p_chars.simps [of s] prepend_eq_Some split: if_splits option.splits)
    have "ascii q" using p_char_subset [OF q(2)] 1(3) by (auto simp: ascii_def list_all_iff)
    then have y: "list_all plain_char y \<and> q = y @ quote # r \<or> length y + length r + 1 < length q"
      using 1(1) [OF q(1) False q(2) refl q(3)] by blast
    from p_char_ascii_cases [OF q(2) 1(3) False] show ?thesis
    proof (elim disjE conjE)
      assume u: "plain_char (hd s)" "s = u @ q" "u = [hd s]"
      then obtain c where c: "u = [c]" "plain_char c" by blast
      from u(2) have "s = c # q" unfolding c(1) by simp
      with c y q(4) show ?thesis by auto
    next
      assume "length u + length q < length s"
      with y q(4) show ?thesis by auto
    qed
  qed
qed

text \<open>Texts of the form that the agent builds.\<close>

lemma p_key_plain:
  "list_all plain_char k \<Longrightarrow> ascii k \<Longrightarrow> p_key (quote # k @ quote # CHR '':'' # t) = Some (k, t)"
  by (simp add: p_key_def p_chars_plain skip_ws_Cons is_ws_def byte_def)

lemma log_text_members:
  "p_value (skip_ws (''{\"t\": '' @ int_text i @ '', \"line\": \"'' @ s)) =
     (case p_chars s of None \<Rightarrow> None | Some (x, r) \<Rightarrow>
        let t = skip_ws r in
        if starts (CHR ''}'') t then Some (JObj [(''t'', JNum i), (''line'', JStr x)], tl t)
        else if starts (CHR '','') t
        then map_option (map_prod (\<lambda>kvs. JObj ((''t'', JNum i) # (''line'', JStr x) # kvs)) id) (p_members (skip_ws (tl t)))
        else None)"
proof -
  have k: "p_key (quote # ''t'' @ quote # CHR '':'' # t) = Some (''t'', t)"
      "p_key (quote # ''line'' @ quote # CHR '':'' # t) = Some (''line'', t)" for t
    by (rule p_key_plain; simp add: plain_char_def ascii_def byte_def)+
  have w: "skip_ws (CHR '' '' # t) = skip_ws t" "skip_ws (quote # t) = quote # t" "skip_ws (CHR ''{'' # t) = CHR ''{'' # t"
      "skip_ws (CHR '','' # t) = CHR '','' # t" for t
    by (simp_all add: skip_ws_def is_ws_def byte_def)
  have n: "p_value (int_text i @ CHR '','' # t) = Some (JNum i, CHR '','' # t)" for t
    by (simp add: int_text_atom p_number_int number_ends_def is_digit_def)
  have sk: "skip_ws (int_text i @ t) = int_text i @ t" for t
    using value_start_skip int_text_start by blast
  have q: "p_value (quote # s) = map_option (map_prod JStr id) (p_chars s)"
    by (simp add: p_value.simps p_atom_def)
  have m: "p_members (quote # ''line'' @ quote # CHR '':'' # CHR '' '' # quote # s) =
     (case p_chars s of None \<Rightarrow> None | Some (x, r) \<Rightarrow>
        let t = skip_ws r in
        if starts (CHR ''}'') t then Some ([(''line'', JStr x)], tl t)
        else if starts (CHR '','') t then map_option (map_prod ((#) (''line'', JStr x)) id) (p_members (skip_ws (tl t)))
        else None)"
    by (subst p_members_eq) (cases "p_chars s"; simp add: k [simplified] w q Let_def split: prod.split)
  have "p_members (quote # ''t'' @ quote # CHR '':'' # CHR '' '' # int_text i @ CHR '','' # CHR '' '' # quote # ''line'' @ quote # CHR '':'' # CHR '' '' # quote # s) =
      map_option (map_prod ((#) (''t'', JNum i)) id) (p_members (quote # ''line'' @ quote # CHR '':'' # CHR '' '' # quote # s))"
    by (subst p_members_eq) (simp add: k [simplified] w n sk)
  then show ?thesis
    unfolding m
    by (subst p_value.simps) (cases "p_chars s"; simp add: w Let_def option.map_comp comp_def id_def map_prod.compositionality split: prod.split)
qed

text \<open>For a line of ASCII, the message is a document that holds the line if and only if nothing in it needs an escape.\<close>

text \<open>
  C34: The message for a line of ASCII characters is a JSON document that holds the line if and
  only if no character of the line is a quote, a backslash or a control character.
\<close>

theorem log_message_document:
  assumes "ascii (le_msg ev)"
  shows "json_Parse (Message (input_log_event ev)) = Some (JObj [(''t'', JNum (sint (le_t ev))), (''line'', JStr (le_msg ev))]) \<longleftrightarrow>
    list_all plain_char (le_msg ev)" (is "?doc \<longleftrightarrow> _")
proof -
  let ?l = "le_msg ev" and ?s = "le_msg ev @ [quote, CHR ''}'']"
  have msg: "Message (input_log_event ev) = ''{\"t\": '' @ int_text (sint (le_t ev)) @ '', \"line\": \"'' @ ?s"
    by (simp add: input_log_event_def)
  have w: "skip_ws [CHR ''}''] = [CHR ''}'']" "skip_ws [] = []" by (simp_all add: skip_ws_def is_ws_def byte_def)
  show ?thesis
  proof
    assume "list_all plain_char ?l"
    then have "p_chars ?s = Some (?l, [CHR ''}''])" using p_chars_plain [OF _ assms, of "[CHR ''}'']"] by simp
    then show ?doc unfolding json_Parse_def msg log_text_members by (simp add: w)
  next
    assume d: ?doc
    then obtain x r where x: "p_chars ?s = Some (x, r)"
      unfolding json_Parse_def msg log_text_members by (auto split: option.splits)
    have "x = ?l \<and> skip_ws r \<noteq> []"
      using d unfolding json_Parse_def msg log_text_members x
      by (auto simp: Let_def starts_def split: if_splits option.splits)
    moreover from this have "0 < length r" by (auto simp: skip_ws_def)
    moreover have "ascii ?s" using assms by (simp add: ascii_def byte_def)
    ultimately show "list_all plain_char ?l" using p_chars_ascii [OF x] by auto
  qed
qed

definition quote_event :: TaskLogEvent where
  "quote_event = \<lparr>le_container = \<lparr>tc_cid = [], tc_tid = [], tc_pid = [], tc_token = []\<rparr>, le_t = 7, le_msg = [quote]\<rparr>"

theorem log_message_document_witness:
  "ascii (le_msg quote_event) \<and>
   json_Parse (Message (input_log_event quote_event)) \<noteq> Some (JObj [(''t'', JNum 7), (''line'', JStr [quote])])"
proof -
  have a: "ascii (le_msg quote_event)" "\<not> list_all plain_char (le_msg quote_event)"
    by (simp_all add: quote_event_def ascii_def byte_def plain_char_def)
  with log_message_document [OF a(1)] show ?thesis by (simp add: quote_event_def)
qed

subsection \<open>The texts of responses\<close>

lemma p_value_string: "list_all plain_char s \<Longrightarrow> ascii s \<Longrightarrow> p_value (quote # s @ quote # t) = Some (JStr s, t)"
  by (simp add: p_value.simps p_atom_def p_chars_plain)

lemma fixed_message:
  assumes "list_all plain_char m" and "ascii m"
  shows "json_Decode (''{\"message\": \"'' @ m @ ''\"}'') = Some (message_json m)"
proof -
  have k: "p_key (quote # ''message'' @ quote # CHR '':'' # t) = Some (''message'', t)" for t
    by (rule p_key_plain; simp add: plain_char_def ascii_def byte_def)
  have w: "skip_ws (CHR '' '' # t) = skip_ws t" "skip_ws (quote # t) = quote # t" "skip_ws (CHR ''{'' # t) = CHR ''{'' # t"
      "skip_ws (CHR ''}'' # t) = CHR ''}'' # t" for t
    by (simp_all add: skip_ws_def is_ws_def byte_def)
  have "p_members (quote # ''message'' @ quote # CHR '':'' # CHR '' '' # quote # m @ quote # ''}'') =
      Some ([(''message'', JStr m)], [])"
    by (subst p_members_eq) (simp add: k [simplified] w p_value_string [OF assms])
  then show ?thesis
    unfolding json_Decode_def by (subst p_value.simps) (simp add: w message_json_def)
qed

text \<open>The text of a response denotes its body.\<close>

definition denotes :: "text_response \<Rightarrow> response \<Rightarrow> bool" where
  "denotes r resp \<longleftrightarrow> tr_status r = status resp \<and>
     (\<forall>j. resp_body resp = Some j \<longrightarrow> utf8_json j \<longrightarrow> json_Decode (tr_text r) = Some j)"

lemma denotes_fixed: "denotes methodNotAllowed_text methodNotAllowed" "denotes notFound_text notFound"
proof -
  have p: "list_all plain_char ''method not allowed''" "ascii ''method not allowed''"
    "list_all plain_char ''page not found''" "ascii ''page not found''"
    by (simp_all add: plain_char_def ascii_def byte_def)
  from fixed_message [OF p(1,2)] fixed_message [OF p(3,4)]
  show "denotes methodNotAllowed_text methodNotAllowed" "denotes notFound_text notFound"
    by (simp_all add: denotes_def methodNotAllowed_text_def methodNotAllowed_def notFound_text_def notFound_def)
qed

lemma denotes_errh:
  "case errh_text p w of
     (w', Ret r) \<Rightarrow> (\<exists>resp. errh p w = (w', Ret resp) \<and> denotes r resp)
   | (w', Fail e) \<Rightarrow> errh p w = (w', Fail e)
   | (w', Panic) \<Rightarrow> errh p w = (w', Panic)"
  by (cases "p w"; cases "snd (p w)")
     (auto simp: errh_text_def errh_def on_err_def bnd_def ret_def denotes_def encodeOutput_def Decode_Encode)

text \<open>
  C11: The router over the texts of requests and responses does what the router over their
  documents does: the same effect, the same status, and a text that denotes the body of the
  response.
\<close>

theorem mux_text:
  "case Mux_text conf svc http_method path t w of
     (w', Ret r) \<Rightarrow> (\<exists>resp. Mux conf svc http_method path (json_Decode t) w = (w', Ret resp) \<and> denotes r resp)
   | (w', Fail e) \<Rightarrow> Mux conf svc http_method path (json_Decode t) w = (w', Fail e)
   | (w', Panic) \<Rightarrow> Mux conf svc http_method path (json_Decode t) w = (w', Panic)"
proof (cases "http_method \<in> set known_methods")
  case True
  show ?thesis
  proof (cases "route conf svc path")
    case None
    with True show ?thesis by (simp add: Mux_text_def Mux_def ret_def denotes_fixed)
  next
    case (Some h)
    show ?thesis
    proof (cases "http_method = ''POST''")
      case post: True
      have eqs: "Mux_text conf svc http_method path t = errh_text (h (json_Decode t))"
          "Mux conf svc http_method path (json_Decode t) = errh (h (json_Decode t))"
        using True Some post by (simp_all add: Mux_text_def Mux_def)
      show ?thesis unfolding eqs by (rule denotes_errh)
    next
      case False
      with True Some show ?thesis by (simp add: Mux_text_def Mux_def ret_def denotes_fixed)
    qed
  qed
qed (simp add: Mux_text_def Mux_def ret_def denotes_fixed)

end
