(* ===== verification/Liveness.thy ===== *)
theory Liveness
  imports Schedule_Properties
begin

section \<open>Scheduling succeeds\<close>

text \<open>
  The other laws allow every call to fail. Here is a backend without faults, as a locale: an
  allocation can be stored under a key that is free, an update whose condition holds succeeds, a query
  finds something if something matches, a message can be sent to a queue that exists. On such a
  backend an evaluation is placed whenever some worker has the capacity, a worker that the query
  returns is alive when the clock is read for it, and the id that is drawn is free.
\<close>

locale reliable_backend = seq_fresh_backend +
  assumes put_ok: "alloc_at conf (view w) (alloc_PoolID a) (alloc_AllocID a) = None \<Longrightarrow>
      \<exists>w'. db_PutItem svc (AllocsTableName conf) (marshal_Alloc a) (Some (Attribute_not_exists ''alloc'')) w = (w', None)"
    and update_ok: "tables (view w) t (key_of conf t k) = Some it \<Longrightarrow> cond_ok c (Some it) \<Longrightarrow> apply_upd u it = Some it' \<Longrightarrow>
      key_of conf t it' = key_of conf t it \<Longrightarrow> \<exists>w'. db_UpdateItem svc t k u c w = (w', None)"
    and query_ok: "\<exists>w' its. db_Query svc q w = (w', Inr its)"
    and query_some: "db_Query svc q w = (w', Inr []) \<Longrightarrow> q_Limit q = Some (Suc n) \<Longrightarrow>
      tables (view w) (q_TableName q) key = Some it \<Longrightarrow> \<not> query_matches q it"
    and send_ok: "queues (view w) url = Some m \<Longrightarrow> \<exists>w'. sqs_SendMessage svc url b w = (w', None)"
    and ack_ok: "queues (view w) url = Some m \<Longrightarrow> \<exists>w'. sqs_DeleteMessage svc url h w = (w', None)"
    and rand_ok: "\<exists>w' bs. rand_Read svc n w = (w', Inr bs)"
begin

lemma wp_query_ok:
  assumes "\<And>w' its. view w' = view w \<Longrightarrow> db_Query svc q w = (w', Inr its) \<Longrightarrow> Q w' (Ret its)"
  shows "wp (call (db_Query svc q)) Q w"
  using assms query_ok [of q w] by (intro wp_callI) (auto dest: query)

lemma wp_rand_ok:
  assumes "\<And>w' x. view w' = view w \<Longrightarrow> rand_Read svc n w = (w', Inr x) \<Longrightarrow> Q w' (Ret x)"
  shows "wp (call (rand_Read svc n)) Q w"
  using assms rand_ok [of n w] by (intro wp_callI) (auto dest: rand)

lemma wp_send_ok:
  assumes "queues (view w) url = Some m"
    and "\<And>w'. view w' = set_queue url (Some (add_mset b m)) (view w) \<Longrightarrow> Q w' (Ret ())"
  shows "wp (call0 (sqs_SendMessage svc url b)) Q w"
  using assms send_ok [OF assms(1), of b]
  by (intro wp_call0I) (auto dest!: send simp: send_post_def send_eff_def)

lemma wp_ack_ok:
  assumes "queues (view w) url = Some m" and "\<And>w'. Q w' (Ret ())"
  shows "wp (call0 (sqs_DeleteMessage svc url h)) Q w"
  using assms ack_ok [OF assms(1), of h] by (intro wp_call0I) auto

lemma wp_put_alloc_ok:
  assumes "alloc_at conf (view w) (alloc_PoolID a) (alloc_AllocID a) = None"
    and "\<And>w'. queues (view w') = queues (view w) \<Longrightarrow> Q w' (Ret ())"
  shows "wp (PutNewAlloc conf svc a) Q w"
proof -
  have k: "key_of conf (AllocsTableName conf) (marshal_Alloc a) = sub_key (alloc_PoolID a) (alloc_AllocID a)"
    by (rule key_of_entity)
  let ?c = "Some (Attribute_not_exists ''alloc'')"
  from put_ok [OF assms(1)] show ?thesis
    unfolding PutNewAlloc_def wp_on_err
    by (intro wp_call0I)
       (auto intro!: assms(2) dest!: put simp: write_post_def put_eff_def, metis tables_set_item(2))
qed

lemma wp_claim_ok:
  assumes "worker_at conf (view w) (wrk_PoolID worker) (wrk_WorkerID worker) = Some it"
    and "it ''cap'' = Some (AN c)" and "sint (Size eval) \<le> c"
    and "\<And>w'. claimed conf (wrk_PoolID worker) (wrk_WorkerID worker) (sint (Size eval)) (view w) (view w') \<Longrightarrow> Q w' (Ret ())"
  shows "wp (claim conf svc eval worker) Q w"
proof -
  have k: "key_of conf (WorkersTableName conf) (marshal_WorkerPK (Worker_PK worker)) =
      sub_key (wrk_PoolID worker) (wrk_WorkerID worker)"
    by (simp add: key_of_entity)
  have k': "key_of conf (WorkersTableName conf) (it(''cap'' \<mapsto> x)) = key_of conf (WorkersTableName conf) it" for x
    by (simp add: key_of_def table_keys)
  obtain w' where ok: "db_UpdateItem svc (WorkersTableName conf) (marshal_WorkerPK (Worker_PK worker))
      (Set_minus ''cap'' (aget (eval_item eval) ''size'')) (Some (Attr_ge ''cap'' (aget (eval_item eval) ''size''))) w = (w', None)"
    using update_ok [of w "WorkersTableName conf" "marshal_WorkerPK (Worker_PK worker)" it
        "Some (Attr_ge ''cap'' (aget (eval_item eval) ''size''))" "Set_minus ''cap'' (aget (eval_item eval) ''size'')"
        "it(''cap'' \<mapsto> AN (c - sint (Size eval)))"] assms(1-3)
    by (auto simp: k k' cond_ok_def num_upd_def)
  have "wp (claim conf svc eval worker) (\<lambda>w' r. r = Ret () \<longrightarrow> Q w' (Ret ())) w"
    by (rule wp_claim) (auto intro: assms(4))
  moreover have "wp (claim conf svc eval worker) (\<lambda>w' r. r = Ret ()) w"
    using ok unfolding claim_def wp_wrapping by (intro wp_call0I) auto
  ultimately show ?thesis by (auto simp: wp_def split: prod.splits)
qed

end

subsection \<open>Workers that can take an evaluation\<close>

text \<open>
  Every stored worker of the pool with enough capacity for the evaluation is one the program has
  stored, and has a queue.
\<close>

definition all_ready :: "Conf \<Rightarrow> store \<Rightarrow> Eval \<Rightarrow> Pool \<Rightarrow> bool" where
  "all_ready conf v eval pool \<longleftrightarrow>
     (\<forall>k it. tables v (WorkersTableName conf) k = Some it \<longrightarrow> query_matches (capacity_query conf eval pool) it \<longrightarrow>
       (\<exists>wk. it = marshal_Worker wk \<and>
         queues v (FmtWorkerQueueURL conf (pool_PoolID pool) (wrk_WorkerID wk)) \<noteq> None))"

text \<open>A candidate that can take the evaluation.\<close>

definition can_take :: "Conf \<Rightarrow> store \<Rightarrow> Eval \<Rightarrow> Pool \<Rightarrow> Worker \<Rightarrow> bool" where
  "can_take conf v eval pool wk \<longleftrightarrow> wrk_PoolID wk = pool_PoolID pool \<and>
     queues v (FmtWorkerQueueURL conf (pool_PoolID pool) (wrk_WorkerID wk)) \<noteq> None \<and>
     (\<exists>it c. worker_at conf v (pool_PoolID pool) (wrk_WorkerID wk) = Some it \<and> it ''cap'' = Some (AN c) \<and>
       sint (Size eval) \<le> c)"

lemma bnd_step: "p w = (w', Ret x) \<Longrightarrow> bnd p f w = f x w'"
  by (simp add: bnd_def)

lemma live_replicas_returns: "\<exists>w' found. live_replicas svc its acc w = (w', Ret found)"
  by (induction its arbitrary: acc w) (auto simp: ret_def bnd_def reads_def split: sum.split prod.split)

context reliable_backend
begin

lemma projected_worker:
  "unmarshal_Worker (projected conf (WorkersTableName conf) (Some (WorkersCapIdxName conf)) (marshal_Worker wk)) =
     Inr (wk\<lparr>wrk_QueueURL := []\<rparr>)"
  using table_names by (simp add: projected_def marshal_defs unmarshal_defs)

lemma ready_can_take:
  assumes ready: "all_ready conf v eval pool" and v: "v = view w"
    and t: "tables v (WorkersTableName conf) k = Some it" and m: "query_matches (capacity_query conf eval pool) it"
  shows "\<exists>wk. unmarshal_Worker (projected conf (WorkersTableName conf) (Some (WorkersCapIdxName conf)) it) = Inr wk \<and>
    can_take conf v eval pool wk"
proof -
  obtain wk where wk: "it = marshal_Worker wk"
      "queues v (FmtWorkerQueueURL conf (pool_PoolID pool) (wrk_WorkerID wk)) \<noteq> None"
    using ready t m unfolding all_ready_def by blast
  moreover have "k = sub_key (wrk_PoolID wk) (wrk_WorkerID wk)"
    using stored_by_key [of w, folded v, OF t] by (simp add: wk(1) key_of_entity)
  moreover have "wrk_PoolID wk = pool_PoolID pool" "sint (Size eval) \<le> sint (wrk_Capacity wk)"
    using m by (simp_all add: query_matches_def capacity_query_def wk(1) aget_def marshal_defs enc_int64_def)
  ultimately show ?thesis
    using t by (intro exI [of _ "wk\<lparr>wrk_QueueURL := []\<rparr>"])
      (simp add: projected_worker can_take_def, simp add: marshal_defs enc_int64_def)
qed

lemma wp_FindReplicas_ok:
  assumes "\<And>w' r. view w' = view w \<Longrightarrow> Q w' (Ret r)"
  shows "wp (FindReplicas conf svc eval pool) Q w"
proof -
  have "wp (FindReplicas conf svc eval pool) (\<lambda>w' r. \<forall>x. r = Ret x \<longrightarrow> Q w' r) w"
    using assms by (intro wp_FindReplicas) auto
  moreover have live: "wp (live_replicas svc its []) (\<lambda>w' r. \<exists>x. r = Ret x) w'" for its w'
    using live_replicas_returns [of svc its "[]" w'] by (auto simp: wp_def)
  have "wp (FindReplicas conf svc eval pool) (\<lambda>w' r. \<exists>x. r = Ret x) w"
  proof (cases "Dataset eval = []")
    case False
    have "wp (call (db_Query svc (replica_query conf eval pool)))
        (\<lambda>w' r. \<exists>its. r = Ret its) w"
      by (rule wp_query_ok) simp
    then show ?thesis
      using False live unfolding FindReplicas_def wp_bnd wp_wrapping by (auto simp: wp_bnd wp_wrapping elim!: wp_mono)
  qed (simp add: FindReplicas_def wp_ret)
  ultimately show ?thesis by (auto simp: wp_def split: prod.splits)
qed

text \<open>\<open>Schedule\<close> returns an allocation for a worker that can take the evaluation.\<close>

lemma wp_Schedule_ok:
  assumes it: "tables (view w) (WorkersTableName conf) k0 = Some it0" "query_matches (capacity_query conf eval pool) it0"
    and ready: "all_ready conf (view w) eval pool"
    and query: "db_Query svc (capacity_query conf eval pool) w = (w1, Inr its)"
    and clock: "clock_readings svc (length (items_of unmarshal_Worker its)) w1 = (w2, ts)"
    and alive: "its \<noteq> [] \<Longrightarrow> alive_at wrk_TTL (items_of unmarshal_Worker its) ts \<noteq> []"
    and Q: "\<And>w' wk bs now. can_take conf (view w) eval pool wk \<Longrightarrow>
      claimed conf (wrk_PoolID wk) (wrk_WorkerID wk) (sint (Size eval)) (view w) (view w') \<Longrightarrow>
      Q w' (Ret (new_alloc conf eval wk bs now))"
  shows "wp (Schedule conf svc eval pool replicas) Q w"
proof -
  have v1: "view w1 = view w" using backend.query [OF is_backend query] by simp
  have "its \<noteq> []"
    using query_some [of "capacity_query conf eval pool" w w1 9 k0 it0] query it
    by (auto simp: capacity_query_def numeral_eq_Suc)
  then have found: "alive_at wrk_TTL (items_of unmarshal_Worker its) ts \<noteq> []" by (rule alive)
  have taken: "\<exists>wk. unmarshal_Worker x = Inr wk \<and> can_take conf (view w) eval pool wk" if x: "x \<in> set its" for x
  proof -
    obtain k it where "tables (view w1) (WorkersTableName conf) k = Some it" "query_matches (capacity_query conf eval pool) it"
        "x = projected conf (WorkersTableName conf) (Some (WorkersCapIdxName conf)) it"
      using query_fresh [OF query x] by (auto simp: capacity_query_def)
    with ready_can_take [OF ready refl] v1 show ?thesis by simp
  qed
  have can: "can_take conf (view w) eval pool wk" if "wk \<in> set (alive_at wrk_TTL (items_of unmarshal_Worker its) ts)" for wk
    using alive_at_reading [OF that] taken items_of_from by fastforce
  have live: "live_workers svc its [] w1 = (w2, Ret (alive_at wrk_TTL (items_of unmarshal_Worker its) ts))"
    using live_workers_readings [of svc its "[]" w1] by (simp add: clock)
  show ?thesis
    unfolding Schedule_def wp_bnd wp_wrapping
  proof (rule wp_query_ok, goal_cases)
    case (1 w1' its')
    with query have e: "w1' = w1" "its' = its" by simp_all
    show ?case
      unfolding e outcome.case wp_bnd
    proof (rule wp_live_workers, goal_cases)
      case (1 w2' found')
      with live have e: "w2' = w2" "found' = alive_at wrk_TTL (items_of unmarshal_Worker its) ts" by simp_all
      have v2: "view w2 = view w" using 1(1) v1 by (simp add: e)
      obtain wk rest where s: "sort_Slice by_capacity (alive_at wrk_TTL (items_of unmarshal_Worker its) ts) = wk # rest"
        using found by (metis length_0_conv length_sort_Slice list.exhaust)
      then have wk: "can_take conf (view w) eval pool wk"
        using can set_sort_Slice [of by_capacity "alive_at wrk_TTL (items_of unmarshal_Worker its) ts"] by auto
      then obtain it c where c: "worker_at conf (view w2) (wrk_PoolID wk) (wrk_WorkerID wk) = Some it"
          "it ''cap'' = Some (AN c)" "sint (Size eval) \<le> c"
        by (auto simp: can_take_def v2)
      show ?case
        unfolding e s list.case outcome.case wp_bnd
      proof (rule wp_claim_ok [OF c], goal_cases)
        case (1 w3)
        then show ?case
          unfolding outcome.case wp_bnd wp_wrapping
          by (intro wp_rand_ok) (auto simp: wp_bnd wp_ret v2 intro!: wp_now Q [OF wk])
      qed
    qed
  qed
qed

end

context reliable_backend
begin

lemma wp_publish_ok:
  assumes a: "alloc_at conf (view w) (alloc_PoolID alloc) (alloc_AllocID alloc) = None"
    and u: "queues (view w) (FmtWorkerQueueURL conf (pool_PoolID pool) (alloc_WorkerID alloc)) = Some m'"
    and q: "queues (view w) (pool_QueueURL pool) = Some m"
  shows "wp (bnd (PutNewAlloc conf svc alloc) (\<lambda>_.
      bnd (call0 (sqs_SendMessage svc (FmtWorkerQueueURL conf (pool_PoolID pool) (alloc_WorkerID alloc))
            (alloc_message pool alloc))) (\<lambda>_.
      call0 (sqs_DeleteMessage svc (pool_QueueURL pool) h)))) (\<lambda>w' r. r = Ret ()) w"
  unfolding wp_bnd
proof (rule wp_put_alloc_ok [OF a], goal_cases)
  case (1 w1)
  with u have u1: "queues (view w1) (FmtWorkerQueueURL conf (pool_PoolID pool) (alloc_WorkerID alloc)) = Some m'" by simp
  show ?case
    unfolding outcome.case wp_bnd
  proof (rule wp_send_ok [OF u1], goal_cases)
    case (1 w2)
    then have "\<exists>m. queues (view w2) (pool_QueueURL pool) = Some m"
      using \<open>queues (view w1) = queues (view w)\<close> q by simp
    then show ?case unfolding outcome.case by (auto intro: wp_ack_ok)
  qed
qed

lemma schedule_ok:
  assumes it: "tables (view w) (WorkersTableName conf) k0 = Some it0" "query_matches (capacity_query conf eval pool) it0"
    and ready: "all_ready conf (view w) eval pool"
    and q: "queues (view w) (pool_QueueURL pool) = Some m"
    and find: "(if Dataset eval \<noteq> [] then FindReplicas conf svc eval pool else ret []) w = (w0, Ret replicas)"
    and query: "db_Query svc (capacity_query conf eval pool) w0 = (w1, Inr its)"
    and clock: "clock_readings svc (length (items_of unmarshal_Worker its)) w1 = (w2, ts)"
    and alive: "its \<noteq> [] \<Longrightarrow> alive_at wrk_TTL (items_of unmarshal_Worker its) ts \<noteq> []"
    and free: "\<And>w3 alloc. Schedule conf svc eval pool replicas w0 = (w3, Ret alloc) \<Longrightarrow>
      alloc_at conf (view w) (alloc_PoolID alloc) (alloc_AllocID alloc) = None"
  shows "\<exists>w'. schedule_eval conf svc pool h eval w = (w', Ret ())"
proof -
  have v0: "view w0 = view w"
  proof (cases "Dataset eval = []")
    case True
    with find show ?thesis by (simp add: ret_def)
  next
    case False
    with find have "FindReplicas conf svc eval pool w = (w0, Ret replicas)" by simp
    with wp_run [OF wp_FindReplicas [where Q = "\<lambda>w' _. view w' = view w"]] show ?thesis by blast
  qed
  have "wp (Schedule conf svc eval pool replicas) (\<lambda>w' r. \<exists>wk bs now. r = Ret (new_alloc conf eval wk bs now) \<and>
      can_take conf (view w) eval pool wk \<and>
      claimed conf (wrk_PoolID wk) (wrk_WorkerID wk) (sint (Size eval)) (view w) (view w')) w0"
    by (rule wp_Schedule_ok [of w0, unfolded v0, OF it ready query clock]) (auto dest: alive)
  then obtain w3 wk bs now where run: "Schedule conf svc eval pool replicas w0 = (w3, Ret (new_alloc conf eval wk bs now))"
    and wk: "can_take conf (view w) eval pool wk"
    and c: "claimed conf (wrk_PoolID wk) (wrk_WorkerID wk) (sint (Size eval)) (view w) (view w3)"
    by (auto simp: wp_def split: prod.splits)
  let ?a = "new_alloc conf eval wk bs now"
  have "alloc_at conf (view w3) (alloc_PoolID ?a) (alloc_AllocID ?a) = None"
    using free [OF run] claimed_other_table [OF c] table_names by simp
  moreover obtain m' where "queues (view w3) (FmtWorkerQueueURL conf (pool_PoolID pool) (alloc_WorkerID ?a)) = Some m'"
    using wk claimed_queues [OF c] by (auto simp: can_take_def)
  moreover have "queues (view w3) (pool_QueueURL pool) = Some m" using q claimed_queues [OF c] by simp
  ultimately have "wp (bnd (PutNewAlloc conf svc ?a) (\<lambda>_.
      bnd (call0 (sqs_SendMessage svc (FmtWorkerQueueURL conf (pool_PoolID pool) (alloc_WorkerID ?a))
            (alloc_message pool ?a))) (\<lambda>_.
      call0 (sqs_DeleteMessage svc (pool_QueueURL pool) h)))) (\<lambda>w' r. r = Ret ()) w3"
    by (rule wp_publish_ok)
  then obtain w' where "bnd (PutNewAlloc conf svc ?a) (\<lambda>_.
      bnd (call0 (sqs_SendMessage svc (FmtWorkerQueueURL conf (pool_PoolID pool) (alloc_WorkerID ?a))
            (alloc_message pool ?a))) (\<lambda>_.
      call0 (sqs_DeleteMessage svc (pool_QueueURL pool) h))) w3 = (w', Ret ())"
    by (auto simp: wp_def split: prod.splits)
  then have "schedule_eval conf svc pool h eval w = (w', Ret ())"
    unfolding schedule_eval_def
    apply (subst bnd_step [where p = "if Dataset eval \<noteq> [] then FindReplicas conf svc eval pool else ret []"])
     apply (rule find)
    apply (subst bnd_step [where p = "Schedule conf svc eval pool replicas"])
     apply (rule run)
    apply assumption
    done
  then show ?thesis ..
qed

end

text \<open>
  C17: On services without faults the work on a message succeeds and places the evaluation, with
  nobody else writing meanwhile, whenever: some stored worker of the pool has the capacity;
  every stored worker of the pool with the capacity was stored by the program and has a queue;
  some worker of the result of the capacity query is alive when the clock is read for it, if the
  result is not empty; the queue of the pool exists; and the id drawn for the allocation is not
  taken. Services without faults: reads and queries show what is stored, a limited query finds
  something if something matches, storing an allocation under a free key, an update whose
  condition holds, sending to and deleting from a queue that exists and the random source do not
  fail.
\<close>

theorem schedule_succeeds:
  assumes b: "reliable_backend svc conf view"
    and it: "tables (view w) (WorkersTableName conf) k = Some it" "query_matches (capacity_query conf eval pool) it"
    and ready: "all_ready conf (view w) eval pool"
    and q: "queues (view w) (pool_QueueURL pool) = Some m"
    and find: "(if Dataset eval \<noteq> [] then FindReplicas conf svc eval pool else ret []) w = (w0, Ret replicas)"
    and query: "db_Query svc (capacity_query conf eval pool) w0 = (w1, Inr its)"
    and clock: "clock_readings svc (length (items_of unmarshal_Worker its)) w1 = (w2, ts)"
    and alive: "its \<noteq> [] \<Longrightarrow> alive_at wrk_TTL (items_of unmarshal_Worker its) ts \<noteq> []"
    and free: "\<And>w3 alloc. Schedule conf svc eval pool replicas w0 = (w3, Ret alloc) \<Longrightarrow>
      alloc_at conf (view w) (alloc_PoolID alloc) (alloc_AllocID alloc) = None"
  shows "\<exists>w'. schedule_eval conf svc pool h eval w = (w', Ret ()) \<and> placed conf eval (view w) (view w')"
proof -
  obtain w' where run: "schedule_eval conf svc pool h eval w = (w', Ret ())"
    using reliable_backend.schedule_ok [OF b it ready q find query clock] alive free by blast
  have s: "seq_backend svc conf view"
    by (rule seq_item_backend.is_seq [OF seq_fresh_backend.is_item [OF reliable_backend.axioms(1) [OF b]]])
  have "wp (schedule_eval conf svc pool h eval) (\<lambda>w' r. r = Ret () \<longrightarrow> placed conf eval (view w) (view w')) w"
    by (rule seq_backend.wp_schedule_eval [OF s])
       (simp_all add: scheduled_placed [OF backend.conf_tables [OF seq_backend.is_backend [OF s]]])
  from wp_run [OF this run] run show ?thesis by simp
qed

subsection \<open>The backend in memory has no faults\<close>

lemma stored_lookup: "find (\<lambda>it. key_of conf t it = k) its = Some it \<Longrightarrow> it \<in> set (stored conf t its)"
proof (induction its)
  case (Cons x its)
  then show ?case
    using find_Some_iff [of "\<lambda>it. key_of conf t it = k" its it] by (auto simp: remove_key_def split: if_splits)
qed simp

lemma mem_query_some:
  assumes "mem_Query conf q m = (m', Inr [])" and "q_Limit q = Some (Suc n)"
    and "lookup_item conf m (q_TableName q) key = Some it"
  shows "\<not> query_matches q it"
proof
  assume "query_matches q it"
  with stored_lookup assms(3) have "it \<in> set (filter (query_matches q) (stored conf (q_TableName q) (m_items m (q_TableName q))))"
    by (auto simp: lookup_item_def)
  then have "foldr (insert_by (range_num (q_range q)))
      (filter (query_matches q) (stored conf (q_TableName q) (m_items m (q_TableName q)))) [] \<noteq> []"
    by (metis set_foldr_insert_by empty_iff empty_set)
  with assms(1,2) show False by (auto simp: mem_Query_def Let_def)
qed

lemma mem_reliable:
  assumes "tables_distinct conf"
  shows "reliable_backend (mem_services conf) conf (mem_view conf)"
  unfolding reliable_backend_def
proof (intro conjI mem_seq_fresh_backend [OF assms] reliable_backend_axioms.intro, goal_cases)
  case (1 w a)
  then show ?case
    by (simp add: mem_services_def mem_PutItem_def cond_ok_def key_of_tables [OF assms])
next
  case (2 w t k it c u it')
  moreover from this have "key_of conf t it = key_of conf t k" by (simp add: lookup_key)
  ultimately show ?case by (simp add: mem_services_def mem_UpdateItem_def)
next
  case (3 q w)
  show ?case by (simp add: mem_services_def mem_Query_def Let_def)
next
  case (4 q w w' n key it)
  then show ?case by (auto simp: mem_services_def dest: mem_query_some)
next
  case (5 w url m b)
  then show ?case by (auto simp: mem_services_def mem_SendMessage_def)
next
  case (6 w url m h)
  then show ?case by (auto simp: mem_services_def mem_DeleteMessage_def split: option.split)
next
  case (7 n w)
  show ?case by (simp add: mem_services_def mem_rand_def)
qed

interpretation demo_reliable: reliable_backend demo_svc demo demo_view
  by (rule mem_reliable [OF demo_distinct])

theorem schedule_succeeds_witness:
  "\<exists>w'. schedule_eval demo demo_svc demo_pool ''0'' demo_eval busy_world = (w', Ret ()) \<and>
     placed demo demo_eval (demo_view busy_world) (demo_view w')"
proof -
  have t: "tables (demo_view busy_world) (WorkersTableName demo) (sub_key ''p'' ''w1'') = Some (marshal_Worker demo_worker)"
    by (simp add: busy_world_def mem_run sub_key_def)
  have m: "query_matches (capacity_query demo demo_eval demo_pool) (marshal_Worker demo_worker)"
    by (simp add: capacity_query_def mem_run)
  have only: "it = marshal_Worker demo_worker"
    if "tables (demo_view busy_world) (WorkersTableName demo) k = Some it" for k it
    using that by (auto simp: busy_world_def demo_world_def demo_mem_def lookup_item_def demo_def split: if_splits)
  have ready: "all_ready demo (demo_view busy_world) demo_eval demo_pool"
    unfolding all_ready_def using only
    by (intro allI impI exI [of _ demo_worker])
       (auto simp: mem_services_def demo_worker_def busy_world_def demo_pool_def demo_def naming_defs)
  have q: "queues (demo_view busy_world) (pool_QueueURL demo_pool) = Some {# Some (json_of_Eval demo_eval) #}"
    by (simp add: busy_world_def demo_pool_def)
  have find: "(if Dataset demo_eval \<noteq> [] then FindReplicas demo demo_svc demo_eval demo_pool else ret []) busy_world =
      (busy_world, Ret [])" by (simp add: demo_eval_def ret_def)
  have "\<exists>it. db_Query demo_svc (capacity_query demo demo_eval demo_pool) busy_world = (busy_world, Inr [it]) \<and>
      unmarshal_Worker it = Inr (demo_worker\<lparr>wrk_QueueURL := []\<rparr>)"
    by (simp add: schedule_run busy_world_def)
  then obtain x where query: "db_Query demo_svc (capacity_query demo demo_eval demo_pool) busy_world = (busy_world, Inr [x])"
    and x: "unmarshal_Worker x = Inr (demo_worker\<lparr>wrk_QueueURL := []\<rparr>)" by blast
  have clock: "clock_readings demo_svc (length (items_of unmarshal_Worker [x])) busy_world = (busy_world, [100])"
    by (simp add: x mem_services_def)
  have alive: "alive_at wrk_TTL (items_of unmarshal_Worker [x]) [100] \<noteq> []"
    by (simp add: x demo_worker_def)
  show ?thesis
    by (rule schedule_succeeds [OF demo_reliable.reliable_backend_axioms t m ready q find query clock alive])
       (auto simp: busy_world_def demo_pool_def demo_world_def demo_mem_def lookup_item_def demo_def)
qed

end
