(* ===== verification/Environment.thy ===== *)
theory Environment
  imports Go_Strings
begin

section \<open>Reading the configuration from the environment\<close>

text \<open>
  Both programs fill a struct from the environment with \<open>envconfig.Process("LINE", conf)\<close>. A field
  with the tag \<open>A\<close> (all tags are in upper case) gets the value of the variable \<open>LINE_A\<close>, else that
  of \<open>A\<close>; if neither is set it keeps the zero value of its type, since no field is required or has a
  default. A string is taken as it is, an integer is read by \<open>strconv.ParseInt(value, 0, 64)\<close>, where
  base zero means that a prefix chooses hexadecimal or octal. The environment is a function from the
  names of variables; \<open>None\<close> is a variable that is not set.
\<close>

type_synonym environment = "string \<Rightarrow> string option"

subsection \<open>Integers with a base prefix\<close>

definition digit_in :: "nat \<Rightarrow> char \<Rightarrow> nat option" where
  "digit_in base c =
     (let n = (of_char c :: nat);
          d = (if is_digit c then Some (n - 48)
               else if 97 \<le> n \<and> n \<le> 122 then Some (n - 87)
               else if 65 \<le> n \<and> n \<le> 90 then Some (n - 55) else None)
      in case d of None \<Rightarrow> None | Some v \<Rightarrow> if v < base then Some v else None)"

fun radix_value :: "nat \<Rightarrow> nat \<Rightarrow> string \<Rightarrow> goerr + nat" where
  "radix_value base n [] = Inr n"
| "radix_value base n (c # cs) = (case digit_in base c of
     None \<Rightarrow> Inl (OtherErr ''invalid syntax'')
   | Some d \<Rightarrow>
      if n * base + d < 2 ^ 64 then radix_value base (n * base + d) cs
      else Inl (OtherErr ''value out of range''))"

definition ParseUint0 :: "string \<Rightarrow> goerr + nat" where
  "ParseUint0 s =
     (if s = [] then Inl (OtherErr ''invalid syntax'')
      else if HasPrefix s ''0x'' \<or> HasPrefix s ''0X''
      then (if length s < 3 then Inl (OtherErr ''invalid syntax'') else radix_value 16 0 (drop 2 s))
      else if hd s = CHR ''0'' then radix_value 8 0 (tl s)
      else radix_value 10 0 s)"

definition signed64 :: "bool \<Rightarrow> nat \<Rightarrow> goerr + int64" where
  "signed64 neg n =
     (let i = (if neg then - int n else int n)
      in if in_int64 i then Inr (word_of_int i) else Inl (OtherErr ''value out of range''))"

definition ParseInt0 :: "string \<Rightarrow> goerr + int64" where
  "ParseInt0 s =
     (if s = [] then Inl (OtherErr ''invalid syntax'')
      else if hd s = CHR ''+'' then sbind (ParseUint0 (tl s)) (signed64 False)
      else if hd s = CHR ''-'' then sbind (ParseUint0 (tl s)) (signed64 True)
      else sbind (ParseUint0 s) (signed64 False))"

subsection \<open>Processing the fields of a struct\<close>

text \<open>A field: its tag, for an integer its name and the name of its type, and its setter.\<close>

datatype 'c field =
    StringField string "string \<Rightarrow> 'c \<Rightarrow> 'c"
  | IntField string string string "int64 \<Rightarrow> 'c \<Rightarrow> 'c"

definition env_value :: "environment \<Rightarrow> string \<Rightarrow> string option" where
  "env_value env tag = (case env (''LINE_'' @ tag) of Some v \<Rightarrow> Some v | None \<Rightarrow> env tag)"

definition ParseError :: "string \<Rightarrow> string \<Rightarrow> string \<Rightarrow> string \<Rightarrow> goerr \<Rightarrow> goerr" where
  "ParseError key name typ value e = OtherErr (''envconfig.Process: assigning '' @ key @ '' to '' @ name @
     '': converting '' @ CHR 0x27 # value @ CHR 0x27 # '' to type '' @ typ @ ''. details: '' @ Error_text e)"

fun process_field :: "environment \<Rightarrow> 'c field \<Rightarrow> 'c \<Rightarrow> goerr + 'c" where
  "process_field env (StringField tag upd) c = (case env_value env tag of
     None \<Rightarrow> Inr c | Some v \<Rightarrow> Inr (upd v c))"
| "process_field env (IntField tag name typ upd) c = (case env_value env tag of
     None \<Rightarrow> Inr c
   | Some v \<Rightarrow> (case ParseInt0 v of
       Inl e \<Rightarrow> Inl (ParseError (''LINE_'' @ tag) name typ v e)
     | Inr i \<Rightarrow> Inr (upd i c)))"

fun Process :: "environment \<Rightarrow> 'c field list \<Rightarrow> 'c \<Rightarrow> goerr + 'c" where
  "Process env [] c = Inr c"
| "Process env (f # fs) c = sbind (process_field env f c) (Process env fs)"

subsection \<open>Decimal texts are read back\<close>

lemma digit_in_10: "is_digit c \<Longrightarrow> digit_in 10 c = Some (digit_value c)"
  by (auto simp: digit_in_def digit_value_def is_digit_def Let_def)

lemma radix_value_digits:
  "list_all is_digit s \<Longrightarrow> foldl (\<lambda>n c. 10 * n + digit_value c) n s < 2 ^ 64 \<Longrightarrow>
     radix_value 10 n s = Inr (foldl (\<lambda>n c. 10 * n + digit_value c) n s)"
proof (induction s arbitrary: n)
  case (Cons c s)
  have mono: "m \<le> foldl (\<lambda>n c. 10 * n + digit_value c) m t" for m and t :: string
  proof (induction t arbitrary: m)
    case (Cons a t)
    have "m \<le> 10 * m + digit_value a" by simp
    also have "\<dots> \<le> foldl (\<lambda>n c. 10 * n + digit_value c) (10 * m + digit_value a) t" by (rule Cons.IH)
    finally show ?case by simp
  qed simp
  from mono [of "10 * n + digit_value c" s] Cons.prems(2) have "n * 10 + digit_value c < 2 ^ 64"
    by (simp add: mult.commute)
  with Cons show ?case by (simp add: digit_in_10 mult.commute)
qed simp

lemma ParseUint0_nat_text: "n < 2 ^ 64 \<Longrightarrow> ParseUint0 (nat_text n) = Inr n"
proof (cases "n = 0")
  case True
  then show ?thesis by (simp add: nat_text_0 ParseUint0_def HasPrefix_def)
next
  case False
  assume n: "n < 2 ^ 64"
  have d: "list_all is_digit (nat_text n)" "digits_value (nat_text n) = n" "nat_text n \<noteq> []"
    using nat_text_digits by blast+
  have h: "hd (nat_text n) \<noteq> CHR ''0''" using False by (simp add: nat_text_nonzero)
  then have "\<not> HasPrefix (nat_text n) ''0x''" "\<not> HasPrefix (nat_text n) ''0X''"
    using d(3) by (cases "nat_text n"; simp add: HasPrefix_def)+
  moreover have "radix_value 10 0 (nat_text n) = Inr n"
    using radix_value_digits [OF d(1), of 0] d(2) n by (simp add: digits_value_def)
  ultimately show ?thesis using d(3) h by (simp add: ParseUint0_def)
qed

lemma ParseInt0_int_text: "ParseInt0 (int_text (sint i)) = Inr i"
proof -
  have "in_int64 (sint i)" by simp
  then have r: "nat (sint i) < 2 ^ 64" "nat (- sint i) < 2 ^ 64" by (auto simp: in_int64_def)
  have "hd (nat_text n) \<noteq> CHR ''+'' \<and> hd (nat_text n) \<noteq> CHR ''-'' \<and> nat_text n \<noteq> []" for n
    using nat_text_digits [of n] digit_not_sign by (cases "nat_text n") auto
  with r show ?thesis
    by (auto simp: int_text_def ParseInt0_def ParseUint0_nat_text signed64_def Let_def)
qed

text \<open>A leading zero makes a number octal.\<close>

lemma ParseInt0_octal: "ParseInt0 ''010'' = Inr 8" "ParseInt0 ''0x10'' = Inr 16" "ParseInt0 ''60'' = Inr 60"
  "ParseInt0 ''60s'' = Inl (OtherErr ''invalid syntax'')" "ParseInt0 [] = Inl (OtherErr ''invalid syntax'')"
  by (simp_all add: ParseInt0_def ParseUint0_def HasPrefix_def digit_in_def is_digit_def signed64_def in_int64_def Let_def)

text \<open>The variables that are not set leave their fields; the others are read one by one.\<close>

lemma process_unset:
  "env_value env tag = None \<Longrightarrow> process_field env (StringField tag s) c = Inr c"
  "env_value env tag = None \<Longrightarrow> process_field env (IntField tag n t u) c = Inr c"
  by simp_all

lemma Process_append: "Process env (fs @ gs) c = sbind (Process env fs c) (Process env gs)"
  by (induction fs arbitrary: c) (auto simp: sbind_def split: sum.splits)

text \<open>Processing fails exactly when some integer variable that is set does not parse.\<close>

fun field_ok :: "environment \<Rightarrow> 'c field \<Rightarrow> bool" where
  "field_ok env (StringField tag upd) = True"
| "field_ok env (IntField tag name typ upd) = (case env_value env tag of
     None \<Rightarrow> True | Some v \<Rightarrow> (case ParseInt0 v of Inl _ \<Rightarrow> False | Inr _ \<Rightarrow> True))"

lemma process_field_ok: "(\<exists>c'. process_field env f c = Inr c') \<longleftrightarrow> field_ok env f"
  by (cases f) (auto split: option.split sum.split)

lemma Process_ok: "(\<exists>c'. Process env fs c = Inr c') \<longleftrightarrow> list_all (field_ok env) fs"
proof (induction fs arbitrary: c)
  case (Cons f fs)
  then show ?case
    using process_field_ok [of env f c] by (cases "process_field env f c") auto
qed simp

end
