(* ===== verification/Entry.thy ===== *)
theory Entry
  imports Lambda Environment Memory
begin

section \<open>The start of an invocation (\<open>handler.go\<close>)\<close>

text \<open>
  What \<open>Handle\<close> does before it chooses a handler: it makes a logger, reads \<open>line.Conf\<close> from the
  environment and makes the clients of the services. A failure ends the process by the logger's
  \<open>Fatal\<close>. The logger, the session of the AWS library and the variables are parameters.
\<close>

subsection \<open>The configuration\<close>

definition Conf_fields :: "Conf field list" where
  "Conf_fields =
     [StringField ''DEPLOYMENT'' (\<lambda>s c. c\<lparr>Deployment := s\<rparr>),
      StringField ''AWS_ACCOUNT_ID'' (\<lambda>s c. c\<lparr>AWSAccountID := s\<rparr>),
      StringField ''AWS_ACCESS_KEY_ID'' (\<lambda>s c. c\<lparr>AWSAccessKeyID := s\<rparr>),
      StringField ''AWS_SECRET_ACCESS_KEY'' (\<lambda>s c. c\<lparr>AWSSecretAccessKey := s\<rparr>),
      StringField ''AWS_REGION'' (\<lambda>s c. c\<lparr>AWSRegion := s\<rparr>),
      IntField ''STRIP_BASE_MAPPINGS'' ''StripBaseMappings'' ''int'' (\<lambda>i c. c\<lparr>StripBaseMappings := i\<rparr>),
      IntField ''POOL_TTL'' ''PoolTTL'' ''int64'' (\<lambda>i c. c\<lparr>PoolTTL := i\<rparr>),
      IntField ''WORKER_TTL'' ''WorkerTTL'' ''int64'' (\<lambda>i c. c\<lparr>WorkerTTL := i\<rparr>),
      IntField ''REPLICA_TTL'' ''ReplicaTTL'' ''int64'' (\<lambda>i c. c\<lparr>ReplicaTTL := i\<rparr>),
      IntField ''ALLOC_TTL'' ''AllocTTL'' ''int64'' (\<lambda>i c. c\<lparr>AllocTTL := i\<rparr>),
      IntField ''MAX_RETRY'' ''MaxRetry'' ''int'' (\<lambda>i c. c\<lparr>MaxRetry := i\<rparr>),
      StringField ''SCHEDULE_DLQUEUE_URL'' (\<lambda>s c. c\<lparr>ScheduleDLQueueURL := s\<rparr>),
      StringField ''TABLE_NAME_POOLS'' (\<lambda>s c. c\<lparr>PoolsTableName := s\<rparr>),
      StringField ''TABLE_NAME_REPLICAS'' (\<lambda>s c. c\<lparr>ReplicasTableName := s\<rparr>),
      StringField ''TABLE_IDX_REPLICAS_TTL'' (\<lambda>s c. c\<lparr>ReplicasTTLIdxName := s\<rparr>),
      StringField ''TABLE_IDX_WORKERS_TTL'' (\<lambda>s c. c\<lparr>WorkersTTLIdxName := s\<rparr>),
      StringField ''TABLE_NAME_WORKERS'' (\<lambda>s c. c\<lparr>WorkersTableName := s\<rparr>),
      StringField ''TABLE_IDX_WORKERS_CAP'' (\<lambda>s c. c\<lparr>WorkersCapIdxName := s\<rparr>),
      StringField ''TABLE_NAME_ALLOCS'' (\<lambda>s c. c\<lparr>AllocsTableName := s\<rparr>),
      StringField ''TABLE_IDX_ALLOCS_TTL'' (\<lambda>s c. c\<lparr>AllocsTTLIdxName := s\<rparr>)]"

definition zero_Conf :: Conf where
  "zero_Conf =
     \<lparr>Deployment = [], AWSAccountID = [], AWSAccessKeyID = [], AWSSecretAccessKey = [], AWSRegion =
      [], StripBaseMappings = 0, PoolTTL = 0, WorkerTTL = 0, ReplicaTTL = 0, AllocTTL = 0, MaxRetry =
      0, ScheduleDLQueueURL = [], PoolsTableName = [], ReplicasTableName = [], ReplicasTTLIdxName =
      [], WorkersTTLIdxName = [], WorkersTableName = [], WorkersCapIdxName = [], AllocsTableName =
      [], AllocsTTLIdxName = []\<rparr>"

definition read_Conf :: "environment \<Rightarrow> goerr + Conf" where
  "read_Conf env = Process env Conf_fields zero_Conf"

subsection \<open>The invocation\<close>

record Context =
  FunctionName :: string
  FunctionVersion :: string
  InvokedFunctionARN :: string
  MemoryLimitInMB :: int64
  AWSRequestID :: string
  LogGroupName :: string
  LogStreamName :: string
  RemainingTimeInMillis :: "unit \<Rightarrow> int64"

text \<open>
  \<open>lookup_env\<close> is \<open>os.LookupEnv\<close>, \<open>NewProduction\<close> the error of \<open>zap.NewProduction\<close>, \<open>NewSession\<close> gives
  the clients for a region and the two parts of an access key. An invocation exits the process or
  ends as its handler does.
\<close>

record 'w runtime =
  lookup_env :: environment
  NewProduction :: "goerr option"
  NewSession :: "string \<Rightarrow> string \<Rightarrow> string \<Rightarrow> goerr + 'w services"

datatype invocation = Exits string goerr | Ends lambda_end

text \<open>
  \<open>invoke rt order ev ctx\<close> is \<open>Handle(ev, ctx)\<close>; \<open>order\<close> is the order in which the loop at its end
  iterates the map of handlers.
\<close>

definition invoke ::
  "'w runtime \<Rightarrow> (Conf \<Rightarrow> 'w services \<Rightarrow> (string \<times> 'w handler) list) \<Rightarrow> json \<Rightarrow> Context \<Rightarrow> 'w \<Rightarrow> ('w \<times> invocation) option"
where
  "invoke rt order ev ctx w =
     (case NewProduction rt of
        Some e \<Rightarrow> Some (w, Exits ''failed to create logger'' e)
      | None \<Rightarrow> (case read_Conf (lookup_env rt) of
          Inl e \<Rightarrow> Some (w, Exits ''failed to process env config'' e)
        | Inr conf \<Rightarrow> (case NewSession rt (AWSRegion conf) (AWSAccessKeyID conf) (AWSSecretAccessKey conf) of
            Inl e \<Rightarrow> Some (w, Exits ''failed to setup aws session'' e)
          | Inr svc \<Rightarrow> map_option (\<lambda>(w', e). (w', Ends e)) (Handle (order conf svc) ev (InvokedFunctionARN ctx) w))))"

subsection \<open>Round trip and errors\<close>

text \<open>The variables that hold a configuration.\<close>

definition env_of :: "Conf \<Rightarrow> environment" where
  "env_of conf = map_of
     [(''LINE_DEPLOYMENT'', Deployment conf),
      (''LINE_AWS_ACCOUNT_ID'', AWSAccountID conf),
      (''LINE_AWS_ACCESS_KEY_ID'', AWSAccessKeyID conf),
      (''LINE_AWS_SECRET_ACCESS_KEY'', AWSSecretAccessKey conf),
      (''LINE_AWS_REGION'', AWSRegion conf),
      (''LINE_STRIP_BASE_MAPPINGS'', int_text (sint (StripBaseMappings conf))),
      (''LINE_POOL_TTL'', int_text (sint (PoolTTL conf))),
      (''LINE_WORKER_TTL'', int_text (sint (WorkerTTL conf))),
      (''LINE_REPLICA_TTL'', int_text (sint (ReplicaTTL conf))),
      (''LINE_ALLOC_TTL'', int_text (sint (AllocTTL conf))),
      (''LINE_MAX_RETRY'', int_text (sint (MaxRetry conf))),
      (''LINE_SCHEDULE_DLQUEUE_URL'', ScheduleDLQueueURL conf),
      (''LINE_TABLE_NAME_POOLS'', PoolsTableName conf),
      (''LINE_TABLE_NAME_REPLICAS'', ReplicasTableName conf),
      (''LINE_TABLE_IDX_REPLICAS_TTL'', ReplicasTTLIdxName conf),
      (''LINE_TABLE_IDX_WORKERS_TTL'', WorkersTTLIdxName conf),
      (''LINE_TABLE_NAME_WORKERS'', WorkersTableName conf),
      (''LINE_TABLE_IDX_WORKERS_CAP'', WorkersCapIdxName conf),
      (''LINE_TABLE_NAME_ALLOCS'', AllocsTableName conf),
      (''LINE_TABLE_IDX_ALLOCS_TTL'', AllocsTTLIdxName conf)]"

lemma env_of_values:
  "env_value (env_of conf) ''DEPLOYMENT'' = Some (Deployment conf)"
  "env_value (env_of conf) ''AWS_ACCOUNT_ID'' = Some (AWSAccountID conf)"
  "env_value (env_of conf) ''AWS_ACCESS_KEY_ID'' = Some (AWSAccessKeyID conf)"
  "env_value (env_of conf) ''AWS_SECRET_ACCESS_KEY'' = Some (AWSSecretAccessKey conf)"
  "env_value (env_of conf) ''AWS_REGION'' = Some (AWSRegion conf)"
  "env_value (env_of conf) ''STRIP_BASE_MAPPINGS'' = Some (int_text (sint (StripBaseMappings conf)))"
  "env_value (env_of conf) ''POOL_TTL'' = Some (int_text (sint (PoolTTL conf)))"
  "env_value (env_of conf) ''WORKER_TTL'' = Some (int_text (sint (WorkerTTL conf)))"
  "env_value (env_of conf) ''REPLICA_TTL'' = Some (int_text (sint (ReplicaTTL conf)))"
  "env_value (env_of conf) ''ALLOC_TTL'' = Some (int_text (sint (AllocTTL conf)))"
  "env_value (env_of conf) ''MAX_RETRY'' = Some (int_text (sint (MaxRetry conf)))"
  "env_value (env_of conf) ''SCHEDULE_DLQUEUE_URL'' = Some (ScheduleDLQueueURL conf)"
  "env_value (env_of conf) ''TABLE_NAME_POOLS'' = Some (PoolsTableName conf)"
  "env_value (env_of conf) ''TABLE_NAME_REPLICAS'' = Some (ReplicasTableName conf)"
  "env_value (env_of conf) ''TABLE_IDX_REPLICAS_TTL'' = Some (ReplicasTTLIdxName conf)"
  "env_value (env_of conf) ''TABLE_IDX_WORKERS_TTL'' = Some (WorkersTTLIdxName conf)"
  "env_value (env_of conf) ''TABLE_NAME_WORKERS'' = Some (WorkersTableName conf)"
  "env_value (env_of conf) ''TABLE_IDX_WORKERS_CAP'' = Some (WorkersCapIdxName conf)"
  "env_value (env_of conf) ''TABLE_NAME_ALLOCS'' = Some (AllocsTableName conf)"
  "env_value (env_of conf) ''TABLE_IDX_ALLOCS_TTL'' = Some (AllocsTTLIdxName conf)"
  by (simp_all add: env_value_def env_of_def)

lemma read_env_of: "read_Conf (env_of conf) = Inr conf"
  by (simp add: read_Conf_def Conf_fields_def zero_Conf_def env_of_values ParseInt0_int_text)

text \<open>The integer variables.\<close>

definition int_tags :: "string list" where
  "int_tags = [''STRIP_BASE_MAPPINGS'', ''POOL_TTL'', ''WORKER_TTL'', ''REPLICA_TTL'', ''ALLOC_TTL'', ''MAX_RETRY'']"

definition readable :: "environment \<Rightarrow> bool" where
  "readable env \<longleftrightarrow> list_all (\<lambda>tag. case env_value env tag of
     None \<Rightarrow> True | Some v \<Rightarrow> (case ParseInt0 v of Inl _ \<Rightarrow> False | Inr _ \<Rightarrow> True)) int_tags"

lemma read_Conf_ok: "(\<exists>conf. read_Conf env = Inr conf) \<longleftrightarrow> readable env"
  unfolding read_Conf_def Process_ok by (simp add: Conf_fields_def readable_def int_tags_def)

text \<open>Without variables every lifetime and the number of retries is zero.\<close>

lemma read_Conf_unset: "read_Conf (\<lambda>_. None) = Inr zero_Conf"
  by (simp add: read_Conf_def Conf_fields_def env_value_def)

lemma invoke_cases:
  assumes "invoke rt order ev ctx w = Some (w', r)"
  obtains (exits) m e where "w' = w" and "r = Exits m e"
      and "NewProduction rt \<noteq> None \<or> \<not> readable (lookup_env rt) \<or>
        (\<exists>conf. read_Conf (lookup_env rt) = Inr conf \<and>
          NewSession rt (AWSRegion conf) (AWSAccessKeyID conf) (AWSSecretAccessKey conf) = Inl e)"
    | (runs) conf svc e where "NewProduction rt = None" and "read_Conf (lookup_env rt) = Inr conf"
      and "NewSession rt (AWSRegion conf) (AWSAccessKeyID conf) (AWSSecretAccessKey conf) = Inr svc"
      and "Handle (order conf svc) ev (InvokedFunctionARN ctx) w = Some (w', e)" and "r = Ends e"
proof (cases "NewProduction rt")
  case (Some e)
  with assms show ?thesis by (intro exits) (auto simp: invoke_def)
next
  case log: None
  show ?thesis
  proof (cases "read_Conf (lookup_env rt)")
    case (Inl e)
    then have "\<not> readable (lookup_env rt)" using read_Conf_ok [of "lookup_env rt"] by simp
    with Inl log assms show ?thesis by (intro exits) (auto simp: invoke_def)
  next
    case Inr': (Inr conf)
    show ?thesis
    proof (cases "NewSession rt (AWSRegion conf) (AWSAccessKeyID conf) (AWSSecretAccessKey conf)")
      case (Inl e)
      with Inr' log assms show ?thesis by (intro exits [of _ e]) (auto simp: invoke_def)
    next
      case (Inr svc)
      with Inr' log assms obtain e where "Handle (order conf svc) ev (InvokedFunctionARN ctx) w = Some (w', e)" "r = Ends e"
        by (auto simp: invoke_def)
      with Inr Inr' log show ?thesis by (intro runs) simp_all
    qed
  qed
qed

subsection \<open>Properties\<close>

text \<open>
  C14: Reading the variables that hold a configuration gives back that configuration, every
  field and every 64-bit value.
\<close>

theorem config_roundtrip: "read_Conf (env_of conf) = Inr conf"
  by (rule read_env_of)

text \<open>
  C13: With a working logger and session, an invocation ends the process exactly when some
  integer variable is set to a text that is no 64-bit integer, and then it has no effect.
\<close>

theorem invocation_exits:
  assumes "NewProduction rt = None" and "\<And>region key secret. \<exists>svc. NewSession rt region key secret = Inr svc"
  shows "(\<exists>m e. invoke rt order ev ctx w = Some (w', Exits m e)) \<longleftrightarrow> w' = w \<and> \<not> readable (lookup_env rt)"
proof (cases "read_Conf (lookup_env rt)")
  case (Inl e)
  then have "\<not> readable (lookup_env rt)" using read_Conf_ok [of "lookup_env rt"] by simp
  with Inl assms(1) show ?thesis by (auto simp: invoke_def)
next
  case (Inr conf)
  then have "readable (lookup_env rt)" using read_Conf_ok [of "lookup_env rt"] by blast
  moreover obtain svc where "NewSession rt (AWSRegion conf) (AWSAccessKeyID conf) (AWSSecretAccessKey conf) = Inr svc"
    using assms(2) by blast
  ultimately show ?thesis using Inr assms(1) by (auto simp: invoke_def)
qed

text \<open>A lifetime with a unit is no number.\<close>

definition bad_env :: environment where
  "bad_env = [''LINE_POOL_TTL'' \<mapsto> ''300s'']"

definition demo_ctx :: Context where
  "demo_ctx = \<lparr>FunctionName = [], FunctionVersion = [], InvokedFunctionARN = ''line-release'', MemoryLimitInMB = 128,
     AWSRequestID = [], LogGroupName = [], LogStreamName = [], RemainingTimeInMillis = (\<lambda>_. 0)\<rparr>"

lemma bad_env_unreadable: "\<not> readable bad_env"
  by (simp add: readable_def int_tags_def env_value_def bad_env_def ParseInt0_def ParseUint0_def HasPrefix_def
      digit_in_def is_digit_def Let_def)

theorem invocation_exits_witness:
  "\<exists>m e. invoke \<lparr>lookup_env = bad_env, NewProduction = None, NewSession = (\<lambda>_ _ _. Inr demo_svc)\<rparr> (\<lambda>conf svc. [])
     JNull demo_ctx demo_world = Some (demo_world, Exits m e)"
  using invocation_exits [of "\<lparr>lookup_env = bad_env, NewProduction = None, NewSession = (\<lambda>_ _ _. Inr demo_svc)\<rparr>"
      "\<lambda>conf svc. []" JNull demo_ctx demo_world demo_world] bad_env_unreadable by simp

end
