(* ===== verification/Agent_Loops.thy ===== *)
theory Agent_Loops
  imports Agent
begin

section \<open>The worker agent (\<open>work/main.go\<close>): its loops\<close>

text \<open>
  The goroutines of \<open>main\<close>, each as a function of one event over the world, and the pull loop with
  its ticker and its channel of capacity tokens as a step relation. The docker command line, the
  workflow service, the log service and the queue are parameters.
\<close>

subsection \<open>The services of the agent\<close>

text \<open>
  \<open>docker_run\<close> runs the command line and waits for its end, \<open>docker_out\<close> also returns what it
  wrote to its standard output, \<open>docker_pipe\<close> what it wrote to a pipe for its standard output and
  its standard error. \<open>PutLogEvents\<close> takes the group, the stream, the sequence token and
  the events, and returns the next token.

  All goroutines of \<open>main\<close> share one variable \<open>err\<close>. \<open>err_seen\<close> is its value at the check after a
  call of the log service that returned the given error: another goroutine may have stored its own
  result in between.
\<close>

record 'w agent_services =
  docker_run :: "string list \<Rightarrow> 'w \<Rightarrow> 'w \<times> goerr option"
  docker_out :: "string list \<Rightarrow> 'w \<Rightarrow> 'w \<times> string \<times> goerr option"
  docker_pipe :: "string list \<Rightarrow> 'w \<Rightarrow> 'w \<times> string \<times> goerr option"
  SendTaskHeartbeat :: "string \<Rightarrow> 'w \<Rightarrow> 'w \<times> goerr option"
  SendTaskSuccess :: "string \<Rightarrow> json \<Rightarrow> 'w \<Rightarrow> 'w \<times> goerr option"
  SendTaskFailure :: "string \<Rightarrow> string \<Rightarrow> string \<Rightarrow> 'w \<Rightarrow> 'w \<times> goerr option"
  CreateLogStream :: "string \<Rightarrow> string \<Rightarrow> 'w \<Rightarrow> 'w \<times> goerr option"
  PutLogEvents :: "string \<Rightarrow> string \<Rightarrow> string option \<Rightarrow> InputLogEvent list \<Rightarrow> 'w \<Rightarrow> 'w \<times> (goerr + string option)"
  err_seen :: "goerr option \<Rightarrow> 'w \<Rightarrow> goerr option"
  queue_ReceiveMessage :: "string \<Rightarrow> 'w \<Rightarrow> 'w \<times> (goerr + message list)"
  queue_DeleteMessage :: "string \<Rightarrow> string \<Rightarrow> 'w \<Rightarrow> 'w \<times> goerr option"

text \<open>
  \<open>archive/tar\<close>: a reader over the bytes of an archive; \<open>tar_Next\<close> moves to the next entry,
  \<open>tar_Copy\<close> is \<open>io.Copy\<close> of the rest of the current entry, with the bytes it wrote.
\<close>

record 'r tar =
  tar_NewReader :: "string \<Rightarrow> 'r"
  tar_Next :: "'r \<Rightarrow> 'r \<times> goerr option"
  tar_Copy :: "'r \<Rightarrow> 'r \<times> string \<times> goerr option"

definition io_EOF :: goerr where
  "io_EOF = OtherErr ''EOF''"

subsection \<open>The feedback loop\<close>

text \<open>
  The loop over the entries of the archive ends at the end of the archive only: another error of
  \<open>Next\<close> is not looked at, and an error of the copy continues the loop.
\<close>

partial_function (option) copy_entries :: "'r tar \<Rightarrow> 'r \<Rightarrow> string \<Rightarrow> string option" where
  "copy_entries tar r buf = (case tar_Next tar r of (r1, err) \<Rightarrow>
     if err = Some io_EOF then Some buf
     else (case tar_Copy tar r1 of (r2, s, _) \<Rightarrow> copy_entries tar r2 (buf @ s)))"

definition json_of_TaskResult :: "string \<Rightarrow> string \<Rightarrow> string \<Rightarrow> string \<Rightarrow> json" where
  "json_of_TaskResult pid tid outputID exitStatus =
     JObj [(''project_id'', JStr pid), (''task_id'', JStr tid), (''output_id'', JStr outputID),
       (''exit_status'', JStr exitStatus)]"

definition output_of :: "TaskStatus \<Rightarrow> string \<Rightarrow> json" where
  "output_of st idbuf =
     (let idbuf = if idbuf = [] then ''d-ffffffff'' else idbuf
      in json_of_TaskResult (tc_pid (ts_container st)) (tc_tid (ts_container st)) (TrimSpace idbuf)
           (''Exit Status: '' @ int_text (sint (ts_code st))))"

definition cp_args :: "TaskContainer \<Rightarrow> string list" where
  "cp_args tc = [''cp'', tc_cid tc @ '':/out/.dataset'', ''-'']"

text \<open>\<open>fmt\<close>'s \<open>%v\<close> of an error that may be nil.\<close>

definition err_text :: "goerr option \<Rightarrow> string" where
  "err_text e = (case e of None \<Rightarrow> ''<nil>'' | Some e \<Rightarrow> Error_text e)"

text \<open>The call to the workflow service for a status; \<open>None\<close> if reading the output does not end.\<close>

definition report :: "'w agent_services \<Rightarrow> 'r tar \<Rightarrow> TaskStatus \<Rightarrow> 'w \<Rightarrow> ('w \<times> goerr option) option" where
  "report svc tar st w =
     (let token = tc_token (ts_container st) in
      if sint (ts_code st) < 0 then Some (SendTaskHeartbeat svc token w)
      else if ts_code st = 0 then
        (case docker_out svc (cp_args (ts_container st)) w of (w1, tarbuf, _) \<Rightarrow>
           map_option (\<lambda>idbuf. SendTaskSuccess svc token (output_of st idbuf) w1)
             (copy_entries tar (tar_NewReader tar tarbuf) []))
      else Some (SendTaskFailure svc token
        (''{\"error\": \"'' @ int_text (sint (ts_code st)) @ ''\"}'')
        (''{\"cause\": \"'' @ err_text (ts_err st) @ ''\"}'') w))"

definition ErrCodeTaskTimedOut :: string where
  "ErrCodeTaskTimedOut = ''TaskTimedOut''"

text \<open>The body of the feedback loop: a container whose task timed out is stopped and removed.\<close>

definition feedback :: "'w agent_services \<Rightarrow> 'r tar \<Rightarrow> TaskStatus \<Rightarrow> 'w \<Rightarrow> 'w option" where
  "feedback svc tar st w = map_option (\<lambda>(w1, err).
     (case err of None \<Rightarrow> w1
      | Some e \<Rightarrow>
          if aws_code e = Some ErrCodeTaskTimedOut
          then fst (docker_run svc [''rm'', tc_cid (ts_container st)]
                 (fst (docker_run svc [''stop'', tc_cid (ts_container st)] w1)))
          else w1)) (report svc tar st w)"

text \<open>The scan loop feeds it the lines of \<open>docker ps\<close> in order.\<close>

fun scan_status :: "'w agent_services \<Rightarrow> 'r tar \<Rightarrow> string list \<Rightarrow> 'w \<Rightarrow> 'w option" where
  "scan_status svc tar [] w = Some w"
| "scan_status svc tar (line # lines) w = (case ps_line line of
     None \<Rightarrow> scan_status svc tar lines w
   | Some st \<Rightarrow> (case feedback svc tar st w of
       None \<Rightarrow> None | Some w' \<Rightarrow> scan_status svc tar lines w'))"

subsection \<open>The logging fan-out\<close>

text \<open>
  The containers seen so far; a new one starts a pipeline, given by the group and the name of its
  stream. The list collects the started pipelines.
\<close>

definition fan_out :: "Agent \<Rightarrow> TaskContainer \<Rightarrow> string set \<times> (string \<times> TaskContainer) list \<Rightarrow>
    string set \<times> (string \<times> TaskContainer) list" where
  "fan_out worker tc = (\<lambda>(seen, started).
     if tc_cid tc \<in> seen then (seen, started)
     else (insert (tc_cid tc) seen, started @ [(stream_name worker tc, tc)]))"

subsection \<open>Pushing logs\<close>

text \<open>
  The input of the next \<open>PutLogEvents\<close>: whether its group and stream are set, the sequence token,
  and the buffered events.
\<close>

record push_state =
  named :: bool
  SequenceToken :: "string option"
  LogEvents :: "InputLogEvent list"

definition push_init :: push_state where
  "push_init = \<lparr>named = False, SequenceToken = None, LogEvents = []\<rparr>"

text \<open>
  \<open>put\<close>, with the batch it handed over in a successful call. On an error the output of the call has
  no next token; the rejected events of a successful call are not looked at.
\<close>

definition put ::
  "'w agent_services \<Rightarrow> string \<Rightarrow> string \<Rightarrow> push_state \<Rightarrow> 'w \<Rightarrow> 'w \<times> push_state \<times> InputLogEvent list" where
  "put svc gr stream st w =
     (case (if named st then (w, None)
            else case CreateLogStream svc gr stream w of (w1, err) \<Rightarrow> (w1, err_seen svc err w1)) of
        (w1, Some e) \<Rightarrow> (w1, st, [])
      | (w1, None) \<Rightarrow>
          (let st1 = st\<lparr>named := True\<rparr> in
           case PutLogEvents svc gr stream (SequenceToken st1) (LogEvents st1) w1 of
             (w2, Inl err) \<Rightarrow>
               (case err_seen svc (Some err) w2 of
                  Some e \<Rightarrow> (w2, st1, [])
                | None \<Rightarrow> (w2, st1\<lparr>LogEvents := [], SequenceToken := None\<rparr>, []))
           | (w2, Inr next) \<Rightarrow>
               (case err_seen svc None w2 of
                  Some e \<Rightarrow> (w2, st1, LogEvents st1)
                | None \<Rightarrow> (w2, st1\<lparr>LogEvents := [], SequenceToken := next\<rparr>, LogEvents st1))))"

text \<open>What the select takes: the timeout or an event.\<close>

datatype push_event = Timeout | Got TaskLogEvent

fun push_step :: "'w agent_services \<Rightarrow> string \<Rightarrow> string \<Rightarrow> push_event \<Rightarrow> push_state \<Rightarrow> 'w \<Rightarrow>
    'w \<times> push_state \<times> InputLogEvent list" where
  "push_step svc gr stream Timeout st w =
     (if length (LogEvents st) > 0 then put svc gr stream st w else (w, st, []))"
| "push_step svc gr stream (Got ev) st w =
     (let st1 = st\<lparr>LogEvents := LogEvents st @ [input_log_event ev]\<rparr>
      in if length (LogEvents st1) \<ge> bufSize then put svc gr stream st1 w else (w, st1, []))"

text \<open>The loop over a sequence of events, with everything handed over.\<close>

fun pushLogs :: "'w agent_services \<Rightarrow> string \<Rightarrow> string \<Rightarrow> push_event list \<Rightarrow> push_state \<Rightarrow> 'w \<Rightarrow>
    'w \<times> push_state \<times> InputLogEvent list" where
  "pushLogs svc gr stream [] st w = (w, st, [])"
| "pushLogs svc gr stream (e # es) st w =
     (case push_step svc gr stream e st w of (w1, st1, out) \<Rightarrow>
        (case pushLogs svc gr stream es st1 w1 of (w2, st2, out') \<Rightarrow> (w2, st2, out @ out')))"

subsection \<open>Receiving tasks\<close>

text \<open>The goroutine that runs a task: the container is started, then the message is deleted.\<close>

definition run_task :: "'w agent_services \<Rightarrow> Agent \<Rightarrow> (string \<Rightarrow> string) \<Rightarrow> Task \<times> string \<Rightarrow> 'w \<Rightarrow> 'w" where
  "run_task svc worker sha1 = (\<lambda>(task, handle) w.
     fst (queue_DeleteMessage svc (ag_QueueURL worker) handle
       (fst (docker_run svc (run_args sha1 task) w))))"

text \<open>
  The messages are decoded in order; each decoded one starts a goroutine, the first that does not
  decode ends the loop. The result is the list of started tasks and whether the loop goes on.
\<close>

fun start_tasks :: "(json \<Rightarrow> goerr option) \<Rightarrow> message list \<Rightarrow> (Task \<times> string) list \<times> bool" where
  "start_tasks bad_time [] = ([], True)"
| "start_tasks bad_time (m # ms) = (case json_Unmarshal (Task_of_json bad_time) (msg_Body m) of
     Inl e \<Rightarrow> ([], False)
   | Inr task \<Rightarrow> (case start_tasks bad_time ms of (ts, on) \<Rightarrow> ((task, msg_ReceiptHandle m) # ts, on)))"

definition receive_tasks ::
  "'w agent_services \<Rightarrow> Agent \<Rightarrow> (json \<Rightarrow> goerr option) \<Rightarrow> 'w \<Rightarrow> 'w \<times> (Task \<times> string) list \<times> bool" where
  "receive_tasks svc worker bad_time w = (case queue_ReceiveMessage svc (ag_QueueURL worker) w of
     (w1, Inl e) \<Rightarrow> (w1, [], False)
   | (w1, Inr msgs) \<Rightarrow> (w1, start_tasks bad_time msgs))"

subsection \<open>The pull loop\<close>

text \<open>
  The tokens in the channel, the sends the ticker goroutine still has to do, whether the receiving
  goroutine is alive, the tasks whose container is being started, and the world.
\<close>

record 'w pull_state =
  tokens :: nat
  sends :: nat
  receiving :: bool
  starting :: "(Task \<times> string) list"
  world :: 'w

datatype pull_label = Tick nat | Tick_failed | Send | Receive | Start | Environment

text \<open>\<open>n := bytes.Count(buf, '\n')\<close>; \<open>for i := (cap - n); i > 0; i-- { capCh <- struct{}{} }\<close>\<close>

definition count_lines :: "string \<Rightarrow> nat" where
  "count_lines buf = length (filter (\<lambda>c. c = CHR 0x0A) buf)"

text \<open>
  A tick that comes while the goroutine is still sending is not taken. A send blocks while the
  channel is full. Between the steps the rest of the system may change the world.
\<close>

inductive pull_step ::
  "'w agent_services \<Rightarrow> Agent \<Rightarrow> (string \<Rightarrow> string) \<Rightarrow> (json \<Rightarrow> goerr option) \<Rightarrow>
     'w pull_state \<Rightarrow> pull_label \<Rightarrow> 'w pull_state \<Rightarrow> bool"
  for svc worker sha1 bad_time where
  tick: "sends s = 0 \<Longrightarrow> docker_out svc ps_args (world s) = (w', buf, None) \<Longrightarrow>
     pull_step svc worker sha1 bad_time s (Tick (count_lines buf))
       (s\<lparr>world := w', sends := agent_cap - count_lines buf\<rparr>)"
| tick_failed: "sends s = 0 \<Longrightarrow> docker_out svc ps_args (world s) = (w', buf, Some e) \<Longrightarrow>
     pull_step svc worker sha1 bad_time s Tick_failed (s\<lparr>world := w'\<rparr>)"
| send: "sends s > 0 \<Longrightarrow> tokens s < agent_cap \<Longrightarrow>
     pull_step svc worker sha1 bad_time s Send (s\<lparr>sends := sends s - 1, tokens := tokens s + 1\<rparr>)"
| receive: "receiving s \<Longrightarrow> tokens s > 0 \<Longrightarrow>
     receive_tasks svc worker bad_time (world s) = (w', ts, on) \<Longrightarrow>
     pull_step svc worker sha1 bad_time s Receive
       (s\<lparr>tokens := tokens s - 1, world := w', starting := starting s @ ts, receiving := on\<rparr>)"
| start: "starting s = xs @ t # ys \<Longrightarrow>
     pull_step svc worker sha1 bad_time s Start
       (s\<lparr>world := run_task svc worker sha1 t (world s), starting := xs @ ys\<rparr>)"
| environment: "pull_step svc worker sha1 bad_time s Environment (s\<lparr>world := w'\<rparr>)"

inductive pull_steps ::
  "'w agent_services \<Rightarrow> Agent \<Rightarrow> (string \<Rightarrow> string) \<Rightarrow> (json \<Rightarrow> goerr option) \<Rightarrow>
     'w pull_state \<Rightarrow> pull_label list \<Rightarrow> 'w pull_state \<Rightarrow> bool"
  for svc worker sha1 bad_time where
  none: "pull_steps svc worker sha1 bad_time s [] s"
| more: "pull_step svc worker sha1 bad_time s l s' \<Longrightarrow> pull_steps svc worker sha1 bad_time s' ls s'' \<Longrightarrow>
     pull_steps svc worker sha1 bad_time s (l # ls) s''"

definition pull_init :: "'w \<Rightarrow> 'w pull_state" where
  "pull_init w = \<lparr>tokens = 0, sends = 0, receiving = True, starting = [], world = w\<rparr>"

inductive_cases pull_stepsE: "pull_steps svc worker sha1 bad_time s (l # ls) s'"
inductive_simps pull_step_simps:
  "pull_step svc worker sha1 bad_time s (Tick n) s'"
  "pull_step svc worker sha1 bad_time s Send s'"
  "pull_step svc worker sha1 bad_time s Receive s'"

end
