(* ===== verification/Agent_Properties.thy ===== *)
theory Agent_Properties
  imports Agent_Loops
begin

section \<open>Properties of the worker agent\<close>

subsection \<open>A world that records the calls\<close>

text \<open>
  The claims about the agent: what it reads from docker, which calls it makes for a status, how logs
  are batched, and how its pull loop behaves when receiving fails or containers start slowly. Most
  of them are stated over a world that records the calls: every call is appended to a list. What a
  call returns may depend on everything that was called before: \<open>reply\<close> decides whether it fails,
  \<open>archive\<close> is what docker writes.
\<close>

datatype agent_call =
    Docker "string list"
  | Heartbeat string
  | Success string json
  | Failure string string string
  | Create_stream string string
  | Put_events string "InputLogEvent list"
  | Receive_message string
  | Delete_message string string

type_synonym replies = "agent_call list \<Rightarrow> agent_call \<Rightarrow> goerr option"

definition recording :: "replies \<Rightarrow> (agent_call list \<Rightarrow> string) \<Rightarrow> message list \<Rightarrow> agent_call list agent_services" where
  "recording reply archive msgs =
     \<lparr>docker_run = (\<lambda>args w. (w @ [Docker args], reply w (Docker args))),
      docker_out = (\<lambda>args w. (w @ [Docker args], archive w, reply w (Docker args))),
      docker_pipe = (\<lambda>args w. (w @ [Docker args], archive w, reply w (Docker args))),
      SendTaskHeartbeat = (\<lambda>t w. (w @ [Heartbeat t], reply w (Heartbeat t))),
      SendTaskSuccess = (\<lambda>t j w. (w @ [Success t j], reply w (Success t j))),
      SendTaskFailure = (\<lambda>t e c w. (w @ [Failure t e c], reply w (Failure t e c))),
      CreateLogStream = (\<lambda>g s w. (w @ [Create_stream g s], reply w (Create_stream g s))),
      PutLogEvents = (\<lambda>g s q es w. (w @ [Put_events s es],
        case reply w (Put_events s es) of Some e \<Rightarrow> Inl e | None \<Rightarrow> Inr (Some ''next''))),
      err_seen = (\<lambda>err w. err),
      queue_ReceiveMessage = (\<lambda>u w. (w @ [Receive_message u],
        case reply w (Receive_message u) of Some e \<Rightarrow> Inl e | None \<Rightarrow> Inr msgs)),
      queue_DeleteMessage = (\<lambda>u h w. (w @ [Delete_message u h], reply w (Delete_message u h)))\<rparr>"

text \<open>The answer to a call, after the calls before it, says that the task timed out.\<close>

definition timed_out :: "replies \<Rightarrow> agent_call list \<Rightarrow> agent_call \<Rightarrow> bool" where
  "timed_out reply w c \<longleftrightarrow> (case reply w c of Some e \<Rightarrow> aws_code e = Some ErrCodeTaskTimedOut | None \<Rightarrow> False)"

text \<open>What the feedback loop does after a call: nothing, or the removal of a timed out container.\<close>

definition clean_up :: "replies \<Rightarrow> agent_call list \<Rightarrow> TaskContainer \<Rightarrow> agent_call \<Rightarrow> agent_call list" where
  "clean_up reply w tc c =
     (if timed_out reply w c then [Docker [''stop'', tc_cid tc], Docker [''rm'', tc_cid tc]] else [])"

text \<open>The call to the workflow service for a status, with the output read from the archive.\<close>

definition workflow_call :: "TaskStatus \<Rightarrow> string \<Rightarrow> agent_call" where
  "workflow_call st idbuf =
     (let token = tc_token (ts_container st) in
      if sint (ts_code st) < 0 then Heartbeat token
      else if ts_code st = 0 then Success token (output_of st idbuf)
      else Failure token
        (''{\"error\": \"'' @ int_text (sint (ts_code st)) @ ''\"}'')
        (''{\"cause\": \"'' @ err_text (ts_err st) @ ''\"}''))"

text \<open>All calls for one status.\<close>

definition status_calls :: "replies \<Rightarrow> agent_call list \<Rightarrow> string \<Rightarrow> TaskStatus \<Rightarrow> agent_call list" where
  "status_calls reply w idbuf st =
     (let tc = ts_container st; pre = if ts_code st = 0 then [Docker (cp_args tc)] else [] in
      pre @ workflow_call st idbuf # clean_up reply (w @ pre) tc (workflow_call st idbuf))"

lemma feedback_recording:
  "feedback (recording reply archive msgs) tar st w =
     (if ts_code st = 0
      then map_option (\<lambda>idbuf. w @ status_calls reply w idbuf st) (copy_entries tar (tar_NewReader tar (archive w)) [])
      else Some (w @ status_calls reply w [] st))"
  by (cases "copy_entries tar (tar_NewReader tar (archive w)) []")
     (auto simp: feedback_def report_def recording_def status_calls_def clean_up_def workflow_call_def timed_out_def Let_def
        split: option.splits)

subsection \<open>Reading container states\<close>

text \<open>
  C32: The line that docker ps prints for a container is read back into the container and its
  mounts; a running state has the code -1, an exited one its exit code, and an error always
  comes with the code 255.
\<close>

theorem ps_line_roundtrip:
  assumes "no_tab (tc_cid tc)" and "no_tab st" and "no_tab (tc_token tc)" and "no_tab (tc_pid tc)" and "no_tab (tc_tid tc)"
  shows "\<exists>r. ps_line (ps_text tc st mounts) = Some r \<and> ts_container r = tc \<and> Join (CHR '','') (ts_mounts r) = mounts \<and>
    (is_running st \<longrightarrow> ts_code r = - 1 \<and> ts_err r = None) \<and>
    (\<forall>code rest. st = ''Exited ('' @ int_text (sint code) @ '')'' @ rest \<longrightarrow> ts_code r = code \<and> ts_err r = None) \<and>
    (ts_err r \<noteq> None \<longrightarrow> ts_code r = 255)"
  using ps_line_text [OF assms, of mounts] container_status_cases container_status_error [of st] by auto

theorem ps_line_roundtrip_witness:
  "\<exists>r. ps_line (ps_text \<lparr>tc_cid = ''c'', tc_tid = ''t'', tc_pid = ''p'', tc_token = ''k''\<rparr> ''Exited (3) 2 hours ago'' ''m'') = Some r \<and>
     ts_code r = 3"
proof -
  have "int_text 3 = ''3''" by code_simp
  then have "''Exited (3) 2 hours ago'' = ''Exited ('' @ int_text (sint (3 :: int64)) @ '')'' @ '' 2 hours ago''"
    by simp
  moreover have "no_tab ''c''" "no_tab ''Exited (3) 2 hours ago''" "no_tab ''k''" "no_tab ''p''" "no_tab ''t''"
    by (simp_all add: no_tab_def tab_def)
  ultimately show ?thesis
    using ps_line_roundtrip [of "\<lparr>tc_cid = ''c'', tc_tid = ''t'', tc_pid = ''p'', tc_token = ''k''\<rparr>" "''Exited (3) 2 hours ago''" "''m''"]
    by (metis TaskContainer.select_convs)
qed

subsection \<open>Reporting to the workflow service\<close>

text \<open>A reader whose archive is one entry, the bytes themselves, or that fails for good.\<close>

definition one_entry :: "(string option) tar" where
  "one_entry = \<lparr>tar_NewReader = Some,
     tar_Next = (\<lambda>r. (r, case r of None \<Rightarrow> Some io_EOF | Some s \<Rightarrow> None)),
     tar_Copy = (\<lambda>r. (None, case r of None \<Rightarrow> [] | Some s \<Rightarrow> s, None))\<rparr>"

text \<open>
  C31: The calls for a status line, on every branch: a heartbeat for a running container; for
  the exit code zero the copy of the output and then a success with it, provided the output
  archive can be read to its end (else the loop does not come back); for any other code a
  failure with code and cause. After a reply that the task timed out the container is stopped
  and removed, else nothing follows.
\<close>

theorem status_reported:
  assumes "ps_line line = Some st"
  shows "scan_status (recording reply archive msgs) tar [line] w =
    (if ts_code st = 0
     then map_option (\<lambda>idbuf. w @ status_calls reply w idbuf st) (copy_entries tar (tar_NewReader tar (archive w)) [])
     else Some (w @ status_calls reply w [] st))"
  using assms by (simp add: feedback_recording split: option.split)

theorem status_reported_witness:
  "scan_status (recording (\<lambda>w c. None) (\<lambda>w. ''d-1'') []) one_entry
     [ps_text \<lparr>tc_cid = ''c'', tc_tid = ''t'', tc_pid = ''p'', tc_token = ''k''\<rparr> ''Up 2 hours'' ''m''] [] =
   Some [Heartbeat ''k'']"
proof -
  have up: "is_running ''Up 2 hours''" by (simp add: is_running_def HasPrefix_def)
  have "ps_line (ps_text \<lparr>tc_cid = ''c'', tc_tid = ''t'', tc_pid = ''p'', tc_token = ''k''\<rparr> ''Up 2 hours'' ''m'') =
      Some \<lparr>ts_container = \<lparr>tc_cid = ''c'', tc_tid = ''t'', tc_pid = ''p'', tc_token = ''k''\<rparr>,
        ts_code = - 1, ts_err = None, ts_mounts = [''m'']\<rparr>"
    using ps_line_text [of "\<lparr>tc_cid = ''c'', tc_tid = ''t'', tc_pid = ''p'', tc_token = ''k''\<rparr>" "''Up 2 hours''" "''m''"]
      container_status_cases(1) [OF up] by (simp add: no_tab_def tab_def)
  from status_reported [OF this, of "\<lambda>w c. None" "\<lambda>w. ''d-1''" "[]" one_entry "[]"]
  show ?thesis
    by (simp add: status_calls_def clean_up_def workflow_call_def timed_out_def)
qed

lemma scan_status_appends:
  "scan_status (recording reply archive msgs) tar lines w = Some w' \<Longrightarrow> \<exists>calls. w' = w @ calls"
proof (induction lines arbitrary: w)
  case (Cons line lines)
  then show ?case
    by (force simp: feedback_recording split: option.splits if_splits)
qed simp

lemma status_calls_rm:
  assumes "status_calls reply w idbuf st = u @ Docker [''rm'', cid] # v"
  shows "tc_cid (ts_container st) = cid \<and>
    (\<exists>u'. u = u' @ [workflow_call st idbuf, Docker [''stop'', cid]] \<and> timed_out reply (w @ u') (workflow_call st idbuf))"
proof -
  have "workflow_call st idbuf \<noteq> Docker [''rm'', cid]" by (simp add: workflow_call_def Let_def)
  moreover have "cp_args (ts_container st) \<noteq> [''rm'', cid]" by (simp add: cp_args_def)
  ultimately show ?thesis
    using assms
    by (auto simp: status_calls_def clean_up_def Let_def Cons_eq_append_conv split: if_splits)
qed

text \<open>
  C30: Whenever the agent removes a container, the call before the removal stopped that
  container, and the call before that was the report of its state to the workflow service (the
  heartbeat, success or failure of a line that was read, for the token of that container), which
  was answered with a time-out. The services may answer each call in any way that depends on all
  the calls before.
\<close>

theorem removed_only_if_timed_out:
  assumes "scan_status (recording reply archive msgs) tar lines w = Some (u @ Docker [''rm'', cid] # v)"
    and "length w \<le> length u"
  shows "\<exists>line \<in> set lines. \<exists>st idbuf u'. ps_line line = Some st \<and> tc_cid (ts_container st) = cid \<and>
    u = u' @ [workflow_call st idbuf, Docker [''stop'', cid]] \<and> length w \<le> length u' \<and>
    timed_out reply u' (workflow_call st idbuf)"
  using assms
proof (induction lines arbitrary: w)
  case (Cons line lines)
  show ?case
  proof (cases "ps_line line")
    case None
    with Cons show ?thesis by auto
  next
    case (Some st)
    obtain idbuf where rest: "scan_status (recording reply archive msgs) tar lines (w @ status_calls reply w idbuf st) =
        Some (u @ Docker [''rm'', cid] # v)"
      using Cons.prems(1) Some by (auto simp: feedback_recording split: if_splits option.splits)
    let ?c = "status_calls reply w idbuf st"
    show ?thesis
    proof (cases "length (w @ ?c) \<le> length u")
      case True
      from Cons.IH [OF rest this] show ?thesis by fastforce
    next
      case False
      obtain x where "u @ Docker [''rm'', cid] # v = w @ ?c @ x"
        using scan_status_appends [OF rest] by auto
      moreover from this obtain s1 where u: "u = w @ s1"
        using Cons.prems(2) by (auto simp: append_eq_append_conv2 dest: append_eq_append_conv_if [THEN iffD1])
      ultimately have "\<exists>s2. ?c = s1 @ Docker [''rm'', cid] # s2"
        using False by (auto simp: append_eq_append_conv2 Cons_eq_append_conv intro: sym)
      then have "tc_cid (ts_container st) = cid \<and> (\<exists>u'. s1 = u' @ [workflow_call st idbuf, Docker [''stop'', cid]] \<and>
          timed_out reply (w @ u') (workflow_call st idbuf))"
        using status_calls_rm by blast
      with Some u show ?thesis by fastforce
    qed
  qed
qed simp

text \<open>The status line of a running container, for the examples.\<close>

definition up_container :: TaskContainer where
  "up_container = \<lparr>tc_cid = ''c'', tc_tid = ''t'', tc_pid = ''p'', tc_token = ''k''\<rparr>"

text \<open>A service that answers the second heartbeat with a time-out.\<close>

definition timeout_reply :: replies where
  "timeout_reply w c = (if w = [Heartbeat ''k''] \<and> c = Heartbeat ''k'' then Some (AwsErr ErrCodeTaskTimedOut []) else None)"

lemma up_line: "ps_line (ps_text up_container ''Up 2 hours'' ''m'') =
   Some \<lparr>ts_container = up_container, ts_code = - 1, ts_err = None, ts_mounts = [''m'']\<rparr>"
proof -
  have "is_running ''Up 2 hours''" by (simp add: is_running_def HasPrefix_def)
  with ps_line_text [of up_container "''Up 2 hours''" "''m''"] show ?thesis
    by (simp add: up_container_def no_tab_def tab_def container_status_cases(1))
qed

lemma timeout_run:
  "scan_status (recording timeout_reply (\<lambda>w. []) []) one_entry [ps_text up_container ''Up 2 hours'' ''m''] [Heartbeat ''k''] =
     Some ([Heartbeat ''k'', Heartbeat ''k'', Docker [''stop'', ''c'']] @ Docker [''rm'', ''c''] # [])"
  unfolding scan_status.simps up_line
  by (simp add: feedback_recording status_calls_def clean_up_def workflow_call_def timed_out_def timeout_reply_def
      up_container_def Let_def)

theorem removed_only_if_timed_out_witness:
  "\<exists>st idbuf u'. [Heartbeat ''k'', Heartbeat ''k'', Docker [''stop'', ''c'']] =
       u' @ [workflow_call st idbuf, Docker [''stop'', ''c'']] \<and> timed_out timeout_reply u' (workflow_call st idbuf)"
  using removed_only_if_timed_out [OF timeout_run] by fastforce

subsection \<open>Reading the output of a task\<close>

text \<open>The reader after \<open>n\<close> entries, and the bytes copied on the way.\<close>

fun entries_read :: "'r tar \<Rightarrow> nat \<Rightarrow> 'r \<Rightarrow> 'r \<times> string" where
  "entries_read tar 0 r = (r, [])"
| "entries_read tar (Suc n) r = (case tar_Copy tar (fst (tar_Next tar r)) of (r2, s, _) \<Rightarrow>
     (case entries_read tar n r2 of (r3, t) \<Rightarrow> (r3, s @ t)))"

definition at_end :: "'r tar \<Rightarrow> nat \<Rightarrow> 'r \<Rightarrow> bool" where
  "at_end tar n r \<longleftrightarrow> snd (tar_Next tar (fst (entries_read tar n r))) = Some io_EOF"

lemma at_end_Suc:
  "tar_Next tar r = (r1, err) \<Longrightarrow> tar_Copy tar r1 = (r2, s, e) \<Longrightarrow> at_end tar (Suc n) r = at_end tar n r2"
  by (simp add: at_end_def case_prod_unfold)

lemma copy_entries_end:
  "at_end tar n r \<Longrightarrow> (\<forall>m < n. \<not> at_end tar m r) \<Longrightarrow> copy_entries tar r buf = Some (buf @ snd (entries_read tar n r))"
proof (induction n arbitrary: r buf)
  case 0
  obtain r1 err where n1: "tar_Next tar r = (r1, err)" by fastforce
  with 0 show ?case by (subst copy_entries.simps) (simp add: at_end_def)
next
  case (Suc n)
  obtain r1 err where n1: "tar_Next tar r = (r1, err)" by fastforce
  obtain r2 s e where c: "tar_Copy tar r1 = (r2, s, e)" by (metis prod_cases3)
  have shift: "at_end tar m r2 = at_end tar (Suc m) r" for m
    by (rule at_end_Suc [OF n1 c, symmetric])
  have "err \<noteq> Some io_EOF" using Suc.prems(2) [rule_format, of 0] by (simp add: at_end_def n1)
  then have "copy_entries tar r buf = copy_entries tar r2 (buf @ s)"
    by (subst copy_entries.simps) (simp add: n1 c)
  moreover have "copy_entries tar r2 (buf @ s) = Some ((buf @ s) @ snd (entries_read tar n r2))"
    using Suc.prems by (intro Suc.IH) (auto simp: shift)
  ultimately show ?case by (simp add: n1 c split: prod.split)
qed

lemma copy_entries_ends_imp:
  "copy_entries tar r buf = Some out \<Longrightarrow> \<exists>n. at_end tar n r"
proof -
  assume run: "copy_entries tar r buf = Some out"
  let ?P = "\<lambda>tar0 r buf (out :: string). \<exists>n. at_end tar0 n r"
  have "?P tar r buf out"
  proof (rule copy_entries.raw_induct [where P = ?P, OF _ run])
    fix f tar r buf out
    assume IH: "\<And>tar r buf out. f tar r buf = Some out \<Longrightarrow> ?P tar r buf out"
      and eq: "(case tar_Next tar r of (r1, err) \<Rightarrow> if err = Some io_EOF then Some buf
         else (case tar_Copy tar r1 of (r2, s, _) \<Rightarrow> f tar r2 (buf @ s))) = Some out"
    obtain r1 err where n1: "tar_Next tar r = (r1, err)" by fastforce
    obtain r2 s e where c: "tar_Copy tar r1 = (r2, s, e)" by (metis prod_cases3)
    show "?P tar r buf out"
    proof (cases "err = Some io_EOF")
      case True
      then have "at_end tar 0 r" by (simp add: at_end_def n1)
      then show ?thesis ..
    next
      case False
      with eq n1 c have "f tar r2 (buf @ s) = Some out" by simp
      with IH obtain n where "at_end tar n r2" by blast
      then have "at_end tar (Suc n) r" by (simp add: at_end_Suc [OF n1 c])
      then show ?thesis ..
    qed
  qed
  then show ?thesis .
qed

theorem output_read_ends:
  "copy_entries tar r [] = Some out \<longleftrightarrow>
     (\<exists>n. at_end tar n r \<and> (\<forall>m < n. \<not> at_end tar m r) \<and> out = snd (entries_read tar n r))"
proof
  assume run: "copy_entries tar r [] = Some out"
  then obtain n where n: "at_end tar n r" using copy_entries_ends_imp [OF run] by blast
  define k where "k = (LEAST n. at_end tar n r)"
  have "at_end tar k r" "\<forall>m < k. \<not> at_end tar m r"
    using n unfolding k_def by (auto intro: LeastI dest: not_less_Least)
  with copy_entries_end [of tar k r "[]"] run show
    "\<exists>n. at_end tar n r \<and> (\<forall>m < n. \<not> at_end tar m r) \<and> out = snd (entries_read tar n r)" by auto
qed (auto simp: copy_entries_end)

theorem output_read_ends_witness:
  "copy_entries one_entry (Some ''d-1'') [] = Some ''d-1''"
  using output_read_ends [of one_entry "Some ''d-1''" "''d-1''"]
  by (auto simp: one_entry_def at_end_def io_EOF_def less_Suc_eq intro!: exI [of _ 1])

text \<open>
  An error of the archive other than its end, which the reader then repeats, makes the feedback loop
  hang: no status is processed any more.
\<close>

lemma broken_never_ends:
  assumes "tar_Next tar r = (r, Some e)" and "e \<noteq> io_EOF" and "fst (tar_Copy tar r) = r"
  shows "\<not> at_end tar n r"
proof -
  have "fst (entries_read tar n r) = r" for n
    using assms by (induction n) (auto split: prod.split)
  with assms show ?thesis by (simp add: at_end_def)
qed

text \<open>
  C39: When the archive of a finished container is broken, so that the reader repeats an error
  that is not its end, the feedback loop never comes back and no later line is processed.
\<close>

theorem broken_archive_hangs:
  assumes "ps_line line = Some st" and "ts_code st = 0"
    and "docker_out svc (cp_args (ts_container st)) w = (w1, tarbuf, err)"
    and "tar_Next tar (tar_NewReader tar tarbuf) = (tar_NewReader tar tarbuf, Some e)" and "e \<noteq> io_EOF"
    and "fst (tar_Copy tar (tar_NewReader tar tarbuf)) = tar_NewReader tar tarbuf"
  shows "scan_status svc tar (line # lines) w = None"
proof -
  have "copy_entries tar (tar_NewReader tar tarbuf) [] = None"
    using copy_entries_ends_imp broken_never_ends [OF assms(4-6)] by (metis not_None_eq)
  with assms show ?thesis by (simp add: feedback_def report_def)
qed

text \<open>An archive that is cut off, and the line of a container that ended well.\<close>

definition broken_tar :: "unit tar" where
  "broken_tar = \<lparr>tar_NewReader = (\<lambda>s. ()), tar_Next = (\<lambda>r. (r, Some (OtherErr ''unexpected EOF''))),
     tar_Copy = (\<lambda>r. (r, [], Some (OtherErr ''unexpected EOF'')))\<rparr>"

definition done_status :: TaskStatus where
  "done_status = \<lparr>ts_container = up_container, ts_code = 0, ts_err = None, ts_mounts = [''m'']\<rparr>"

lemma done_line: "ps_line (ps_text up_container ''Exited (0) 1 hour ago'' ''m'') = Some done_status"
proof -
  have "container_status ''Exited (0) 1 hour ago'' = (0, None)" by code_simp
  with ps_line_text [of up_container "''Exited (0) 1 hour ago''" "''m''"] show ?thesis
    by (simp add: up_container_def done_status_def no_tab_def tab_def)
qed

theorem broken_archive_hangs_witness:
  "scan_status (recording (\<lambda>w c. None) (\<lambda>w. []) []) broken_tar
     [ps_text up_container ''Exited (0) 1 hour ago'' ''m'', ps_text up_container ''Up 2 hours'' ''m''] [] = None"
  by (rule broken_archive_hangs [OF done_line, where ?w1.0 = "[Docker (cp_args up_container)]" and tarbuf = "[]" and err = None
      and e = "OtherErr ''unexpected EOF''"])
     (simp_all add: done_status_def recording_def broken_tar_def io_EOF_def)

subsection \<open>Shipping logs\<close>

fun got :: "push_event \<Rightarrow> InputLogEvent list" where
  "got Timeout = []"
| "got (Got ev) = [input_log_event ev]"

text \<open>No other goroutine stores an error between a call of the log service and its check.\<close>

definition own_errors :: "'w agent_services \<Rightarrow> bool" where
  "own_errors svc \<longleftrightarrow> (\<forall>err w. err_seen svc err w = err)"

lemma own_errorsD: "own_errors svc \<Longrightarrow> err_seen svc err w = err"
  by (simp add: own_errors_def)

lemma recording_own_errors: "own_errors (recording reply archive msgs)"
  by (simp add: own_errors_def recording_def)

lemma put_keeps: "put svc gr stream st w = (w', st', out) \<Longrightarrow> own_errors svc \<Longrightarrow> out @ LogEvents st' = LogEvents st"
  by (auto simp: put_def Let_def own_errorsD split: prod.splits option.splits sum.splits if_splits)

text \<open>
  Without that, a nil from another goroutine after a failed call empties the buffer: the events
  are gone.
\<close>

theorem shared_err_loses_logs:
  assumes "named st" and "PutLogEvents svc gr stream (SequenceToken st) (LogEvents st) w = (w1, Inl err)"
    and "err_seen svc (Some err) w1 = None"
  shows "\<exists>st'. put svc gr stream st w = (w1, st', []) \<and> LogEvents st' = []"
proof -
  have "st\<lparr>named := True\<rparr> = st" using assms(1) by simp
  with assms show ?thesis by (simp add: put_def Let_def)
qed

lemma push_step_keeps:
  "push_step svc gr stream e st w = (w', st', out) \<Longrightarrow> own_errors svc \<Longrightarrow> out @ LogEvents st' = LogEvents st @ got e"
  by (cases e) (auto simp: Let_def dest!: put_keeps split: if_splits)

lemma pushLogs_keeps:
  "pushLogs svc gr stream es st w = (w', st', accepted) \<Longrightarrow> own_errors svc \<Longrightarrow>
     accepted @ LogEvents st' = LogEvents st @ concat (map got es)"
proof (induction es arbitrary: st w accepted)
  case (Cons e es)
  obtain w1 st1 out where s: "push_step svc gr stream e st w = (w1, st1, out)" by (metis prod_cases3)
  obtain out' where r: "pushLogs svc gr stream es st1 w1 = (w', st', out')" and a: "accepted = out @ out'"
    using Cons.prems s by (auto split: prod.splits)
  show ?case
    using Cons.IH [OF r Cons.prems(2)] push_step_keeps [OF s Cons.prems(2)] by (simp add: a)
qed simp

theorem logs_in_order:
  assumes "own_errors svc" and "pushLogs svc gr stream es push_init w = (w', st', accepted)"
  shows "accepted @ LogEvents st' = concat (map got es)"
  using pushLogs_keeps [OF assms(2,1)] by (simp add: push_init_def)

text \<open>As long as the service accepts everything, fewer than a full batch is buffered.\<close>

definition log_service_up :: "'w agent_services \<Rightarrow> bool" where
  "log_service_up svc \<longleftrightarrow> own_errors svc \<and> (\<forall>g s w. snd (CreateLogStream svc g s w) = None) \<and>
     (\<forall>g s q es w. \<exists>next. snd (PutLogEvents svc g s q es w) = Inr next)"

lemma log_service_upD:
  assumes "log_service_up svc"
  shows "CreateLogStream svc g s w \<noteq> (w', Some e)" and "PutLogEvents svc g s q es w \<noteq> (w', Inl e')"
  using assms unfolding log_service_up_def by (metis option.distinct(1) snd_conv, metis Inl_Inr_False snd_conv)

lemma put_up: "log_service_up svc \<Longrightarrow> put svc gr stream st w = (w', st', out) \<Longrightarrow> LogEvents st' = []"
  by (auto simp: put_def Let_def log_service_upD log_service_up_def own_errorsD split: prod.splits option.splits sum.splits if_splits)

lemma push_step_up:
  assumes "log_service_up svc" and "push_step svc gr stream e st w = (w', st', out)" and "length (LogEvents st) < bufSize"
  shows "length (LogEvents st') < bufSize" and "e = Timeout \<Longrightarrow> LogEvents st' = []"
  using assms by (cases e; auto simp: Let_def bufSize_def dest!: put_up split: if_splits)+

lemma pushLogs_up:
  assumes "log_service_up svc"
  shows "pushLogs svc gr stream es st w = (w', st', accepted) \<Longrightarrow> length (LogEvents st) < bufSize \<Longrightarrow>
    length (LogEvents st') < bufSize \<and> (es \<noteq> [] \<longrightarrow> last es = Timeout \<longrightarrow> LogEvents st' = [])"
proof (induction es arbitrary: st w accepted)
  case (Cons e es)
  obtain w1 st1 out where s: "push_step svc gr stream e st w = (w1, st1, out)" by (metis prod_cases3)
  obtain out' where r: "pushLogs svc gr stream es st1 w1 = (w', st', out')"
    using Cons.prems s by (auto split: prod.splits)
  show ?case
    using Cons.IH [OF r] push_step_up [OF assms s Cons.prems(2)] r by (cases "es = []") auto
qed simp

text \<open>
  C36: While the log service accepts what it is sent and no other goroutine stores an error in
  the shared variable err in between, fewer events than a full batch are buffered at any moment,
  and after a timeout all of them were sent.
\<close>

theorem log_buffer_bounded:
  assumes "log_service_up svc" and "pushLogs svc gr stream es push_init w = (w', st', accepted)"
  shows "length (LogEvents st') < bufSize \<and>
    (es \<noteq> [] \<and> last es = Timeout \<longrightarrow> accepted = concat (map got es))"
  using pushLogs_up [OF assms] pushLogs_keeps [OF assms(2)] assms(1)
  by (auto simp: push_init_def bufSize_def log_service_up_def)

text \<open>One event, then the timeout.\<close>

definition hello_event :: TaskLogEvent where
  "hello_event = \<lparr>le_container = up_container, le_t = 1500000, le_msg = ''hello''\<rparr>"

lemma hello_run:
  "pushLogs (recording (\<lambda>w c. None) (\<lambda>w. []) []) ''g'' ''s'' [Got hello_event, Timeout] push_init [] =
     ([Create_stream ''g'' ''s'', Put_events ''s'' [input_log_event hello_event]],
      \<lparr>named = True, SequenceToken = Some ''next'', LogEvents = []\<rparr>, [input_log_event hello_event])"
  by (simp add: push_init_def put_def recording_def bufSize_def)

theorem logs_in_order_witness:
  "[input_log_event hello_event] @ [] = concat (map got [Got hello_event, Timeout])"
  using logs_in_order [OF recording_own_errors hello_run] by simp

theorem log_buffer_bounded_witness:
  "[input_log_event hello_event] = concat (map got [Got hello_event, Timeout])"
proof -
  have "log_service_up (recording (\<lambda>w c. None) (\<lambda>w. []) [])" by (simp add: log_service_up_def recording_own_errors) (simp add: recording_def)
  from log_buffer_bounded [OF this hello_run] show ?thesis by simp
qed

subsection \<open>One pipeline for each container\<close>

lemma fan_out_invariant:
  assumes "seen = tc_cid ` snd ` set started" and "distinct (map (tc_cid \<circ> snd) started)"
    and "fold (fan_out worker) tcs (seen, started) = (seen', started')"
  shows "seen' = tc_cid ` snd ` set started'" and "distinct (map (tc_cid \<circ> snd) started')"
    and "seen' = seen \<union> tc_cid ` set tcs"
    and "\<forall>(s, tc) \<in> set started'. (s, tc) \<in> set started \<or> tc \<in> set tcs \<and> s = stream_name worker tc"
proof -
  have "seen' = tc_cid ` snd ` set started' \<and> distinct (map (tc_cid \<circ> snd) started') \<and>
      seen' = seen \<union> tc_cid ` set tcs \<and>
      (\<forall>(s, tc) \<in> set started'. (s, tc) \<in> set started \<or> tc \<in> set tcs \<and> s = stream_name worker tc)"
    using assms
  proof (induction tcs arbitrary: seen started)
    case (Cons tc tcs)
    show ?case
    proof (cases "tc_cid tc \<in> seen")
      case True
      with Cons.IH [OF Cons.prems(1,2)] Cons.prems(3) show ?thesis
        by (auto simp: fan_out_def insert_absorb)
    next
      case False
      with Cons.prems Cons.IH [of "insert (tc_cid tc) seen" "started @ [(stream_name worker tc, tc)]"]
      show ?thesis by (auto simp: fan_out_def image_iff)
    qed
  qed auto
  then show "seen' = tc_cid ` snd ` set started'" and "distinct (map (tc_cid \<circ> snd) started')"
    and "seen' = seen \<union> tc_cid ` set tcs"
    and "\<forall>(s, tc) \<in> set started'. (s, tc) \<in> set started \<or> tc \<in> set tcs \<and> s = stream_name worker tc"
    by blast+
qed

theorem one_pipeline_each:
  "\<exists>seen started. fold (fan_out worker) tcs ({}, []) = (seen, started) \<and> seen = tc_cid ` set tcs \<and>
     distinct (map (tc_cid \<circ> snd) started) \<and> (tc_cid \<circ> snd) ` set started = seen"
proof -
  obtain seen started where r: "fold (fan_out worker) tcs ({}, []) = (seen, started)" by fastforce
  from fan_out_invariant(1-3) [OF _ _ r] r show ?thesis by (auto simp: image_comp)
qed

subsection \<open>The pull loop\<close>

theorem task_deleted_whatever_docker_says:
  "run_task (recording reply archive msgs) worker sha1 (task, handle) w =
     w @ [Docker (run_args sha1 task), Delete_message (ag_QueueURL worker) handle]"
  by (simp add: run_task_def recording_def)

lemma pull_steps_append:
  "pull_steps svc worker sha1 bad_time s ls s' \<Longrightarrow> pull_steps svc worker sha1 bad_time s' ls' s'' \<Longrightarrow>
     pull_steps svc worker sha1 bad_time s (ls @ ls') s''"
  by (induction rule: pull_steps.induct) (auto intro: pull_steps.more)

lemma all_sends:
  "sends s = n \<Longrightarrow> tokens s + n \<le> agent_cap \<Longrightarrow>
     pull_steps svc worker sha1 bad_time s (replicate n Send) (s\<lparr>sends := 0, tokens := tokens s + n\<rparr>)"
proof (induction n arbitrary: s)
  case 0
  then have "s\<lparr>sends := 0, tokens := tokens s + 0\<rparr> = s" by (cases s) simp
  then show ?case using pull_steps.none by (metis replicate_0)
next
  case (Suc n)
  let ?s = "s\<lparr>sends := sends s - 1, tokens := tokens s + 1\<rparr>"
  have "pull_step svc worker sha1 bad_time s Send ?s"
    using Suc.prems by (intro pull_step.send) auto
  moreover have "pull_steps svc worker sha1 bad_time ?s (replicate n Send) (?s\<lparr>sends := 0, tokens := tokens ?s + n\<rparr>)"
    using Suc.prems by (intro Suc.IH) auto
  ultimately show ?case by (auto intro: pull_steps.more)
qed

text \<open>A queue that always has a task, and a listing that shows no container yet.\<close>

definition busy_queue :: "'w agent_services \<Rightarrow> Agent \<Rightarrow> (json \<Rightarrow> goerr option) \<Rightarrow> bool" where
  "busy_queue svc worker bad_time \<longleftrightarrow>
     (\<forall>w. \<exists>w'. docker_out svc ps_args w = (w', [], None)) \<and>
     (\<forall>w. \<exists>w' t. receive_tasks svc worker bad_time w = (w', [t], True))"

lemma all_receives:
  assumes "busy_queue svc worker bad_time"
  shows "tokens s = n \<Longrightarrow> receiving s \<Longrightarrow> \<exists>s'. pull_steps svc worker sha1 bad_time s (replicate n Receive) s' \<and>
     tokens s' = 0 \<and> sends s' = sends s \<and> receiving s' \<and> length (starting s') = length (starting s) + n"
proof (induction n arbitrary: s)
  case 0
  then show ?case by (auto intro: pull_steps.none)
next
  case (Suc n)
  obtain w' t where r: "receive_tasks svc worker bad_time (world s) = (w', [t], True)"
    using assms unfolding busy_queue_def by blast
  let ?s = "s\<lparr>tokens := tokens s - 1, world := w', starting := starting s @ [t], receiving := True\<rparr>"
  have step: "pull_step svc worker sha1 bad_time s Receive ?s"
    using Suc.prems by (intro pull_step.receive [OF _ _ r]) auto
  obtain s' where "pull_steps svc worker sha1 bad_time ?s (replicate n Receive) s'" "tokens s' = 0" "sends s' = sends ?s"
      "receiving s'" "length (starting s') = length (starting ?s) + n"
    using Suc.IH [of ?s] Suc.prems by auto
  with step show ?case by (auto intro: pull_steps.more)
qed

text \<open>
  C38: With a busy queue and containers that take longer to start than the ticks, any multiple
  of the capacity of tasks is being started at once: the capacity of the agent bounds nothing.
\<close>

theorem agent_overcommits:
  assumes "busy_queue svc worker bad_time"
  shows "\<exists>ls s. pull_steps svc worker sha1 bad_time (pull_init w) ls s \<and> length (starting s) = k * agent_cap"
proof -
  have "\<exists>ls s. pull_steps svc worker sha1 bad_time (pull_init w) ls s \<and> length (starting s) = k * agent_cap \<and>
      tokens s = 0 \<and> sends s = 0 \<and> receiving s"
  proof (induction k)
    case 0
    show ?case by (intro exI [of _ "[]"] exI [of _ "pull_init w"]) (simp add: pull_steps.none pull_init_def)
  next
    case (Suc k)
    then obtain ls s where run: "pull_steps svc worker sha1 bad_time (pull_init w) ls s"
      and s: "length (starting s) = k * agent_cap" "tokens s = 0" "sends s = 0" "receiving s" by blast
    obtain w1 where d: "docker_out svc ps_args (world s) = (w1, [], None)"
      using assms unfolding busy_queue_def by blast
    let ?s1 = "s\<lparr>world := w1, sends := agent_cap\<rparr>"
    have "pull_step svc worker sha1 bad_time s (Tick 0) ?s1"
      using pull_step.tick [OF s(3) d] by (simp add: count_lines_def)
    then have "pull_steps svc worker sha1 bad_time s [Tick 0] ?s1"
      by (auto intro: pull_steps.intros)
    moreover have "pull_steps svc worker sha1 bad_time ?s1 (replicate agent_cap Send)
        (?s1\<lparr>sends := 0, tokens := tokens ?s1 + agent_cap\<rparr>)"
      using s by (intro all_sends) auto
    moreover obtain s' where "pull_steps svc worker sha1 bad_time (?s1\<lparr>sends := 0, tokens := tokens ?s1 + agent_cap\<rparr>)
        (replicate agent_cap Receive) s'" "tokens s' = 0" "sends s' = 0" "receiving s'"
        "length (starting s') = length (starting s) + agent_cap"
      using all_receives [OF assms, of "?s1\<lparr>sends := 0, tokens := tokens ?s1 + agent_cap\<rparr>" agent_cap sha1] s by auto
    ultimately show ?case
      using pull_steps_append run s(1) by (metis add.commute mult_Suc)
  qed
  then show ?thesis by blast
qed

text \<open>An agent, and a queue with a message for an empty task.\<close>

definition demo_agent :: Agent where
  "demo_agent = \<lparr>ag_LogGroupName = ''foobar'', ag_WorkerID = [], ag_QueueURL = ''q''\<rparr>"

definition task_message :: message where
  "task_message = \<lparr>msg_ReceiptHandle = ''h'', msg_Body = Some (JObj [])\<rparr>"

theorem agent_overcommits_witness:
  "\<exists>ls s. pull_steps (recording (\<lambda>w c. None) (\<lambda>w. []) [task_message]) demo_agent (\<lambda>s. s) (\<lambda>j. None) (pull_init []) ls s \<and>
     length (starting s) = 10"
proof -
  have "busy_queue (recording (\<lambda>w c. None) (\<lambda>w. []) [task_message]) demo_agent (\<lambda>j. None)"
    by (simp add: busy_queue_def recording_def receive_tasks_def task_message_def json_Unmarshal_def Task_of_json_def)
  from agent_overcommits [OF this, of "\<lambda>s. s" "[]" 2] show ?thesis by (simp add: agent_cap_def)
qed

subsection \<open>The end of the pull loop\<close>

definition free_tick :: "pull_label \<Rightarrow> bool" where
  "free_tick l \<longleftrightarrow> (case l of Tick n \<Rightarrow> n < agent_cap | _ \<Rightarrow> False)"

lemma tokens_bounded:
  "pull_steps svc worker sha1 bad_time s ls s' \<Longrightarrow> tokens s \<le> agent_cap \<Longrightarrow> tokens s' \<le> agent_cap"
  by (induction rule: pull_steps.induct) (auto elim!: pull_step.cases)

lemma stalled_ticks:
  "pull_steps svc worker sha1 bad_time s ls s' \<Longrightarrow> \<not> receiving s \<Longrightarrow> tokens s \<le> agent_cap \<Longrightarrow>
     length (filter free_tick ls) \<le> Suc agent_cap - (tokens s + sends s)"
proof (induction rule: pull_steps.induct)
  case (more s l s' ls s'')
  from more.hyps(1) more.IH more.prems show ?case
    by (cases rule: pull_step.cases) (auto simp: free_tick_def)
qed simp

text \<open>
  C37: Once the receiving goroutine has ended, which one failed receive is enough for, the agent
  lists its containers with a free slot at most six more times: the ticker goroutine blocks on
  the channel of tokens.
\<close>

theorem pull_loop_stalls:
  assumes "pull_steps svc worker sha1 bad_time (pull_init w) ls s" and "\<not> receiving s"
    and "pull_steps svc worker sha1 bad_time s ls' s'"
  shows "length (filter free_tick ls') \<le> Suc agent_cap"
  using stalled_ticks [OF assms(3,2)] tokens_bounded [OF assms(1)] by (simp add: pull_init_def)

text \<open>A receive that fails ends the receiving goroutine.\<close>

definition no_receive :: replies where
  "no_receive w c = (case c of Receive_message _ \<Rightarrow> Some (OtherErr ''timeout'') | _ \<Rightarrow> None)"

lemma stalled_run:
  "\<exists>s. pull_steps (recording no_receive (\<lambda>w. []) []) demo_agent (\<lambda>s. s) (\<lambda>j. None) (pull_init []) [Tick 0, Send, Receive] s \<and>
     \<not> receiving s"
proof -
  let ?svc = "recording no_receive (\<lambda>w. []) []"
  let ?s1 = "\<lparr>tokens = 0, sends = 5, receiving = True, starting = [], world = [Docker ps_args]\<rparr>"
  let ?s2 = "\<lparr>tokens = 1, sends = 4, receiving = True, starting = [], world = [Docker ps_args]\<rparr>"
  let ?s3 = "\<lparr>tokens = 0, sends = 4, receiving = False, starting = [], world = [Docker ps_args, Receive_message ''q'']\<rparr>"
  have "pull_step ?svc demo_agent (\<lambda>s. s) (\<lambda>j. None) (pull_init []) (Tick 0) ?s1"
    by (simp add: pull_step_simps pull_init_def recording_def count_lines_def no_receive_def agent_cap_def)
  moreover have "pull_step ?svc demo_agent (\<lambda>s. s) (\<lambda>j. None) ?s1 Send ?s2"
    by (simp add: pull_step_simps agent_cap_def)
  moreover have "pull_step ?svc demo_agent (\<lambda>s. s) (\<lambda>j. None) ?s2 Receive ?s3"
    by (auto simp add: pull_step_simps receive_tasks_def recording_def no_receive_def demo_agent_def)
  ultimately have "pull_steps ?svc demo_agent (\<lambda>s. s) (\<lambda>j. None) (pull_init []) [Tick 0, Send, Receive] ?s3"
    by (meson pull_steps.more pull_steps.none)
  then show ?thesis by (intro exI [of _ ?s3]) simp
qed

theorem pull_loop_stalls_witness:
  "\<exists>s. \<not> receiving s \<and> (\<forall>ls' s'. pull_steps (recording no_receive (\<lambda>w. []) []) demo_agent (\<lambda>s. s) (\<lambda>j. None) s ls' s' \<longrightarrow>
     length (filter free_tick ls') \<le> 6)"
proof -
  obtain s where "pull_steps (recording no_receive (\<lambda>w. []) []) demo_agent (\<lambda>s. s) (\<lambda>j. None) (pull_init []) [Tick 0, Send, Receive] s"
    "\<not> receiving s" using stalled_run by blast
  with pull_loop_stalls [OF this] show ?thesis by (auto simp: agent_cap_def)
qed

end
