(* ===== verification/Agent_Main.thy ===== *)
theory Agent_Main
  imports Agent_Properties Environment
begin

section \<open>The worker agent (\<open>work/main.go\<close>): start, logging pipeline and main loop\<close>

text \<open>
  What \<open>main\<close> does before its loops, the pipeline that carries the output of a container to the log
  service (\<open>pipeLogs\<close>, \<open>scanLogs\<close> and \<open>pushLogs\<close> put together), and the loop at its end, which takes
  signals and container states.
\<close>

subsection \<open>The start\<close>

definition work_Conf_fields :: "work_Conf field list" where
  "work_Conf_fields =
     [StringField ''DEPLOYMENT'' (\<lambda>s c. c\<lparr>w_Deployment := s\<rparr>),
      StringField ''STATE_MACHINE_ARN'' (\<lambda>s c. c\<lparr>w_StateMachineARN := s\<rparr>),
      StringField ''RUN_ACTIVITY_ARN'' (\<lambda>s c. c\<lparr>w_RunActivityARN := s\<rparr>),
      StringField ''TABLE_WORKERS_NAME'' (\<lambda>s c. c\<lparr>w_WorkersTableName := s\<rparr>),
      StringField ''TABLE_WORKERS_IDX_CAP'' (\<lambda>s c. c\<lparr>w_WorkersTableCapIdx := s\<rparr>),
      StringField ''AWS_ACCESS_KEY_ID'' (\<lambda>s c. c\<lparr>w_AWSAccessKeyID := s\<rparr>),
      StringField ''AWS_SECRET_ACCESS_KEY'' (\<lambda>s c. c\<lparr>w_AWSSecretAccessKey := s\<rparr>),
      StringField ''AWS_REGION'' (\<lambda>s c. c\<lparr>w_AWSRegion := s\<rparr>),
      StringField ''POOL_QUEUE_URL'' (\<lambda>s c. c\<lparr>w_PoolQueueURL := s\<rparr>)]"

definition zero_work_Conf :: work_Conf where
  "zero_work_Conf =
     \<lparr>w_Deployment = [], w_StateMachineARN = [], w_RunActivityARN = [], w_WorkersTableName = [],
      w_WorkersTableCapIdx = [], w_AWSAccessKeyID = [], w_AWSSecretAccessKey = [], w_AWSRegion = [],
      w_PoolQueueURL = []\<rparr>"

text \<open>
  \<open>ar_NewSession\<close> gives the clients for a region and an access key, still without the path of the
  docker program; \<open>ar_LookPath\<close> is \<open>exec.LookPath\<close>. A failure ends the process with a message.
\<close>

record 'w agent_runtime =
  ar_env :: environment
  ar_NewSession :: "string \<Rightarrow> string \<Rightarrow> string \<Rightarrow> goerr + (string \<Rightarrow> 'w agent_services)"
  ar_LookPath :: "string \<Rightarrow> goerr + string"

definition main_setup :: "'w agent_runtime \<Rightarrow> string \<times> goerr + Agent \<times> 'w agent_services" where
  "main_setup rt =
     (case Process (ar_env rt) work_Conf_fields zero_work_Conf of
        Inl e \<Rightarrow> Inl (''failed to process env config'', e)
      | Inr conf \<Rightarrow>
         (case ar_NewSession rt (w_AWSRegion conf) (w_AWSAccessKeyID conf) (w_AWSSecretAccessKey conf) of
            Inl e \<Rightarrow> Inl (''failed to setup aws session'', e)
          | Inr clients \<Rightarrow> (case ar_LookPath rt ''docker'' of
              Inl e \<Rightarrow> Inl ([], e)
            | Inr exe \<Rightarrow> Inr (new_agent conf, clients exe))))"

text \<open>Reading strings cannot fail.\<close>

lemma work_Conf_read: "\<exists>conf. Process env work_Conf_fields zero_work_Conf = Inr conf"
  unfolding Process_ok by (simp add: work_Conf_fields_def)

subsection \<open>The logging pipeline\<close>

definition newline :: char where "newline = CHR 0x0A"

text \<open>
  The arguments of \<open>docker logs\<close>, and \<open>pipeLogs\<close> with what it wrote to the pipe; an error is
  printed only. The pipe is never closed, so the scanner at its other end never sees its end: it
  gets the complete lines, without a carriage return at their ends. A line that does not fit into the
  buffer of \<open>bufio.Scanner\<close> with its line end (\<open>MaxScanTokenSize\<close>) ends the scan with an error that
  \<open>scanLogs\<close> prints.
\<close>

definition MaxScanTokenSize :: nat where
  "MaxScanTokenSize = 65536"

definition log_args :: "TaskContainer \<Rightarrow> string list" where
  "log_args tc = [''logs'', ''-f'', ''-t'', tc_cid tc]"

definition pipeLogs :: "'w agent_services \<Rightarrow> TaskContainer \<Rightarrow> 'w \<Rightarrow> 'w \<times> string" where
  "pipeLogs svc tc w = (case docker_pipe svc (log_args tc) w of (w', out, _) \<Rightarrow> (w', out))"

definition drop_cr :: "string \<Rightarrow> string" where
  "drop_cr s = (if s \<noteq> [] \<and> last s = CHR 0x0D then butlast s else s)"

definition pipe_lines :: "string \<Rightarrow> string list" where
  "pipe_lines out = map drop_cr (takeWhile (\<lambda>l. length l < MaxScanTokenSize) (butlast (Split newline out)))"

text \<open>What \<open>scanLogs\<close> sends for the output of a container.\<close>

definition logged_events :: "(string \<Rightarrow> goerr + int64) \<Rightarrow> TaskContainer \<Rightarrow> string \<Rightarrow> TaskLogEvent list" where
  "logged_events parse_time tc out = scan_logs parse_time tc (pipe_lines out)"

text \<open>The output that docker prints for time stamps and messages.\<close>

definition log_text :: "(string \<times> string) list \<Rightarrow> string" where
  "log_text ls = concat (map (\<lambda>(t, msg). t @ CHR '' '' # msg @ [newline]) ls)"

definition log_entry :: "string \<times> string \<Rightarrow> bool" where
  "log_entry = (\<lambda>(t, msg). newline \<notin> set (t @ msg) \<and> CHR '' '' \<notin> set t \<and> (msg \<noteq> [] \<longrightarrow> last msg \<noteq> CHR 0x0D) \<and>
     Suc (length t + length msg) < MaxScanTokenSize)"

text \<open>Output that the scanner does not get to: a line without an end, or one that is too long and all behind it.\<close>

definition not_scanned :: "string \<Rightarrow> bool" where
  "not_scanned rest \<longleftrightarrow> newline \<notin> set rest \<or>
     (\<exists>l more. rest = l @ newline # more \<and> newline \<notin> set l \<and> length l \<ge> MaxScanTokenSize)"

lemma Split_lines:
  assumes "\<forall>l \<in> set ls. c \<notin> set l"
  shows "Split c (concat (map (\<lambda>l. l @ [c]) ls) @ rest) = ls @ Split c rest"
  using assms by (induction ls) (simp_all add: Split_append)

lemma pipe_lines_text:
  assumes "\<forall>l \<in> set ls. newline \<notin> set l \<and> length l < MaxScanTokenSize" and "not_scanned rest"
  shows "pipe_lines (concat (map (\<lambda>l. l @ [newline]) ls) @ rest) = map drop_cr ls"
proof -
  have "takeWhile (\<lambda>l. length l < MaxScanTokenSize) (butlast (Split newline rest)) = []"
    using assms(2) unfolding not_scanned_def
    by (auto simp: Split_no_sep Split_append)
  then show ?thesis
    using assms(1) by (simp add: pipe_lines_def Split_lines butlast_append takeWhile_append2)
qed

lemma log_line_entry:
  assumes "log_entry (t, msg)" and "parse_time t = Inr i"
  shows "log_line parse_time tc (drop_cr (t @ CHR '' '' # msg)) =
    (if msg = [] then None else Some \<lparr>le_container = tc, le_t = i, le_msg = msg\<rparr>)"
proof -
  have c: "drop_cr (t @ CHR '' '' # msg) = t @ CHR '' '' # msg"
    using assms(1) by (auto simp: drop_cr_def log_entry_def)
  have "SplitN (CHR '' '') 2 (t @ CHR '' '' # msg) = [t, msg]"
    using assms(1) by (simp add: SplitN_def numeral_eq_Suc cut_at_Some log_entry_def)
  with assms(2) show ?thesis by (simp add: c log_line_def Let_def)
qed

lemma log_text_lines: "log_text ls = concat (map (\<lambda>l. l @ [newline]) (map (\<lambda>(t, msg). t @ CHR '' '' # msg) ls))"
  by (simp add: log_text_def comp_def case_prod_unfold)

lemma logged_events_text:
  assumes "list_all log_entry ls" and "\<forall>(t, msg) \<in> set ls. parse_time t = Inr (time_of t)" and "not_scanned rest"
  shows "logged_events parse_time tc (log_text ls @ rest) =
    map (\<lambda>(t, msg). \<lparr>le_container = tc, le_t = time_of t, le_msg = msg\<rparr>) (filter (\<lambda>(t, msg). msg \<noteq> []) ls)"
proof -
  have n: "\<forall>l \<in> set (map (\<lambda>(t, msg). t @ CHR '' '' # msg) ls). newline \<notin> set l \<and> length l < MaxScanTokenSize"
    using assms(1) by (auto simp: list_all_iff log_entry_def newline_def)
  have "scan_logs parse_time tc (map drop_cr (map (\<lambda>(t, msg). t @ CHR '' '' # msg) ls)) =
      map (\<lambda>(t, msg). \<lparr>le_container = tc, le_t = time_of t, le_msg = msg\<rparr>) (filter (\<lambda>(t, msg). msg \<noteq> []) ls)"
    using assms(1,2)
    by (induction ls) (auto simp: scan_logs_def List.map_filter_simps log_line_entry)
  then show ?thesis
    unfolding logged_events_def log_text_lines pipe_lines_text [OF n assms(3)] .
qed

text \<open>The events among what the loop of \<open>pushLogs\<close> takes.\<close>

fun taken :: "push_event list \<Rightarrow> TaskLogEvent list" where
  "taken [] = []"
| "taken (Timeout # es) = taken es"
| "taken (Got ev # es) = ev # taken es"

lemma got_taken: "concat (map got es) = map input_log_event (taken es)"
  by (induction es rule: taken.induct) simp_all

text \<open>
  C33: Of what docker prints for a container, what is handed to the log service in successful
  calls of PutLogEvents, together with the buffer, is exactly the terminated lines with a
  message, in order, with their time stamps, however often the service fails: none is dropped,
  repeated or moved on the way. This goes up to the first line that does not fit the 64 KB
  buffer of the scanner: neither that line and anything behind it nor an unterminated last line
  ever arrives. It holds as long as no other goroutine stores its own result in the shared
  variable err between a call and its check; single events that a successful call rejects are
  not counted out, as the code does not look at them.
\<close>

theorem container_logs_shipped:
  assumes "pipeLogs svc tc w0 = (w1, log_text ls @ rest)" and "not_scanned rest"
    and "list_all log_entry ls" and "\<forall>(t, msg) \<in> set ls. parse_time t = Inr (time_of t)"
    and "taken es = logged_events parse_time tc (snd (pipeLogs svc tc w0))"
    and "own_errors svc" and "pushLogs svc gr stream es push_init w = (w', st', accepted)"
  shows "accepted @ LogEvents st' =
    map (\<lambda>(t, msg). input_log_event \<lparr>le_container = tc, le_t = time_of t, le_msg = msg\<rparr>)
      (filter (\<lambda>(t, msg). msg \<noteq> []) ls)"
proof -
  have "accepted @ LogEvents st' = concat (map got es)"
    using pushLogs_keeps [OF assms(7,6)] by (simp add: push_init_def)
  also have "\<dots> = map input_log_event (logged_events parse_time tc (log_text ls @ rest))"
    using assms(1,5) by (simp add: got_taken)
  finally show ?thesis
    by (simp add: logged_events_text [OF assms(3,4,2)] comp_def case_prod_unfold)
qed

text \<open>Two lines and the beginning of a third; the clock reads every time stamp as 1500000.\<close>

definition hello_text :: string where
  "hello_text = log_text [(''t'', ''hello''), (''t'', [])] @ ''t wor''"

lemma hello_taken: "taken [Got hello_event, Timeout] = logged_events (\<lambda>_. Inr 1500000) up_container hello_text"
  unfolding hello_text_def
  by (subst logged_events_text [where time_of = "\<lambda>_. 1500000"]) (simp_all add: log_entry_def newline_def hello_event_def not_scanned_def MaxScanTokenSize_def)

theorem container_logs_shipped_witness:
  "\<exists>w' st' accepted. pushLogs (recording (\<lambda>w c. None) (\<lambda>w. hello_text) []) ''g'' ''s'' [Got hello_event, Timeout] push_init [] = (w', st', accepted) \<and>
     accepted @ LogEvents st' = [input_log_event \<lparr>le_container = up_container, le_t = 1500000, le_msg = ''hello''\<rparr>]"
proof -
  have pipe: "pipeLogs (recording (\<lambda>w c. None) (\<lambda>w. hello_text) []) up_container [] =
      ([Docker (log_args up_container)], log_text [(''t'', ''hello''), (''t'', [])] @ ''t wor'')"
    by (simp add: pipeLogs_def recording_def hello_text_def)
  obtain w' st' accepted where run: "pushLogs (recording (\<lambda>w c. None) (\<lambda>w. hello_text) []) ''g'' ''s''
      [Got hello_event, Timeout] push_init [] = (w', st', accepted)"
    by (metis prod_cases3)
  have "taken [Got hello_event, Timeout] = logged_events (\<lambda>_. Inr 1500000) up_container
      (snd (pipeLogs (recording (\<lambda>w c. None) (\<lambda>w. hello_text) []) up_container []))"
    unfolding pipe snd_conv by (rule hello_taken [unfolded hello_text_def])
  from container_logs_shipped [OF pipe _ _ _ this recording_own_errors run, of "\<lambda>_. 1500000"]
  have "accepted @ LogEvents st' = [input_log_event \<lparr>le_container = up_container, le_t = 1500000, le_msg = ''hello''\<rparr>]"
    by (simp add: log_entry_def newline_def not_scanned_def MaxScanTokenSize_def)
  with run show ?thesis by blast
qed

subsection \<open>The main loop\<close>

text \<open>What the select of the main loop takes.\<close>

datatype main_event = Interrupt | Status TaskStatus

text \<open>
  A signal ends the loop and the process. A status first goes to the logging routine, then to the
  workflow service. The result holds the pipelines started so far, and, unless the loop hangs, the
  world and whether the loop has ended.
\<close>

fun main_loop :: "'w agent_services \<Rightarrow> 'r tar \<Rightarrow> Agent \<Rightarrow> main_event list \<Rightarrow>
    string set \<times> (string \<times> TaskContainer) list \<Rightarrow> 'w \<Rightarrow> (string set \<times> (string \<times> TaskContainer) list) \<times> ('w \<times> bool) option" where
  "main_loop svc tar worker [] fan w = (fan, Some (w, False))"
| "main_loop svc tar worker (Interrupt # es) fan w = (fan, Some (w, True))"
| "main_loop svc tar worker (Status st # es) fan w =
     (let fan' = fan_out worker (ts_container st) fan in
      case feedback svc tar st w of
        None \<Rightarrow> (fan', None)
      | Some w' \<Rightarrow> main_loop svc tar worker es fan' w')"

lemma main_loop_append:
  "Interrupt \<notin> set es \<Longrightarrow> main_loop svc tar worker (es @ es') fan w =
     (case main_loop svc tar worker es fan w of
        (fan', None) \<Rightarrow> (fan', None) | (fan', Some (w', _)) \<Rightarrow> main_loop svc tar worker es' fan' w')"
  by (induction svc tar worker es fan w rule: main_loop.induct) (auto simp: Let_def split: option.splits)

text \<open>A running container, for the example.\<close>

definition running_status :: TaskStatus where
  "running_status = \<lparr>ts_container = up_container, ts_code = - 1, ts_err = None, ts_mounts = [''m'']\<rparr>"

text \<open>The containers whose state the loop takes have exactly one pipeline each.\<close>

theorem main_loop_pipelines:
  assumes "main_loop svc tar worker (map Status sts) ({}, []) w = ((seen, started), Some (w', done))"
  shows "distinct (map (tc_cid \<circ> snd) started) \<and> (tc_cid \<circ> snd) ` set started = tc_cid ` ts_container ` set sts"
proof -
  have "fan' = fold (fan_out worker) (map ts_container sts) fan"
    if "main_loop svc tar worker (map Status sts) fan w = (fan', Some r)" for fan fan' r
    using that by (induction sts arbitrary: fan w) (auto simp: Let_def split: option.splits)
  from this [OF assms] have "fold (fan_out worker) (map ts_container sts) ({}, []) = (seen, started)" by simp
  with one_pipeline_each [of worker "map ts_container sts"] show ?thesis by (auto simp: image_image)
qed

theorem main_loop_pipelines_witness:
  "\<exists>w' done. main_loop (recording (\<lambda>w c. None) (\<lambda>w. []) []) one_entry demo_agent (map Status [running_status, running_status]) ({}, []) [] =
     (({''c''}, [(stream_name demo_agent up_container, up_container)]), Some (w', done)) \<and>
   distinct (map (tc_cid \<circ> snd) [(stream_name demo_agent up_container, up_container)])"
proof -
  have run: "main_loop (recording (\<lambda>w c. None) (\<lambda>w. []) []) one_entry demo_agent (map Status [running_status, running_status]) ({}, []) [] =
     (({''c''}, [(stream_name demo_agent up_container, up_container)]), Some ([Heartbeat ''k'', Heartbeat ''k''], False))"
    by (simp add: running_status_def feedback_def report_def recording_def fan_out_def up_container_def)
  from run main_loop_pipelines [OF run] show ?thesis by blast
qed

theorem signal_ends_main:
  assumes "Interrupt \<notin> set es"
  shows "main_loop svc tar worker (es @ Interrupt # es') fan w =
    (case main_loop svc tar worker es fan w of (fan', r) \<Rightarrow> (fan', map_option (\<lambda>(w', _). (w', True)) r))"
  unfolding main_loop_append [OF assms] by (auto split: option.split prod.split)

theorem signal_ends_main_witness:
  "main_loop (recording (\<lambda>w c. None) (\<lambda>w. []) []) one_entry demo_agent [Interrupt, Status done_status] ({}, []) [] =
     (({}, []), Some ([], True))"
  using signal_ends_main [of "[]"] by simp

end
