(* ===== verification/Spec2Isabelle.thy ===== *)
theory Spec2Isabelle
  imports Schedule_Properties Release_Properties Mux_Properties Overcommit Naming URL_Properties Texts Liveness Entry Agent_Main
begin

text \<open>
  A model of \<open>line\<close>, a serverless scheduler that places evaluations (requests for a data set and a
  size) on the workers of a pool, and of the agent that runs on a worker.

  \<^bold>\<open>The program.\<close> One Lambda binary (\<open>handler.go\<close>, \<open>line/line.go\<close>) serves three functions. The
  gateway (\<open>line/handle_gateway.go\<close>) turns events of an API gateway into requests for the router
  (\<open>line/mux.go\<close>), whose six operations create and disband pools, register workers, take
  heartbeats, enqueue evaluations and complete allocations. The scheduler
  (\<open>line/handle_schedule.go\<close>) receives the evaluations of every pool, claims capacity of a worker by
  a conditional update, stores an allocation and tells the worker. The release function
  (\<open>line/handle_release.go\<close>) gives expired allocations back and sends their evaluations to be tried
  again, and deletes expired replicas and workers. All of them keep their state in four tables
  (\<open>line/pool.go\<close>, \<open>worker.go\<close>, \<open>replica.go\<close>, \<open>alloc.go\<close>, \<open>eval.go\<close>) and in queues. Other programs
  talk to it through \<open>line/client\<close>. The agent (\<open>work/main.go\<close>) starts containers for the tasks of a
  queue, polls their states, reports them to a workflow service and ships their logs.

  \<^bold>\<open>How it is modelled.\<close> A Go function with effects is a function of type \<open>('w, 'a) prog\<close> from an
  opaque world to a world and an outcome: a value, a non-nil error, or a panic (a nil dereference).
  DynamoDB, SQS, the clock and the random source are the record \<open>services\<close>, a parameter of every
  operation. Integers are 64-bit words, items are maps of attribute values. The client, the gateway
  adapter and the router \<open>Mux_text\<close> exchange the texts of requests and responses; an operation and a
  message of a queue have the JSON document of the text (\<open>None\<close> for a text that is no document), and
  \<open>Texts\<close> relates the two. A loop that may run forever is a partial function into \<open>option\<close>; there is
  no fuel. Nothing else is left out of an operation but its logging.

  \<^bold>\<open>Theories, in the order of their imports.\<close>
  \<^item> \<open>Prelude\<close>: errors, outcomes, the combinators of programs, their weakest preconditions, invariants
    and freedom from panics; 64-bit integers. \<open>Go_Sort\<close>: \<open>sort.Slice\<close>. \<open>Go_Strings\<close>: what is used of
    \<open>strings\<close> and \<open>strconv\<close>. \<open>Go_Net\<close>: paths, headers, and the interface of \<open>net/url\<close> and
    \<open>net/http\<close>.
  \<^item> \<open>JSON_Text\<close>: \<open>encoding/json\<close>, UTF-8 and escapes included: the text of a document, the parser and
    the decoder, with the law that what was read is read back from what is written.
  \<^item> \<open>Services\<close>: the services, their requests, \<open>line.Conf\<close>. \<open>Naming\<close>: the names of queues and replicas.
  \<^item> \<open>Entities\<close>: the stored structs and their items. \<open>Payloads\<close>: the structs of the interface and
    their JSON (\<open>line/client/payloads.go\<close>).
  \<^item> \<open>Backend\<close>: the laws of the services, as locales over a \<open>view\<close> of tables and queues. In \<open>backend\<close>
    other actors may change the store between two calls as the relation \<open>rely\<close> allows, reads may be
    stale, and a call that fails may have been applied. \<open>item_backend\<close> adds consistent reads of single
    items, \<open>fresh_backend\<close> queries and receives that show what is stored; neither is what DynamoDB does
    unless it is asked to, and the code does not ask. \<open>seq_backend\<close> is the case in which nobody
    else acts and reads may return anything; \<open>seq_item_backend\<close> and \<open>seq_fresh_backend\<close> add to it what
    their names say. Each property names the weakest of them that it needs. \<open>Scan\<close>: the paged scan. \<open>Table_Ops\<close>: the
    conditional writes that the stores share.
  \<^item> \<open>Pools\<close>, \<open>Workers\<close>, \<open>Replicas\<close>, \<open>Allocs\<close>: the four stores. \<open>Memory\<close>: an executable backend, on
    which the locales are interpreted and the examples run; its clock always says 100.
  \<^item> \<open>Schedule\<close>, \<open>Schedule_Proofs\<close>, \<open>Schedule_Properties\<close>: the scheduler. \<open>Release\<close>, \<open>Release_Proofs\<close>,
    \<open>Release_Properties\<close>: the release function. \<open>Mux_Handlers\<close>, \<open>Mux_Proofs\<close>, \<open>Mux_Properties\<close>: the
    operations and the router.
  \<^item> \<open>Preserve\<close>: a step of the whole system (a request, an invocation of a Lambda function or a
    scheduling round) keeps whatever the single writes keep; \<open>System\<close> and \<open>Typed_Store\<close> are its
    interpretations for the values and for the types of what is stored. \<open>Ledger\<close>: the abstract account
    of capacity that scheduling and completing implement. \<open>Overcommit\<close>: the same account over steps
    with errors on the way.
  \<^item> \<open>Liveness\<close>: on services without faults scheduling succeeds. \<open>Texts\<close>: the router over texts, the
    texts of evaluations from the request to the scheduler, and the log messages of the agent.
  \<^item> \<open>Go_URL\<close>: \<open>net/url\<close> and \<open>http.NewRequest\<close>, the instance of the interface of \<open>Go_Net\<close>.
    \<open>Client\<close>, \<open>Gateway\<close>, \<open>Lambda\<close>: the client, the gateway adapter, the choice of the handler.
    \<open>Front_Properties\<close>: the way of a request through all of them over the interface,
    \<open>URL_Properties\<close>: the same over the libraries.
  \<^item> \<open>Environment\<close>: how \<open>envconfig\<close> reads variables. \<open>Entry\<close>: the Lambda binary (\<open>handler.go\<close>), from
    the environment to the result.
  \<^item> \<open>Agent\<close>: data, parsers and messages of the agent. \<open>Agent_Loops\<close>: its goroutines, with the
    ticker, the channel of tokens and the receiving goroutine as a step relation.
    \<open>Agent_Properties\<close>: their properties. \<open>Agent_Main\<close>: the start of its process, its main loop and
    the pipeline that ships logs.

  \<^bold>\<open>What is shown.\<close> Capacities never become negative, in any interleaving (\<open>capacity_never_negative\<close>,
  \<open>system_invariant\<close>), and what is stored keeps its type (\<open>store_well_typed\<close>). Capacities are
  conserved by scheduling and completing (\<open>capacity_conserved\<close>, by refinement of the ledger), and
  whatever fails on the way, workers are never overcommitted (\<open>never_overcommitted\<close>), as long as
  operations follow one another and reads are consistent; \<open>double_release_inflates\<close> shows why.
  The clock is never assumed to stand still: what depends on it speaks of its readings. No evaluation is
  lost by the scheduler or the release function (\<open>no_eval_lost\<close>, \<open>expired_eval_not_lost\<close>), and it is placed
  when a worker can take it (\<open>schedule_succeeds\<close>). A panic
  means that some pool is disbanded (\<open>panics_only_disbanded\<close>). Each operation has its results on all
  branches, errors and panics included; the handlers end, or run until a receive fails
  (\<open>receive_evals_ends\<close>). A request of the client has exactly the effect of its operation and gets its
  result (\<open>client_end_to_end\<close>), and the router does the same on texts as on documents (\<open>mux_text\<close>,
  \<open>schedule_request_arrives\<close>). An invocation of the binary runs the handler of its function with the
  configuration of its environment, or exits without any effect (\<open>invocation_dispatch\<close>,
  \<open>invocation_exits\<close>, \<open>config_roundtrip\<close>). The agent reads the states that docker prints, reports each
  of them by one call (\<open>status_reported\<close>), removes a container only after a time-out of the report of its
  state, and hands over the lines of a log in order, up to one that is too long and as long as no
  other goroutine overwrites the error of a call (\<open>container_logs_shipped\<close>). Where the
  code does not do what it is meant to, a theorem says what it does (\<open>disbanded_pool_panics\<close>,
  \<open>capacity_leak\<close>, \<open>double_release_inflates\<close>, \<open>pull_loop_stalls\<close>, \<open>agent_overcommits\<close>, \<open>broken_archive_hangs\<close>,
  \<open>log_message_document\<close>, and, outside the listed properties, \<open>put_new_worker_overwrites\<close>,
  \<open>shared_err_loses_logs\<close>, \<open>limit_hides_best\<close> and \<open>prefix_finds_other_dataset\<close>).

  \<^bold>\<open>Bounds.\<close> \<open>sort.Slice\<close> on at most twelve elements is one pass over the pairs at distance six and
  then an insertion sort; the query for workers is limited to ten, so the model needs no other case.
  The channel of the agent holds five tokens, a batch of log events thirty, a log line with its line
  end has at most 65536 bytes.

  \<^bold>\<open>Not modelled.\<close> Logging and messages on the terminal; the construction of the logger and of the AWS
  session, whose results are parameters; the delivery of signals; the limit of \<open>bufio.Scanner\<close> on the
  lines of \<open>docker ps\<close> (that on log lines is modelled); writes of other goroutines to the variable
  \<open>err\<close> of the agent's \<open>main\<close>, other than around the calls of the log service; the rejected events in the
  answer of \<open>PutLogEvents\<close>; the values of JSON numbers with a fraction or an exponent, which no struct has; users
  and hosts of urls, parameters with the laws of the locale \<open>authorities\<close>; the API gateway itself, a
  parameter with the law \<open>gateway_serves\<close>; tests, Terraform files and vendored packages other than
  \<open>envconfig\<close>.
\<close>

section \<open>Properties that span the components\<close>

lemma busy_sound: "sound demo (demo_view busy_world)"
  using demo_world_caps by (simp add: sound_def allocs_ok_def busy_world_def demo_world_def demo_mem_def demo_def lookup_item_def)

lemma busy_round:
  "\<exists>w'. ReceiveEvals_round demo demo_svc demo_pool busy_world = (w', Ret ()) \<and>
     cap_of demo (demo_view w') ''p'' ''w1'' = Some 7"
  by (simp add: busy_world_def schedule_run cap_of_def mem_view_def sub_key_def)

text \<open>
  C1: In every state reachable by any number of HTTP requests, invocations of the Lambda
  functions and scheduling rounds, no stored worker capacity is negative and no stored
  allocation has a negative size, provided registrations offer no negative capacity; other
  actors may change the store between any two calls as long as they keep the invariant. Reads
  show what is stored at the time.
\<close>

theorem system_invariant:
  assumes "fresh_backend svc conf view rely" and "stable (sound conf) rely"
    and "(sys_step net conf svc)\<^sup>*\<^sup>* w w'" and "sound conf (view w)"
  shows "sound conf (view w')"
  using assms(3,4) by (induction rule: rtranclp_induct) (auto intro: sys_step_sound [OF assms(1,2)])

theorem system_invariant_witness:
  "\<exists>w'. (sys_step demo_net demo demo_svc)\<^sup>*\<^sup>* busy_world w' \<and> cap_of demo (demo_view w') ''p'' ''w1'' = Some 7 \<and>
     sound demo (demo_view w')"
proof -
  obtain w' where r: "ReceiveEvals_round demo demo_svc demo_pool busy_world = (w', Ret ())"
    and c: "cap_of demo (demo_view w') ''p'' ''w1'' = Some 7"
    using busy_round by blast
  from r have "(sys_step demo_net demo demo_svc)\<^sup>*\<^sup>* busy_world w'" by (blast intro: sys_step.round)
  with c system_invariant [OF demo.is_fresh stable_eq this busy_sound]
  show ?thesis by blast
qed

text \<open>
  C5: Working off one scheduling message successfully is exactly the abstract step that moves
  the size of the evaluation from the free capacity of one worker to a new allocation. Nobody
  else writes to the store meanwhile.
\<close>

theorem schedule_refines_place:
  assumes "seq_backend svc conf view" and "schedule_eval conf svc pool h eval w = (w', Ret ())"
  shows "\<exists>p k a. place p k a (sint (Size eval)) (ledger_of conf (view w)) = Some (ledger_of conf (view w'))"
  by (rule schedule_places [OF assms])

theorem schedule_refines_place_witness:
  "\<exists>w' p k a. place p k a 3 (ledger_of demo (demo_view received_world)) = Some (ledger_of demo (demo_view w'))"
proof -
  obtain w' where "schedule_eval demo demo_svc demo_pool ''0'' demo_eval received_world = (w', Ret ())"
    using received_run by blast
  from schedule_refines_place [OF demo.seq_backend_axioms this] show ?thesis
    by (auto simp: demo_eval_def)
qed

text \<open>
  C6: A successful CompleteAlloc is exactly the abstract step that removes one allocation and
  gives its size back to its worker. Nobody else writes meanwhile, and reads of single items
  show what is stored.
\<close>

theorem complete_refines_give_back:
  assumes "seq_item_backend svc conf view" and "CompleteAlloc conf svc b w = (w', Ret out)"
  shows "\<exists>p a. give_back p a (ledger_of conf (view w)) = Some (ledger_of conf (view w'))"
  by (rule complete_gives_back [OF assms])

theorem complete_refines_give_back_witness:
  "\<exists>w' p a. give_back p a (ledger_of demo (demo_view alloc_world)) = Some (ledger_of demo (demo_view w'))"
proof -
  obtain w' out where "CompleteAlloc demo demo_svc (Some (json_of_CompleteAllocInput \<lparr>cai_PoolID = ''p'', cai_AllocID = ''a''\<rparr>))
      alloc_world = (w', Ret out)"
    using demo_complete_run by blast
  from complete_refines_give_back [OF demo.seq_item_backend_axioms this] show ?thesis by blast
qed

text \<open>
  C3: Over any sequence of successfully scheduled messages and successfully completed
  allocations, one after the other and with nobody else writing, what a worker has in total (its
  free capacity plus the sizes of the allocations it holds) never changes. Reads of single items
  are taken to be consistent (the code does not ask DynamoDB for that); queries may return
  anything.
\<close>

theorem capacity_conserved:
  assumes "seq_item_backend svc conf view" and "(work_step conf svc)\<^sup>*\<^sup>* w w'" and "finite_ledger (ledger_of conf (view w))"
  shows "worker_total (ledger_of conf (view w')) p k = worker_total (ledger_of conf (view w)) p k"
  using work_steps_total [OF assms] by simp

theorem capacity_conserved_witness:
  "\<exists>w'. (work_step demo demo_svc)\<^sup>*\<^sup>* received_world w' \<and>
     worker_total (ledger_of demo (demo_view w')) ''p'' ''w1'' = worker_total (ledger_of demo (demo_view received_world)) ''p'' ''w1''"
proof -
  obtain w' where "schedule_eval demo demo_svc demo_pool ''0'' demo_eval received_world = (w', Ret ())"
    using received_run by blast
  then have s: "(work_step demo demo_svc)\<^sup>*\<^sup>* received_world w'" by (blast intro: work_step.scheduled_one)
  have "finite_ledger (ledger_of demo (demo_view received_world))"
    by (simp add: finite_ledger_def ledger_of_def received_world_def busy_world_def demo_world_def demo_mem_def
        demo_def lookup_item_def dom_def split_def)
  with capacity_conserved [OF demo.seq_item_backend_axioms s] s show ?thesis by blast
qed

subsection \<open>Types and totals\<close>

lemma busy_typed: "well_typed demo (demo_view busy_world)"
proof -
  have "marshal_Pool demo_pool \<in> range marshal_Pool" by simp
  moreover have "worker_typed (marshal_Worker demo_worker)" by (rule typed_Worker)
  ultimately show ?thesis
    by (simp add: well_typed_def table_typed_def busy_world_def demo_world_def demo_mem_def lookup_item_def demo_def
        pool_typed_def find_Some_iff)
qed

text \<open>
  C2: In every reachable state each item of the four tables has exactly the attributes of its
  struct, with values of their types, so every stored pool, replica and allocation decodes; only
  the capacity of a worker may be a number outside of int64. Other actors may change the store
  between any two calls as long as they keep this typing, registrations offer no negative
  capacity, and reads show what is stored at the time.
\<close>

theorem store_well_typed:
  assumes "fresh_backend svc conf view rely" and "stable (well_typed conf) rely"
    and "(sys_step net conf svc)\<^sup>*\<^sup>* w w'" and "well_typed conf (view w)"
  shows "well_typed conf (view w')"
  by (rule kept.J_sys_steps [OF typed_kept [OF assms(1,2)] assms(3,4)])

theorem store_well_typed_witness:
  "\<exists>w'. (sys_step demo_net demo demo_svc)\<^sup>*\<^sup>* busy_world w' \<and> cap_of demo (demo_view w') ''p'' ''w1'' = Some 7 \<and>
     well_typed demo (demo_view w')"
proof -
  obtain w' where r: "ReceiveEvals_round demo demo_svc demo_pool busy_world = (w', Ret ())"
    and c: "cap_of demo (demo_view w') ''p'' ''w1'' = Some 7"
    using busy_round by blast
  from r have "(sys_step demo_net demo demo_svc)\<^sup>*\<^sup>* busy_world w'" by (blast intro: sys_step.round)
  with c store_well_typed [OF demo.is_fresh stable_eq this busy_typed]
  show ?thesis by blast
qed




subsection \<open>Invocations\<close>

text \<open>
  C12: With a working logger and session and a readable environment, an invocation runs the
  handler that the suffix of the function ARN names, with the configuration read from the
  environment and the clients made from it, in whatever order the map of handlers is iterated:
  the scheduler, the release pass on the event, or the gateway adapter on the event; its effect
  and result are those of the invocation. For an ARN with none of the three suffixes nothing is
  done and the error names it.
\<close>

theorem invocation_dispatch:
  assumes "NewProduction rt = None" and "read_Conf (lookup_env rt) = Inr conf"
    and "NewSession rt (AWSRegion conf) (AWSAccessKeyID conf) (AWSSecretAccessKey conf) = Inr svc"
    and "mset (order conf svc) = mset (Handlers net conf svc)"
  shows "invoke rt order ev ctx w =
    (if HasSuffix (InvokedFunctionARN ctx) ''-schedule'' then
       map_option (\<lambda>(w', started, err). (w', Ends (case err of
         Returns e \<Rightarrow> Returned (Fail e) | BlocksForever \<Rightarrow> Blocked started))) (HandleSchedule conf svc w)
     else if HasSuffix (InvokedFunctionARN ctx) ''-release'' then
       map_option (\<lambda>(w', r). (w', Ends (Returned (map_outcome Event r)))) (HandleRelease conf svc ev w)
     else if HasSuffix (InvokedFunctionARN ctx) ''-gateway'' then
       (case HandleGateway net conf svc ev w of (w', r) \<Rightarrow> Some (w', Ends (Returned (map_outcome Gateway_answer r))))
     else Some (w, Ends (Returned (Fail (no_handler (map fst (order conf svc)) (InvokedFunctionARN ctx))))))"
proof -
  have "set (order conf svc) = set (Handlers net conf svc)" using assms(4) by (rule mset_eq_setD)
  from Handle_by_suffix [OF this] show ?thesis
    by (simp add: invoke_def assms(1-3) schedule_handler_def release_handler_def gateway_handler_def
        option.map_comp comp_def case_prod_unfold)
qed

text \<open>A registration at a disbanded pool, through the gateway: the step is an invocation that panics.\<close>

lemma find_capacity:
  "find_field [''pool_id'', ''capacity''] ''pool_id'' = Some ''pool_id''" by code_simp

lemma gone_body: "json_Unmarshal RegisterWorkerInput_of_json (Some (json_of_DisbandPoolInput \<lparr>dpi_PoolID = ''p''\<rparr>)) =
    Inr \<lparr>rwi_PoolID = ''p'', rwi_Capacity = 0\<rparr>"
  using find_capacity by (simp add: json_Unmarshal_def RegisterWorkerInput_of_json_def json_of_DisbandPoolInput_def)

definition gone_event :: json where
  "gone_event = demo_event ''POST'' ''/RegisterWorker'' (json_Encode (json_of_DisbandPoolInput \<lparr>dpi_PoolID = ''p''\<rparr>))"

lemma gone_text: "json_Decode (json_Encode (json_of_DisbandPoolInput \<lparr>dpi_PoolID = ''p''\<rparr>)) =
    Some (json_of_DisbandPoolInput \<lparr>dpi_PoolID = ''p''\<rparr>)"
  by (rule Decode_Encode) (simp add: json_of_DisbandPoolInput_def utf8_ascii byte_def del: utf8.simps)

lemma gone_gateway: "\<exists>w'. HandleGateway demo_net demo demo_svc gone_event gone_world = (w', Panic)"
  using gone_body
  by (simp add: HandleGateway_def gone_event_def demo_event_decodes demo_net_def serve_def strip_base_def gone_text
      Mux_text_def errh_text_def mux_run gone_world_def gone_pool_def)

lemma gone_panics:
  "\<exists>w'. Handle (Handlers demo_net demo demo_svc) gone_event (''line'' @ ''-gateway'') gone_world =
     Some (w', Returned Panic)"
  using gone_gateway unfolding Handle_dispatches(3) [OF refl] gateway_handler_def by auto

definition demo_runtime :: "mem runtime" where
  "demo_runtime = \<lparr>lookup_env = env_of demo, NewProduction = None, NewSession = (\<lambda>_ _ _. Inr demo_svc)\<rparr>"

theorem invocation_dispatch_witness:
  "\<exists>w'. invoke demo_runtime (\<lambda>conf svc. Handlers demo_net conf svc) gone_event
       (demo_ctx\<lparr>InvokedFunctionARN := ''line'' @ ''-gateway''\<rparr>) gone_world = Some (w', Ends (Returned Panic))"
proof -
  have g: "HasSuffix (''line'' @ ''-gateway'') ''-gateway''" "\<not> HasSuffix (''line'' @ ''-gateway'') ''-schedule''"
    "\<not> HasSuffix (''line'' @ ''-gateway'') ''-release''" by (simp_all add: HasSuffix_def)
  have r: "NewProduction demo_runtime = None" "read_Conf (lookup_env demo_runtime) = Inr demo"
    "NewSession demo_runtime (AWSRegion demo) (AWSAccessKeyID demo) (AWSSecretAccessKey demo) = Inr demo_svc"
    by (simp_all add: demo_runtime_def read_env_of)
  obtain w' where "HandleGateway demo_net demo demo_svc gone_event gone_world = (w', Panic)"
    using gone_gateway by blast
  with invocation_dispatch [OF r, of "\<lambda>conf svc. Handlers demo_net conf svc" demo_net gone_event
      "demo_ctx\<lparr>InvokedFunctionARN := ''line'' @ ''-gateway''\<rparr>" gone_world]
  show ?thesis by (simp add: g del: append.simps append_Cons)
qed

subsection \<open>Panics\<close>

text \<open>
  C7: In a system where nobody else writes, an invocation can only panic if some stored pool is
  disbanded: no other nil pointer is ever dereferenced. Reads and queries show what is stored.
\<close>

theorem panics_only_disbanded:
  assumes "seq_fresh_backend svc conf view" and "(sys_step net conf svc)\<^sup>*\<^sup>* w0 w" and "sound conf (view w0)"
    and "mset iteration = mset (Handlers net conf svc)" and "Handle iteration ev arn w = Some (w', Returned Panic)"
  shows "\<exists>p pool. stored_pool conf (view w) p = Some pool \<and> disbanded pool"
proof -
  have "sound conf (view w)"
    using assms(2,3) by (induction rule: rtranclp_induct)
      (auto intro: sys_step_sound [OF seq_fresh_backend.is_fresh [OF assms(1)] stable_eq])
  from seq_item_backend.panic_Handle [OF seq_fresh_backend.is_item [OF assms(1)] this assms(4,5)] show ?thesis by (simp add: some_disbanded_def)
qed

lemma gone_sound: "sound demo (demo_view gone_world)"
  by (simp add: sound_def allocs_ok_def caps_nonneg_def gone_world_def demo_mem_def demo_def lookup_item_def mem_view_def)

theorem panics_only_disbanded_witness:
  "\<exists>w' p pool. Handle (Handlers demo_net demo demo_svc) gone_event (''line'' @ ''-gateway'') gone_world =
     Some (w', Returned Panic) \<and> stored_pool demo (demo_view gone_world) p = Some pool \<and> disbanded pool"
  using gone_panics panics_only_disbanded [OF demo.seq_fresh_backend_axioms rtranclp.rtrancl_refl gone_sound refl] by blast

end
